(* ===== verification/Prelude.thy ===== *)
theory Prelude
  imports Main "HOL-Library.Word"
begin

text \<open>
  What every component of the development shares: the error values that stand for the C++
  exceptions and the PostgreSQL \<open>ereport(ERROR, ...)\<close> exits of the code, the error monad
  that threads them, the C character functions (\<open>tolower\<close>, \<open>isspace\<close>, \<open>isdigit\<close> in the "C"
  locale) and the \<open>std::string\<close> operations the code calls, decimal printing of integers, and the
  generic list lemmas of the later theories.
  Strings are lists of bytes (\<^typ>\<open>string\<close>), as \<open>std::string\<close> and \<open>char *\<close> are.
\<close>

named_theorems err_simps \<open>rewriting of the error monad\<close>
named_theorems text_simps \<open>lemmas on text building and searching\<close>

section \<open>Errors\<close>

text \<open>
  The exceptions of the code, with their \<open>what()\<close> text, and \<open>Ereport code text\<close>, the
  non-local exit that PostgreSQL's \<open>ereport(ERROR, ...)\<close> makes.
  \<open>Undefined\<close> marks a step that the C or C++ standard leaves undefined (a null pointer that is
  dereferenced, a floating point number converted to an integer type that cannot hold it).
\<close>

datatype errcode =
    ERRCODE_DATA_EXCEPTION
  | ERRCODE_INTERNAL_ERROR
  | ERRCODE_INVALID_TEXT_REPRESENTATION
  | ERRCODE_INVALID_BINARY_REPRESENTATION
  | ERRCODE_NULL_VALUE_NOT_ALLOWED
  | ERRCODE_INVALID_ROLE_SPECIFICATION
  | ERRCODE_CONNECTION_EXCEPTION
  | ERRCODE_RAISE_EXCEPTION
  | ERRCODE_FEATURE_NOT_SUPPORTED
  | ERRCODE_SQL_ROUTINE_EXCEPTION

datatype err =
    Logic_error string
  | Runtime_error string
  | Out_of_range string
  | Invalid_argument string
  | Bad_cast string
  | InvalidQuery
  | InvalidSpecification string
  | NoSuchGeometryName
  | Ignore_value string
  | End_of_file string
  | Ereport errcode string
  | Undefined string

type_synonym 'a res = "err + 'a"

text \<open>\<open>what()\<close> of the \<open>std::exception\<close> classes.\<close>

fun what :: "err \<Rightarrow> string" where
  "what (Logic_error m) = m"
| "what (Runtime_error m) = m"
| "what (Out_of_range m) = m"
| "what (Invalid_argument m) = m"
| "what (Bad_cast m) = m"
| "what InvalidQuery = ''Object is not complete''"
| "what (InvalidSpecification m) = m"
| "what (Ignore_value m) = m"
| "what (End_of_file m) = m"
| "what NoSuchGeometryName = ''''"
| "what (Ereport _ m) = m"
| "what (Undefined m) = m"

text \<open>Which values a \<open>catch (std::exception \& e)\<close> catches: not the PostgreSQL exit (a
  \<open>longjmp\<close>), not the struct \<open>NoSuchGeometryName\<close>, and not undefined behaviour.\<close>

fun is_std_exception :: "err \<Rightarrow> bool" where
  "is_std_exception (Ereport _ _) = False"
| "is_std_exception (Undefined _) = False"
| "is_std_exception NoSuchGeometryName = False"
| "is_std_exception _ = True"

definition bindE :: "'a res \<Rightarrow> ('a \<Rightarrow> 'b res) \<Rightarrow> 'b res" where
  "bindE m f = (case m of Inl e \<Rightarrow> Inl e | Inr x \<Rightarrow> f x)"

definition mapE :: "('a \<Rightarrow> 'b) \<Rightarrow> 'a res \<Rightarrow> 'b res" where
  "mapE f m = (case m of Inl e \<Rightarrow> Inl e | Inr x \<Rightarrow> Inr (f x))"

text \<open>A \<open>catch (std::exception \& e) { ereport(ERROR, (errcode(c), errmsg("%s", e.what()))); }\<close>.\<close>

definition report_std :: "errcode \<Rightarrow> 'a res \<Rightarrow> 'a res" where
  "report_std c m = (case m of
     Inl e \<Rightarrow> (if is_std_exception e then Inl (Ereport c (what e)) else Inl e)
   | Inr x \<Rightarrow> Inr x)"

lemma bindE_Inr [simp, err_simps]: "bindE (Inr x) f = f x"
  and bindE_Inl [simp, err_simps]: "bindE (Inl e) f = Inl e"
  by (simp_all add: bindE_def)

lemma bindE_eq_Inr [err_simps]: "bindE m f = Inr y \<longleftrightarrow> (\<exists>x. m = Inr x \<and> f x = Inr y)"
  by (cases m) auto

lemma bindE_eq_Inl [err_simps]:
  "bindE m f = Inl e \<longleftrightarrow> m = Inl e \<or> (\<exists>x. m = Inr x \<and> f x = Inl e)"
  by (cases m) auto

lemma bindE_assoc: "bindE (bindE m f) g = bindE m (\<lambda>x. bindE (f x) g)"
  by (cases m) auto

lemma mapE_Inr [simp, err_simps]: "mapE f (Inr x) = Inr (f x)"
  and mapE_Inl [simp, err_simps]: "mapE f (Inl e) = Inl e"
  by (simp_all add: mapE_def)

lemma mapE_eq_Inr [err_simps]: "mapE f m = Inr y \<longleftrightarrow> (\<exists>x. m = Inr x \<and> y = f x)"
  by (cases m) auto

lemma mapE_eq_Inl [err_simps]: "mapE f m = Inl e \<longleftrightarrow> m = Inl e"
  by (cases m) auto

lemma report_std_Inr [simp, err_simps]: "report_std c (Inr x) = Inr x"
  by (simp add: report_std_def)

lemma report_std_eq_Inr [err_simps]: "report_std c m = Inr x \<longleftrightarrow> m = Inr x"
  by (cases m) (auto simp: report_std_def)

text \<open>No \<open>std::exception\<close> leaves a handler of this kind.\<close>

lemma report_std_no_std: "report_std c m = Inl e \<Longrightarrow> \<not> is_std_exception e"
  by (cases m) (auto simp: report_std_def split: if_splits)

section \<open>Characters\<close>

definition code :: "char \<Rightarrow> int" where
  "code c = of_char c"

definition tolower :: "char \<Rightarrow> char" where
  "tolower c = (if 65 \<le> code c \<and> code c \<le> 90 then char_of (code c + 32) else c)"

definition toupper :: "char \<Rightarrow> char" where
  "toupper c = (if 97 \<le> code c \<and> code c \<le> 122 then char_of (code c - 32) else c)"

definition isspace :: "char \<Rightarrow> bool" where
  "isspace c \<longleftrightarrow> code c = 32 \<or> (9 \<le> code c \<and> code c \<le> 13)"

definition isdigit :: "char \<Rightarrow> bool" where
  "isdigit c \<longleftrightarrow> 48 \<le> code c \<and> code c \<le> 57"

definition islower :: "char \<Rightarrow> bool" where
  "islower c \<longleftrightarrow> 97 \<le> code c \<and> code c \<le> 122"

definition isupper :: "char \<Rightarrow> bool" where
  "isupper c \<longleftrightarrow> 65 \<le> code c \<and> code c \<le> 90"

definition isword :: "char \<Rightarrow> bool" where
  "isword c \<longleftrightarrow> isdigit c \<or> islower c \<or> isupper c \<or> code c = 95"

abbreviation lowercase :: "string \<Rightarrow> string" where
  "lowercase s \<equiv> map tolower s"

lemma code_of_nat: "code c = int (of_char c)"
  by (simp add: code_def of_nat_of_char)

lemma code_bound: "0 \<le> code c" "code c < 256"
  unfolding code_of_nat by simp_all

lemma code_char_of: "0 \<le> n \<Longrightarrow> n < 256 \<Longrightarrow> code (char_of n) = n"
  by (simp add: code_def)

lemma code_tolower: "code (tolower c) = (if 65 \<le> code c \<and> code c \<le> 90 then code c + 32 else code c)"
  by (simp add: tolower_def code_char_of)

lemma tolower_idem [simp]: "tolower (tolower c) = tolower c"
  by (subst tolower_def) (auto simp: code_tolower)

lemma not_isupper_tolower [simp]: "\<not> isupper (tolower c)"
  by (simp add: isupper_def code_tolower)

lemma tolower_id: "\<not> isupper c \<Longrightarrow> tolower c = c"
  by (auto simp: tolower_def isupper_def)

lemma isspace_tolower [simp]: "isspace (tolower c) = isspace c"
  by (auto simp: isspace_def code_tolower)

lemma lowercase_idem [simp]: "lowercase (lowercase s) = lowercase s"
  by (induction s) simp_all

section \<open>Text\<close>

text \<open>\<open>s << x0 << sep << x1 << sep << ...\<close>\<close>

fun join :: "string \<Rightarrow> string list \<Rightarrow> string" where
  "join sep [] = []"
| "join sep [x] = x"
| "join sep (x # y # zs) = x @ sep @ join sep (y # zs)"

text \<open>\<open>std::string::find\<close> of a string, with \<open>npos\<close> as \<open>None\<close>.\<close>

fun find_sub :: "string \<Rightarrow> string \<Rightarrow> nat option" where
  "find_sub pat [] = (if pat = [] then Some 0 else None)"
| "find_sub pat (c # s) =
     (if take (length pat) (c # s) = pat then Some 0 else map_option Suc (find_sub pat s))"

text \<open>\<open>std::string::find_first_of(set, pos)\<close>.\<close>

fun find_first :: "(char \<Rightarrow> bool) \<Rightarrow> string \<Rightarrow> nat option" where
  "find_first P [] = None"
| "find_first P (c # s) = (if P c then Some 0 else map_option Suc (find_first P s))"

definition find_first_from :: "(char \<Rightarrow> bool) \<Rightarrow> string \<Rightarrow> nat \<Rightarrow> nat option" where
  "find_first_from P s pos = map_option (\<lambda>i. pos + i) (find_first P (drop pos s))"

lemma find_first_None: "find_first P s = None \<longleftrightarrow> (\<forall>c \<in> set s. \<not> P c)"
  by (induction s) auto

lemma find_first_Some:
  "find_first P s = Some i \<longleftrightarrow> i < length s \<and> P (s ! i) \<and> (\<forall>j < i. \<not> P (s ! j))"
proof (induction s arbitrary: i)
  case (Cons c s)
  show ?case
  proof (cases i)
    case 0
    then show ?thesis by simp
  next
    case (Suc j)
    have "(\<forall>k < Suc j. \<not> P ((c # s) ! k)) \<longleftrightarrow> \<not> P c \<and> (\<forall>k < j. \<not> P (s ! k))"
      by (auto simp: less_Suc_eq_0_disj)
    with Suc Cons.IH [of j] show ?thesis by auto
  qed
qed simp

lemma join_append:
  "xs \<noteq> [] \<Longrightarrow> join sep (xs @ [y]) = join sep xs @ sep @ y"
  by (induction sep xs rule: join.induct) auto

lemma length_join:
  "length (join sep xs) = sum_list (map length xs) + (length xs - 1) * length sep"
  by (induction sep xs rule: join.induct) auto

section \<open>Numerals\<close>

definition digit_char :: "int \<Rightarrow> char" where
  "digit_char d = char_of (if d < 10 then 48 + d else 87 + d)"

definition digit_val :: "char \<Rightarrow> int" where
  "digit_val c = (if isdigit c then code c - 48
     else if islower c then code c - 87 else code c - 55)"

text \<open>What \<open>ostream << n\<close> writes in base \<open>b\<close> (10, or 16 under \<open>hex\<close>), for a
  non-negative \<open>n\<close>.\<close>

function show_base :: "int \<Rightarrow> int \<Rightarrow> string" where
  "show_base b n =
     (if b < 2 \<or> n < b then [digit_char n]
      else show_base b (n div b) @ [digit_char (n mod b)])"
  by auto

termination show_base
  by (relation "measure (\<lambda>(b, n). nat n)") (auto simp: not_less intro!: int_div_less_self)

declare show_base.simps [simp del]

definition show_nat :: "nat \<Rightarrow> string" where
  "show_nat n = show_base 10 (int n)"

definition show_int :: "int \<Rightarrow> string" where
  "show_int i = (if i < 0 then CHR ''-'' # show_base 10 (- i) else show_base 10 i)"

definition read_base :: "int \<Rightarrow> string \<Rightarrow> int" where
  "read_base b s = foldl (\<lambda>a c. a * b + digit_val c) 0 s"

lemma code_digit_char: "0 \<le> d \<Longrightarrow> d < 16 \<Longrightarrow> code (digit_char d) = (if d < 10 then 48 + d else 87 + d)"
  by (simp add: digit_char_def code_char_of)

lemma digit_val_digit_char [simp]: "0 \<le> d \<Longrightarrow> d < 16 \<Longrightarrow> digit_val (digit_char d) = d"
  by (auto simp: digit_val_def isdigit_def islower_def code_digit_char)

lemma read_base_snoc: "read_base b (s @ [c]) = read_base b s * b + digit_val c"
  by (simp add: read_base_def)

lemma mod_digit: "2 \<le> (b::int) \<Longrightarrow> b \<le> 16 \<Longrightarrow> n mod b < 16"
  using pos_mod_bound [of b n] by linarith

lemma read_show_base: "2 \<le> b \<Longrightarrow> b \<le> 16 \<Longrightarrow> 0 \<le> n \<Longrightarrow> read_base b (show_base b n) = n"
proof (induction b n rule: show_base.induct)
  case (1 b n)
  show ?case
  proof (cases "n < b")
    case True
    with "1.prems" show ?thesis
      by (subst show_base.simps) (simp add: read_base_def)
  next
    case False
    with 1 have "read_base b (show_base b (n div b)) = n div b"
      by (simp add: pos_imp_zdiv_nonneg_iff)
    then show ?thesis
      using False "1.prems" mod_digit [of b n]
      by (subst show_base.simps) (simp add: read_base_snoc)
  qed
qed

lemma show_base_digits:
  "2 \<le> b \<Longrightarrow> 0 \<le> n \<Longrightarrow> c \<in> set (show_base b n) \<Longrightarrow> \<exists>d. 0 \<le> d \<and> d < b \<and> c = digit_char d"
proof (induction b n rule: show_base.induct)
  case (1 b n)
  have "0 \<le> n mod b" "n mod b < b" using "1.prems"(1) by simp_all
  then have last: "\<exists>d. 0 \<le> d \<and> d < b \<and> digit_char (n mod b) = digit_char d" by blast
  from "1.prems"(3) have "c \<in> set (if b < 2 \<or> n < b then [digit_char n]
      else show_base b (n div b) @ [digit_char (n mod b)])"
    by (subst (asm) show_base.simps)
  then consider "n < b" "c = digit_char n" | "\<not> n < b" "c \<in> set (show_base b (n div b))"
    | "c = digit_char (n mod b)"
    using "1.prems"(1) by (auto split: if_splits)
  then show ?case
  proof cases
    case 1
    with "1.prems" show ?thesis by (intro exI [of _ n]) simp
  next
    case 2
    with "1.IH" "1.prems" show ?thesis by (simp add: pos_imp_zdiv_nonneg_iff)
  next
    case 3
    with last show ?thesis by simp
  qed
qed

lemma show_base_nonempty [simp]: "show_base b n \<noteq> []"
  by (subst show_base.simps) simp

lemma show_nat_nonempty [simp]: "show_nat n \<noteq> []"
  by (simp add: show_nat_def)

lemma isdigit_digit_char: "0 \<le> d \<Longrightarrow> d < 10 \<Longrightarrow> isdigit (digit_char d)"
  by (simp add: isdigit_def code_digit_char)

lemma show_base10_digits: "0 \<le> n \<Longrightarrow> c \<in> set (show_base 10 n) \<Longrightarrow> isdigit c"
  using show_base_digits [of 10 n c] isdigit_digit_char by auto

lemma show_nat_digits: "c \<in> set (show_nat n) \<Longrightarrow> isdigit c"
  unfolding show_nat_def by (rule show_base10_digits) auto

lemma read_show_nat: "read_base 10 (show_nat n) = int n"
  by (simp add: show_nat_def read_show_base)

lemma show_nat_inj: "show_nat m = show_nat n \<longleftrightarrow> m = n"
  by (metis read_show_nat of_nat_eq_iff)

lemma show_int_nonneg: "0 \<le> i \<Longrightarrow> show_int i = show_nat (nat i)"
  by (simp add: show_int_def show_nat_def)

lemma show_int_chars: "c \<in> set (show_int i) \<Longrightarrow> isdigit c \<or> c = CHR ''-''"
  unfolding show_int_def using show_base10_digits [of "- i" c] show_base10_digits [of i c]
  by (auto split: if_splits)

section \<open>State and errors\<close>

text \<open>A call that may fail and that changes the state \<open>'s\<close>, also when it fails.\<close>

type_synonym ('s, 'a) call = "'s \<Rightarrow> 'a res \<times> 's"

named_theorems call_simps \<open>rewriting of calls\<close>

definition retS :: "'a \<Rightarrow> ('s, 'a) call" where
  "retS x = (\<lambda>s. (Inr x, s))"

definition failS :: "err \<Rightarrow> ('s, 'a) call" where
  "failS e = (\<lambda>s. (Inl e, s))"

definition bindS :: "('s, 'a) call \<Rightarrow> ('a \<Rightarrow> ('s, 'b) call) \<Rightarrow> ('s, 'b) call" where
  "bindS m f = (\<lambda>s. case m s of (Inl e, s1) \<Rightarrow> (Inl e, s1) | (Inr x, s1) \<Rightarrow> f x s1)"

definition liftS :: "'a res \<Rightarrow> ('s, 'a) call" where
  "liftS r = (\<lambda>s. (r, s))"

definition mapS :: "('a \<Rightarrow> 'b) \<Rightarrow> ('s, 'a) call \<Rightarrow> ('s, 'b) call" where
  "mapS f m = (\<lambda>s. case m s of (r, s1) \<Rightarrow> (mapE f r, s1))"

definition getS :: "('s \<Rightarrow> 'a) \<Rightarrow> ('s, 'a) call" where
  "getS f = (\<lambda>s. (Inr (f s), s))"

definition modifyS :: "('s \<Rightarrow> 's) \<Rightarrow> ('s, unit) call" where
  "modifyS f = (\<lambda>s. (Inr (), f s))"

text \<open>A call on a part of the state.\<close>

definition zoomS :: "('s \<Rightarrow> 't) \<Rightarrow> ('t \<Rightarrow> 's \<Rightarrow> 's) \<Rightarrow> ('t, 'a) call \<Rightarrow> ('s, 'a) call" where
  "zoomS get put m = (\<lambda>s. case m (get s) of (r, t) \<Rightarrow> (r, put t s))"

fun forS :: "'x list \<Rightarrow> ('x \<Rightarrow> ('s, 'a) call) \<Rightarrow> ('s, 'a list) call" where
  "forS [] f = retS []"
| "forS (x # xs) f = bindS (f x) (\<lambda>y. bindS (forS xs f) (\<lambda>ys. retS (y # ys)))"

lemma callS_simps [simp, call_simps]:
  "retS x s = (Inr x, s)" "failS e s = (Inl e, s)" "liftS r s = (r, s)"
  "getS g s = (Inr (g s), s)" "modifyS h s = (Inr (), h s)"
  by (simp_all add: retS_def failS_def liftS_def getS_def modifyS_def)

lemma bindS_Inr [call_simps]: "m s = (Inr x, s1) \<Longrightarrow> bindS m f s = f x s1"
  and bindS_Inl [call_simps]: "m s = (Inl e, s1) \<Longrightarrow> bindS m f s = (Inl e, s1)"
  by (simp_all add: bindS_def)

lemma bindS_ret [simp]: "bindS (retS x) f = f x" "bindS (failS e) f = failS e"
  by (simp_all add: bindS_def fun_eq_iff)

lemma bindS_eq_Inr:
  "bindS m f s = (Inr y, s2) \<longleftrightarrow> (\<exists>x s1. m s = (Inr x, s1) \<and> f x s1 = (Inr y, s2))"
  by (auto simp: bindS_def split: prod.splits sum.splits)

lemma bindS_eq_Inl:
  "bindS m f s = (Inl e, s2) \<longleftrightarrow> m s = (Inl e, s2) \<or> (\<exists>x s1. m s = (Inr x, s1) \<and> f x s1 = (Inl e, s2))"
  by (auto simp: bindS_def split: prod.splits sum.splits)

lemma mapS_eq_Inr: "mapS f m s = (Inr y, s1) \<longleftrightarrow> (\<exists>x. m s = (Inr x, s1) \<and> y = f x)"
  by (auto simp: mapS_def err_simps split: prod.splits)

text \<open>A property of the state that a call keeps, and that the successful calls establish of their
  result.\<close>

definition keepsS :: "('s \<Rightarrow> bool) \<Rightarrow> ('s, 'a) call \<Rightarrow> ('a \<Rightarrow> bool) \<Rightarrow> bool" where
  "keepsS I m Q \<longleftrightarrow> (\<forall>s. I s \<longrightarrow> I (snd (m s)) \<and> (\<forall>x. fst (m s) = Inr x \<longrightarrow> Q x))"

lemma keepsS_D: "keepsS I m Q \<Longrightarrow> I s \<Longrightarrow> I (snd (m s))"
  "keepsS I m Q \<Longrightarrow> I s \<Longrightarrow> m s = (Inr x, s1) \<Longrightarrow> Q x \<and> I s1"
  by (auto simp: keepsS_def dest!: spec [of _ s])

lemma keepsS_bind:
  assumes "keepsS I m Q" and "\<And>x. Q x \<Longrightarrow> keepsS I (f x) R"
  shows "keepsS I (bindS m f) R"
  unfolding keepsS_def
proof (intro allI impI)
  fix s
  assume I: "I s"
  obtain r s1 where m: "m s = (r, s1)" by (cases "m s")
  with keepsS_D(1) [OF assms(1) I] have I1: "I s1" by simp
  show "I (snd (bindS m f s)) \<and> (\<forall>x. fst (bindS m f s) = Inr x \<longrightarrow> R x)"
  proof (cases r)
    case (Inl e)
    with m I1 show ?thesis by (simp add: bindS_def)
  next
    case (Inr x)
    with m keepsS_D(2) [OF assms(1) I] have "Q x" by simp
    from assms(2) [OF this] I1 m Inr show ?thesis by (simp add: bindS_def keepsS_def)
  qed
qed

lemma keepsS_simple [intro]:
  "Q x \<Longrightarrow> keepsS I (retS x) Q" "keepsS I (failS e) Q" "(\<And>x. r = Inr x \<Longrightarrow> Q x) \<Longrightarrow> keepsS I (liftS r) Q"
  "(\<And>s. I s \<Longrightarrow> Q (g s)) \<Longrightarrow> keepsS I (getS g) Q"
  by (auto simp: keepsS_def)

lemma keepsS_weaken: "keepsS I m Q \<Longrightarrow> (\<And>x. Q x \<Longrightarrow> R x) \<Longrightarrow> keepsS I m R"
  by (auto simp: keepsS_def)

lemma keepsS_for:
  "(\<And>x. x \<in> set xs \<Longrightarrow> keepsS I (f x) (Q x)) \<Longrightarrow> keepsS I (forS xs f) (list_all2 Q xs)"
proof (induction xs)
  case (Cons x xs)
  show ?case
    unfolding forS.simps
  proof (rule keepsS_bind [OF Cons.prems [of x, simplified]])
    fix y
    assume y: "Q x y"
    show "keepsS I (bindS (forS xs f) (\<lambda>ys. retS (y # ys))) (list_all2 Q (x # xs))"
    proof (rule keepsS_bind [OF Cons.IH])
      show "keepsS I (f z) (Q z)" if "z \<in> set xs" for z using Cons.prems that by simp
    qed (use y in auto)
  qed
qed auto

end
