(* ===== verification/Floating.thy ===== *)
theory Floating
  imports Prelude "HOL-Library.Log_Nat"
begin

text \<open>
  The C types \<open>float\<close> and \<open>double\<close>: IEEE-754 binary32 and binary64 values with the rounding
  "to nearest, ties to even" that every arithmetic operation of the code performs. A value is an
  exact rational number, an infinity or NaN. The two zeros are one value (the code never asks for
  the sign of a zero and a division by zero takes the sign of its dividend), so a negative zero is
  never printed as \<open>-0\<close>.
  The theory gives the arithmetic and the comparisons of the source, the conversions to and from
  the integer types (undefined where C leaves them undefined), the \<open>\%g\<close> text that
  \<open>ostream << x\<close> writes, and the fact the components rest on: a representable number is
  its own rounding.
\<close>

datatype fp = Fin rat | PInf | NInf | NaN

record ffmt =
  prec :: nat
  qmin :: int
  emax :: int

definition binary64 :: ffmt where
  "binary64 = \<lparr>prec = 53, qmin = -1074, emax = 1024\<rparr>"

definition binary32 :: ffmt where
  "binary32 = \<lparr>prec = 24, qmin = -149, emax = 128\<rparr>"

section \<open>Rounding\<close>

definition pow2 :: "int \<Rightarrow> rat" where
  "pow2 e = (if 0 \<le> e then 2 ^ nat e else 1 / 2 ^ nat (- e))"

text \<open>The exponent of the leading bit of a positive rational.\<close>

definition ilog2 :: "rat \<Rightarrow> int" where
  "ilog2 x = (let (p, q) = quotient_of x; k = bitlen p - bitlen q
     in if pow2 k \<le> x then k else k - 1)"

definition round_half_even :: "rat \<Rightarrow> int" where
  "round_half_even x = (let f = \<lfloor>x\<rfloor>; d = x - of_int f in
     if d < 1/2 then f else if 1/2 < d then f + 1 else if even f then f else f + 1)"

definition rnd :: "ffmt \<Rightarrow> rat \<Rightarrow> fp" where
  "rnd F x = (if x = 0 then Fin 0 else
     let e = max (qmin F) (ilog2 \<bar>x\<bar> - (int (prec F) - 1));
         y = of_int (round_half_even (x / pow2 e)) * pow2 e
     in if \<bar>y\<bar> < pow2 (emax F) then Fin y else if 0 < x then PInf else NInf)"

section \<open>Arithmetic and comparisons\<close>

fun fneg :: "fp \<Rightarrow> fp" where
  "fneg (Fin x) = Fin (- x)"
| "fneg PInf = NInf"
| "fneg NInf = PInf"
| "fneg NaN = NaN"

fun fadd :: "ffmt \<Rightarrow> fp \<Rightarrow> fp \<Rightarrow> fp" where
  "fadd F NaN _ = NaN"
| "fadd F _ NaN = NaN"
| "fadd F (Fin x) (Fin y) = rnd F (x + y)"
| "fadd F PInf NInf = NaN"
| "fadd F NInf PInf = NaN"
| "fadd F PInf _ = PInf"
| "fadd F NInf _ = NInf"
| "fadd F (Fin _) y = y"

definition fsub :: "ffmt \<Rightarrow> fp \<Rightarrow> fp \<Rightarrow> fp" where
  "fsub F x y = fadd F x (fneg y)"

definition inf_of_sign :: "rat \<Rightarrow> fp" where
  "inf_of_sign x = (if x = 0 then NaN else if 0 < x then PInf else NInf)"

fun fmul :: "ffmt \<Rightarrow> fp \<Rightarrow> fp \<Rightarrow> fp" where
  "fmul F NaN _ = NaN"
| "fmul F _ NaN = NaN"
| "fmul F (Fin x) (Fin y) = rnd F (x * y)"
| "fmul F PInf (Fin y) = inf_of_sign y"
| "fmul F NInf (Fin y) = inf_of_sign (- y)"
| "fmul F (Fin x) PInf = inf_of_sign x"
| "fmul F (Fin x) NInf = inf_of_sign (- x)"
| "fmul F PInf y = y"
| "fmul F NInf y = fneg y"

fun fdiv :: "ffmt \<Rightarrow> fp \<Rightarrow> fp \<Rightarrow> fp" where
  "fdiv F NaN _ = NaN"
| "fdiv F _ NaN = NaN"
| "fdiv F (Fin x) (Fin y) = (if y = 0 then inf_of_sign x else rnd F (x / y))"
| "fdiv F (Fin _) _ = Fin 0"
| "fdiv F PInf (Fin y) = (if y < 0 then NInf else PInf)"
| "fdiv F NInf (Fin y) = (if y < 0 then PInf else NInf)"
| "fdiv F _ _ = NaN"

fun fabs :: "fp \<Rightarrow> fp" where
  "fabs (Fin x) = Fin \<bar>x\<bar>"
| "fabs NInf = PInf"
| "fabs x = x"

fun flt :: "fp \<Rightarrow> fp \<Rightarrow> bool" where
  "flt NaN _ = False"
| "flt _ NaN = False"
| "flt (Fin x) (Fin y) = (x < y)"
| "flt NInf y = (y \<noteq> NInf)"
| "flt x PInf = (x \<noteq> PInf)"
| "flt _ _ = False"

text \<open>C's \<open>==\<close>: NaN is not equal to itself.\<close>

definition feq :: "fp \<Rightarrow> fp \<Rightarrow> bool" where
  "feq x y \<longleftrightarrow> x = y \<and> x \<noteq> NaN"

definition fle :: "fp \<Rightarrow> fp \<Rightarrow> bool" where
  "fle x y \<longleftrightarrow> flt x y \<or> feq x y"

text \<open>Narrowing a \<open>double\<close> to a \<open>float\<close>.\<close>

fun to_float :: "fp \<Rightarrow> fp" where
  "to_float (Fin x) = rnd binary32 x"
| "to_float x = x"

definition of_integer :: "int \<Rightarrow> fp" where
  "of_integer i = rnd binary64 (of_int i)"

section \<open>Conversion to \<open>int\<close>\<close>

definition INT_MIN :: int where "INT_MIN = - (2 ^ 31)"
definition INT_MAX :: int where "INT_MAX = 2 ^ 31 - 1"

definition int_range :: "int \<Rightarrow> bool" where
  "int_range i \<longleftrightarrow> INT_MIN \<le> i \<and> i \<le> INT_MAX"

definition trunc :: "rat \<Rightarrow> int" where
  "trunc x = (if 0 \<le> x then \<lfloor>x\<rfloor> else \<lceil>x\<rceil>)"

text \<open>A conversion from \<open>double\<close> to \<open>int\<close> is undefined unless the truncated value fits.\<close>

fun double_to_int :: "fp \<Rightarrow> int res" where
  "double_to_int (Fin x) = (if int_range (trunc x) then Inr (trunc x)
     else Inl (Undefined ''double to int''))"
| "double_to_int _ = Inl (Undefined ''double to int'')"

fun ffloor :: "fp \<Rightarrow> fp" where
  "ffloor (Fin x) = Fin (of_int \<lfloor>x\<rfloor>)"
| "ffloor x = x"

fun fceil :: "fp \<Rightarrow> fp" where
  "fceil (Fin x) = Fin (of_int \<lceil>x\<rceil>)"
| "fceil x = x"

fun fmodf :: "fp \<Rightarrow> fp" where
  "fmodf (Fin x) = Fin (of_int (trunc x))"
| "fmodf x = x"

section \<open>Exactness of representable numbers\<close>

definition representable :: "ffmt \<Rightarrow> rat \<Rightarrow> bool" where
  "representable F x \<longleftrightarrow>
     (\<exists>m e. qmin F \<le> e \<and> \<bar>m\<bar> \<le> 2 ^ prec F \<and> x = of_int m * pow2 e) \<and> \<bar>x\<bar> < pow2 (emax F)"

lemma pow2_pos [simp]: "0 < pow2 e"
  by (simp add: pow2_def)

lemma pow2_neq0 [simp]: "pow2 e \<noteq> 0"
  using pow2_pos [of e] by linarith

lemma pow2_powi: "pow2 e = 2 powi e"
  by (simp add: pow2_def power_int_def inverse_eq_divide power_divide)

lemma pow2_add: "pow2 (a + b) = pow2 a * pow2 b"
  by (simp add: pow2_powi power_int_add)

lemma pow2_diff: "pow2 (a - b) = pow2 a / pow2 b"
  by (simp add: pow2_powi power_int_diff)

lemma pow2_less: "a < b \<Longrightarrow> pow2 a < pow2 b"
  by (simp add: pow2_powi power_int_strict_increasing)

lemma pow2_strict_mono: "pow2 a < pow2 b \<longleftrightarrow> a < b"
  using pow2_less [of a b] pow2_less [of b a] by (cases a b rule: linorder_cases) auto

lemma pow2_inj: "pow2 a = pow2 b \<longleftrightarrow> a = b"
  by (metis linorder_neq_iff pow2_less less_irrefl)

lemma pow2_mono: "a \<le> b \<Longrightarrow> pow2 a \<le> pow2 b"
  using pow2_less [of a b] by (cases "a = b") auto

lemma pow2_nonneg: "0 \<le> e \<Longrightarrow> pow2 e = of_int (2 ^ nat e)"
  by (simp add: pow2_def)

lemma ilog2_bounds:
  assumes "0 < x"
  shows "pow2 (ilog2 x) \<le> x" and "x < pow2 (ilog2 x + 1)"
proof -
  obtain p q where pq: "quotient_of x = (p, q)" by fastforce
  then have q: "0 < q" and x: "x = of_int p / of_int q"
    by (simp_all add: quotient_of_denom_pos quotient_of_div)
  with assms have p: "0 < p" by (simp add: zero_less_divide_iff)
  let ?bp = "bitlen p" and ?bq = "bitlen q"
  have pb: "2 ^ nat (?bp - 1) \<le> p" "p < 2 ^ nat ?bp"
    and qb: "2 ^ nat (?bq - 1) \<le> q" "q < 2 ^ nat ?bq"
    using bitlen_bounds [OF p] bitlen_bounds [OF q] by auto
  have bpos: "1 \<le> ?bp" "1 \<le> ?bq"
    using p q by (simp_all add: bitlen_def floorlog_def)
  have 1: "pow2 (?bp - 1) \<le> of_int p" "of_int p < pow2 ?bp"
    using pb bpos by (simp_all add: pow2_nonneg del: of_int_power)
  have 2: "pow2 (?bq - 1) \<le> of_int q" "of_int q < pow2 ?bq"
    using qb bpos by (simp_all add: pow2_nonneg del: of_int_power)
  have qpos: "(0::rat) < of_int q" using q by simp
  have "pow2 (?bp - ?bq - 1) = pow2 (?bp - 1) / pow2 ?bq"
    by (simp add: pow2_diff [symmetric] algebra_simps)
  also have "\<dots> \<le> x"
    unfolding x by (rule frac_le) (use 1 2 q p in auto)
  finally have lo: "pow2 (?bp - ?bq - 1) \<le> x" .
  have "x < pow2 ?bp / pow2 (?bq - 1)"
    unfolding x by (rule frac_less) (use 1 2 q p in auto)
  also have "\<dots> = pow2 (?bp - ?bq + 1)"
    by (simp add: pow2_diff [symmetric] algebra_simps)
  finally have hi: "x < pow2 (?bp - ?bq + 1)" .
  show "pow2 (ilog2 x) \<le> x" and "x < pow2 (ilog2 x + 1)"
    using lo hi by (auto simp: ilog2_def pq Let_def not_le)
qed

lemma round_half_even_int [simp]: "round_half_even (of_int i) = i"
  by (simp add: round_half_even_def)

lemma round_half_even_near: "\<bar>of_int (round_half_even x) - x\<bar> \<le> 1/2"
  unfolding round_half_even_def Let_def by (auto simp: abs_if) linarith+

lemma quotient_int_of_abs:
  fixes x y :: rat
  assumes "\<bar>x\<bar> / y = of_int k"
  shows "\<exists>i. x / y = of_int i"
proof (cases "0 \<le> x")
  case True
  with assms show ?thesis by auto
next
  case False
  with assms have "x / y = of_int (- k)" by (simp add: abs_if)
  then show ?thesis by blast
qed

text \<open>Dividing by a power of two that does not exceed the unit in the last place leaves an integer.\<close>

lemma representable_scaled:
  assumes m: "\<bar>m\<bar> \<le> 2 ^ p" and x: "x = of_int m * pow2 e" and "x \<noteq> 0" and p: "1 \<le> p"
    and q: "q \<le> e"
  shows "\<exists>i. x / pow2 (max q (ilog2 \<bar>x\<bar> - (int p - 1))) = of_int i"
proof -
  define l where "l = ilog2 \<bar>x\<bar>"
  define f where "f = max q (l - (int p - 1))"
  have lb: "pow2 l \<le> \<bar>x\<bar>"
    using ilog2_bounds [of "\<bar>x\<bar>"] \<open>x \<noteq> 0\<close> by (simp add: l_def)
  have "\<bar>x\<bar> = of_int \<bar>m\<bar> * pow2 e"
    by (simp add: x abs_mult abs_of_pos)
  also have "\<dots> \<le> of_int (2 ^ p) * pow2 e"
    using m by (intro mult_right_mono) (simp_all add: less_imp_le del: of_int_power)
  also have "\<dots> = pow2 (int p + e)"
    by (simp add: pow2_add pow2_nonneg)
  finally have le: "\<bar>x\<bar> \<le> pow2 (int p + e)" .
  have "\<exists>i. x / pow2 f = of_int i"
  proof (cases "f \<le> e")
    case True
    then have "x / pow2 f = of_int m * pow2 (e - f)"
      by (simp add: x pow2_diff)
    also have "\<dots> = of_int (m * 2 ^ nat (e - f))"
      using True by (simp add: pow2_nonneg)
    finally show ?thesis by blast
  next
    case False
    with q have "int p + e \<le> l" by (auto simp: f_def)
    then have "pow2 (int p + e) \<le> pow2 l" by (rule pow2_mono)
    with le lb have eq: "\<bar>x\<bar> = pow2 (int p + e)" "pow2 l = pow2 (int p + e)" by linarith+
    then have "l = int p + e" by (simp only: pow2_inj)
    with q p have f: "f = e + 1" by (auto simp: f_def)
    have "\<bar>x\<bar> / pow2 f = pow2 (int p + e) / pow2 f" by (simp only: eq(1))
    also have "\<dots> = pow2 (int p + e - f)" by (rule pow2_diff [symmetric])
    also have "\<dots> = of_int (2 ^ nat (int p + e - f))"
      by (rule pow2_nonneg) (use p f in simp)
    finally show ?thesis by (rule quotient_int_of_abs)
  qed
  then show ?thesis by (simp only: f_def l_def)
qed

theorem rnd_exact:
  assumes "representable F x" and "1 \<le> prec F"
  shows "rnd F x = Fin x"
proof (cases "x = 0")
  case True
  then show ?thesis by (simp add: rnd_def)
next
  case False
  let ?e = "max (qmin F) (ilog2 \<bar>x\<bar> - (int (prec F) - 1))"
  obtain i where "x / pow2 ?e = of_int i"
    using assms False representable_scaled by (fastforce simp: representable_def)
  then have "of_int (round_half_even (x / pow2 ?e)) = x / pow2 ?e"
    by (simp only: round_half_even_int)
  then have "of_int (round_half_even (x / pow2 ?e)) * pow2 ?e = x" by simp
  moreover have "\<bar>x\<bar> < pow2 (emax F)" using assms(1) by (simp add: representable_def)
  ultimately show ?thesis using False by (simp add: rnd_def Let_def)
qed

text \<open>The numbers the components compute with: halves (cell centres) and whole numbers.\<close>

lemma representable_half:
  assumes k: "\<bar>k\<bar> \<le> 2 ^ 53"
  shows "representable binary64 (of_int k / 2)"
proof -
  have "\<bar>of_int k / (2::rat)\<bar> \<le> of_int (2 ^ 53) / 2"
    using k by (simp add: abs_le_iff)
  also have "\<dots> < pow2 1024"
    by (simp add: pow2_def)
  finally have "\<bar>of_int k / (2::rat)\<bar> < pow2 1024" .
  moreover have "(of_int k / 2 :: rat) = of_int k * pow2 (- 1)"
    by (simp add: pow2_def)
  then have "\<exists>m e. qmin binary64 \<le> e \<and> \<bar>m\<bar> \<le> 2 ^ prec binary64 \<and> (of_int k / 2 :: rat) = of_int m * pow2 e"
    using k by (intro exI [of _ k] exI [of _ "- 1"]) (simp add: binary64_def)
  ultimately show ?thesis
    by (simp add: representable_def binary64_def)
qed

lemma representable_int: "\<bar>k\<bar> \<le> 2 ^ 52 \<Longrightarrow> representable binary64 (of_int k)"
  using representable_half [of "2 * k"] by simp

lemma prec_binary64 [simp]: "prec binary64 = 53"
  by (simp add: binary64_def)

lemma rnd_half: "\<bar>k\<bar> \<le> 2 ^ 53 \<Longrightarrow> rnd binary64 (of_int k / 2) = Fin (of_int k / 2)"
  by (rule rnd_exact [OF representable_half]) simp_all

lemma rnd_int: "\<bar>k\<bar> \<le> 2 ^ 52 \<Longrightarrow> rnd binary64 (of_int k) = Fin (of_int k)"
  by (rule rnd_exact [OF representable_int]) simp_all

lemma of_integer_exact: "\<bar>k\<bar> \<le> 2 ^ 52 \<Longrightarrow> of_integer k = Fin (of_int k)"
  by (simp add: of_integer_def rnd_int)

section \<open>Text of a number\<close>

definition pow10 :: "int \<Rightarrow> rat" where
  "pow10 e = (if 0 \<le> e then 10 ^ nat e else 1 / 10 ^ nat (- e))"

text \<open>The exponent of the leading decimal digit of a positive rational.\<close>

definition ilog10 :: "rat \<Rightarrow> int" where
  "ilog10 x = (let (p, q) = quotient_of x;
       k = int (length (show_base 10 p)) - int (length (show_base 10 q))
     in if pow10 k \<le> x then k else k - 1)"

definition strip0 :: "string \<Rightarrow> string" where
  "strip0 s = rev (dropWhile (\<lambda>c. c = CHR ''0'') (rev s))"

definition with_fraction :: "string \<Rightarrow> string \<Rightarrow> string" where
  "with_fraction i f = (let f' = strip0 f in if f' = [] then i else i @ ''.'' @ f')"

definition show_exponent :: "int \<Rightarrow> string" where
  "show_exponent e = ''e'' @ (if e < 0 then ''-'' else ''+'') @
     (if \<bar>e\<bar> < 10 then ''0'' else []) @ show_base 10 \<bar>e\<bar>"

text \<open>\<open>\%g\<close>: six significant digits, trailing zeros dropped, the exponent form below
  \<open>1e-4\<close> and from \<open>1e6\<close>.\<close>

definition show_pos :: "rat \<Rightarrow> string" where
  "show_pos x = (let e0 = ilog10 x; m0 = round_half_even (x / pow10 (e0 - 5));
       (m, e) = (if m0 = 1000000 then (100000, e0 + 1) else (m0, e0));
       d = show_base 10 m
     in if e < -4 \<or> 6 \<le> e then with_fraction (take 1 d) (drop 1 d) @ show_exponent e
        else if 0 \<le> e then with_fraction (take (nat e + 1) d) (drop (nat e + 1) d)
        else with_fraction ''0'' (replicate (nat (- e) - 1) (CHR ''0'') @ d))"

fun show_g :: "fp \<Rightarrow> string" where
  "show_g (Fin x) = (if x = 0 then ''0'' else if x < 0 then ''-'' @ show_pos (- x) else show_pos x)"
| "show_g PInf = ''inf''"
| "show_g NInf = ''-inf''"
| "show_g NaN = ''nan''"

text \<open>The value of a decimal text \<open>[sign] digits [. digits] [e [sign] digits]\<close>; None when the
  text is not of that form.\<close>

definition read_sign :: "string \<Rightarrow> bool \<times> string" where
  "read_sign s = (case s of
     c # s' \<Rightarrow> (if c = CHR ''-'' then (True, s') else if c = CHR ''+'' then (False, s') else (False, s))
   | [] \<Rightarrow> (False, []))"

definition read_expo :: "string \<Rightarrow> int option" where
  "read_expo s = (if s = [] then Some 0
     else if hd s = CHR ''e'' \<or> hd s = CHR ''E'' then
       (let (neg, d) = read_sign (tl s) in
        if d \<noteq> [] \<and> list_all isdigit d then Some (if neg then - read_base 10 d else read_base 10 d)
        else None)
     else None)"

definition read_decimal :: "string \<Rightarrow> rat option" where
  "read_decimal s = (let (neg, s1) = read_sign s;
       i = takeWhile isdigit s1; s2 = dropWhile isdigit s1;
       (f, s3) = (if s2 \<noteq> [] \<and> hd s2 = CHR ''.''
                  then (takeWhile isdigit (tl s2), dropWhile isdigit (tl s2)) else ([], s2))
     in if i = [] \<and> f = [] then None
        else map_option (\<lambda>x. (if neg then - 1 else 1) * of_int (read_base 10 (i @ f)) * pow10 (x - int (length f)))
               (read_expo s3))"

definition read_fp :: "ffmt \<Rightarrow> string \<Rightarrow> fp option" where
  "read_fp F s = map_option (rnd F) (read_decimal s)"

text \<open>\<open>boost::lexical_cast\<close> to a floating type, as it is documented: after an optional sign the names of an
  infinity or of NaN in any letter case, or a decimal text. A decimal text whose value is out of the range of the type
  is a \<open>bad_lexical_cast\<close>, never an infinity.\<close>

fun in_range :: "fp \<Rightarrow> bool" where
  "in_range (Fin x) = True"
| "in_range _ = False"

definition lexical_fp :: "ffmt \<Rightarrow> string \<Rightarrow> fp option" where
  "lexical_fp F s = (let (neg, w) = read_sign s; l = lowercase w
     in if l = ''inf'' \<or> l = ''infinity'' then Some (if neg then NInf else PInf)
        else if l = ''nan'' \<or> (take 4 l = ''nan('' \<and> 5 \<le> length l \<and> last l = CHR '')'') then Some NaN
        else (case read_fp F s of None \<Rightarrow> None | Some x \<Rightarrow> (if in_range x then Some x else None)))"

lemma in_range_Fin: "in_range x \<longleftrightarrow> (\<exists>r. x = Fin r)"
  by (cases x) simp_all

lemma tolower_digit: "isdigit c \<or> c = CHR ''.'' \<Longrightarrow> tolower c = c"
  by (rule tolower_id) (auto simp: isdigit_def isupper_def code_def)

lemma lexical_fp_number:
  assumes "s \<noteq> []" and "isdigit (hd s) \<or> hd s = CHR ''.''"
  shows "lexical_fp F s = (case read_fp F s of None \<Rightarrow> None | Some x \<Rightarrow> (if in_range x then Some x else None))"
proof -
  obtain c r where s: "s = c # r" using assms(1) by (cases s) simp_all
  have low: "tolower c = c" using tolower_digit [of c] assms(2) s by simp
  have "c \<noteq> CHR ''i''" "c \<noteq> CHR ''n''" "c \<noteq> CHR ''-''" "c \<noteq> CHR ''+''"
    using assms(2) s by (auto simp: isdigit_def code_def)
  then show ?thesis by (simp add: lexical_fp_def read_sign_def s low Let_def)
qed

lemma round_half_even_mono: "x \<le> y \<Longrightarrow> round_half_even x \<le> round_half_even y"
proof -
  assume xy: "x \<le> y"
  then have f: "\<lfloor>x\<rfloor> \<le> \<lfloor>y\<rfloor>" by (rule floor_mono)
  have b: "round_half_even x \<le> \<lfloor>x\<rfloor> + 1" "\<lfloor>y\<rfloor> \<le> round_half_even y"
    by (auto simp: round_half_even_def Let_def)
  show ?thesis
  proof (cases "\<lfloor>x\<rfloor> = \<lfloor>y\<rfloor>")
    case True
    then show ?thesis using xy by (auto simp: round_half_even_def Let_def)
  qed (use f b in linarith)
qed

lemma rnd_finite:
  fixes F :: ffmt
  assumes "x \<noteq> 0"
  defines "e \<equiv> max (qmin F) (ilog2 \<bar>x\<bar> - (int (prec F) - 1))"
  shows "in_range (rnd F x) \<longleftrightarrow> \<bar>of_int (round_half_even (x / pow2 e)) * pow2 e\<bar> < pow2 (emax F)"
  using assms by (simp add: rnd_def Let_def)

lemma ilog2_unique: "0 < x \<Longrightarrow> pow2 k \<le> x \<Longrightarrow> x < pow2 (k + 1) \<Longrightarrow> ilog2 x = k"
proof -
  assume x: "0 < x" "pow2 k \<le> x" "x < pow2 (k + 1)"
  from ilog2_bounds [OF x(1)] x have "pow2 (ilog2 x) < pow2 (k + 1)" "pow2 k < pow2 (ilog2 x + 1)" by linarith+
  then show ?thesis unfolding pow2_strict_mono by simp
qed

text \<open>A positive number rounds to a finite \<open>float\<close> exactly below half a unit in the last place under \<open>2^128\<close>.\<close>

lemma in_range_binary32:
  assumes x: "0 < x"
  shows "in_range (rnd binary32 x) \<longleftrightarrow> x < 2 ^ 128 - 2 ^ 103"
proof -
  define e where "e = max (- 149) (ilog2 x - 23)"
  define r where "r = round_half_even (x / pow2 e)"
  have fin: "in_range (rnd binary32 x) \<longleftrightarrow> \<bar>of_int r * pow2 e\<bar> < pow2 128"
    using rnd_finite [of x binary32] x by (simp add: binary32_def e_def r_def)
  have "0 \<le> x / pow2 e" using x by (simp add: less_imp_le)
  from round_half_even_mono [OF this] have r0: "0 \<le> r"
    using round_half_even_int [of 0] by (simp add: r_def)
  then have fin: "in_range (rnd binary32 x) \<longleftrightarrow> of_int r * pow2 e < pow2 128"
    unfolding fin by (simp add: abs_mult abs_of_pos)
  note lb = ilog2_bounds [OF x]
  consider "x < pow2 127" | "pow2 127 \<le> x" "x < pow2 128" | "pow2 128 \<le> x" by linarith
  then show ?thesis
  proof cases
    case 1
    with lb have "pow2 (ilog2 x) < pow2 127" by linarith
    then have e: "e \<le> 127" by (simp add: pow2_strict_mono e_def)
    have "x / pow2 e \<le> pow2 (127 - e)" using 1 by (simp add: pow2_diff divide_right_mono less_imp_le)
    also have "pow2 (127 - e) = of_int (2 ^ nat (127 - e))" using e by (simp add: pow2_def)
    finally have "r \<le> 2 ^ nat (127 - e)"
      unfolding r_def using round_half_even_mono round_half_even_int by metis
    then have "of_int r \<le> pow2 (127 - e)" using e by (simp add: pow2_def)
    then have "of_int r * pow2 e \<le> pow2 127" by (simp add: pow2_diff field_simps)
    moreover have "pow2 127 < pow2 128" "pow2 127 < 2 ^ 128 - 2 ^ 103" by (simp_all add: pow2_def)
    ultimately show ?thesis using 1 unfolding fin by linarith
  next
    case 2
    then have "ilog2 x = 127" using x by (intro ilog2_unique) simp_all
    then have e: "e = 104" by (simp add: e_def)
    have p: "pow2 104 = (2 ^ 104 :: rat)" "pow2 128 = (2 ^ 24 * 2 ^ 104 :: rat)" by (simp_all add: pow2_def)
    have "of_int r * pow2 e < pow2 128 \<longleftrightarrow> of_int r < (of_int (2 ^ 24) :: rat)" by (simp add: e p)
    also have "\<dots> \<longleftrightarrow> r < 2 ^ 24" by (rule of_int_less_iff)
    also have "\<dots> \<longleftrightarrow> x / pow2 104 < 2 ^ 24 - 1 / 2"
    proof
      assume *: "x / pow2 104 < 2 ^ 24 - 1 / 2"
      show "r < 2 ^ 24"
      proof (cases "x / pow2 104 < 2 ^ 24 - 1")
        case True
        then have "\<lfloor>x / pow2 104\<rfloor> < 2 ^ 24 - 1" by (simp add: floor_less_iff)
        then show ?thesis unfolding r_def e by (auto simp: round_half_even_def Let_def)
      next
        case False
        define z where "z = x / pow2 104"
        have "16777215 \<le> z" "z < 16777216" using False * unfolding z_def [symmetric] by simp_all
        then have "\<lfloor>z\<rfloor> = 2 ^ 24 - 1" by (intro floor_unique) simp_all
        then show ?thesis unfolding r_def e round_half_even_def Let_def z_def [symmetric] using * [folded z_def] by simp
      qed
    next
      assume r: "r < 2 ^ 24"
      show "x / pow2 104 < 2 ^ 24 - 1 / 2"
      proof (rule ccontr)
        assume "\<not> ?thesis"
        then have "round_half_even (2 ^ 24 - 1 / 2) \<le> r" unfolding r_def e by (intro round_half_even_mono) simp
        moreover have "round_half_even (2 ^ 24 - 1 / 2) = 2 ^ 24" by code_simp
        ultimately show False using r by simp
      qed
    qed
    also have "\<dots> \<longleftrightarrow> x < 2 ^ 128 - 2 ^ 103" by (simp add: p(1) field_simps)
    finally show ?thesis unfolding fin .
  next
    case 3
    then have "pow2 128 < pow2 (ilog2 x + 1)" using lb by linarith
    then have l: "127 < ilog2 x" by (simp add: pow2_strict_mono)
    then have e: "e = ilog2 x - 23" by (simp add: e_def)
    have "pow2 23 \<le> x / pow2 e" using lb(1) by (simp add: e pow2_diff field_simps)
    then have "of_int (2 ^ 23) \<le> x / pow2 e" by (simp add: pow2_def)
    from round_half_even_mono [OF this] have "2 ^ 23 \<le> r" by (simp only: r_def round_half_even_int)
    then have "of_int (2 ^ 23) * pow2 e \<le> of_int r * pow2 e" by (intro mult_right_mono) (simp_all del: of_int_power add: less_imp_le)
    moreover have "of_int (2 ^ 23) * pow2 e = pow2 (ilog2 x)" by (simp add: e pow2_diff pow2_def [of 23])
    moreover have "pow2 128 \<le> pow2 (ilog2 x)" using l by (intro pow2_mono) simp
    moreover have "(2::rat) ^ 128 - 2 ^ 103 < pow2 128" by (simp add: pow2_def)
    ultimately show ?thesis using 3 unfolding fin by linarith
  qed
qed

end
