(* ===== verification/Externals.thy ===== *)
theory Externals
  imports Floating
begin

text \<open>
  The third-party text libraries the code calls: Boost.Regex, Boost.Spirit (classic),
  Boost.String and \<open>boost::lexical_cast\<close>. Their code is not in the repository, so the
  development takes them as one parameter, a record \<open>'a boost\<close>, which the definitions that
  call them receive as their first argument. The patterns and grammars that the code hands to
  them are data: \<open>rx\<close> for a regular expression, \<open>'a sp\<close> for a Spirit grammar.

  \<open>documented E\<close> is the hypothesis on the parameter: each library function is the documented
  one. A regular expression is matched in Perl order (the first alternative, the longest greedy
  and the shortest lazy repetition that lets the rest match), a grammar is parsed top-down
  without backtracking into a success, skipping white space before each primitive parser, and
  the semantic actions run as the parse proceeds, also those of a branch that fails later.
  \<open>boost_ref\<close> is the concrete instance.
\<close>

section \<open>Regular expressions\<close>

datatype cc = CDigit | CWord | CSpace | CDot | CChar char | CSet "(char \<times> char) list"

datatype rx =
    Eps
  | C cc
  | Cat rx rx
  | Alt rx rx
  | Opt rx
  | Star rx
  | Plus rx
  | LazyStar rx
  | Rep nat rx
  | Grp nat rx

fun cc_match :: "bool \<Rightarrow> cc \<Rightarrow> char \<Rightarrow> bool" where
  "cc_match ic CDigit x = isdigit x"
| "cc_match ic CWord x = isword x"
| "cc_match ic CSpace x = isspace x"
| "cc_match ic CDot x = True"
| "cc_match ic (CChar c) x = (if ic then tolower c = tolower x else c = x)"
| "cc_match ic (CSet rs) x = list_ex (\<lambda>(a, b). list_ex (\<lambda>y. code a \<le> code y \<and> code y \<le> code b)
     (if ic then [x, tolower x, toupper x] else [x])) rs"

type_synonym caps = "(nat \<times> string) list"

text \<open>All the ways to match a prefix, in Perl order: the captures so far and what is left.\<close>

fun rx_loop :: "bool \<Rightarrow> nat \<Rightarrow> (caps \<Rightarrow> string \<Rightarrow> (caps \<times> string) list) \<Rightarrow> caps \<Rightarrow> string \<Rightarrow>
    (caps \<times> string) list" where
  "rx_loop greedy 0 f c s = [(c, s)]"
| "rx_loop greedy (Suc n) f c s =
     (let more = concat (map (\<lambda>(c', s'). if length s' < length s then rx_loop greedy n f c' s' else [])
        (f c s))
      in if greedy then more @ [(c, s)] else (c, s) # more)"

fun rx_rep :: "nat \<Rightarrow> (caps \<Rightarrow> string \<Rightarrow> (caps \<times> string) list) \<Rightarrow> caps \<Rightarrow> string \<Rightarrow>
    (caps \<times> string) list" where
  "rx_rep 0 f c s = [(c, s)]"
| "rx_rep (Suc n) f c s = concat (map (\<lambda>(c', s'). rx_rep n f c' s') (f c s))"

primrec rx_run :: "bool \<Rightarrow> rx \<Rightarrow> caps \<Rightarrow> string \<Rightarrow> (caps \<times> string) list" where
  "rx_run ic Eps = (\<lambda>c s. [(c, s)])"
| "rx_run ic (C k) = (\<lambda>c s. case s of x # s' \<Rightarrow> (if cc_match ic k x then [(c, s')] else []) | [] \<Rightarrow> [])"
| "rx_run ic (Cat p q) = (\<lambda>c s. concat (map (\<lambda>(c', s'). rx_run ic q c' s') (rx_run ic p c s)))"
| "rx_run ic (Alt p q) = (\<lambda>c s. rx_run ic p c s @ rx_run ic q c s)"
| "rx_run ic (Opt p) = (\<lambda>c s. rx_run ic p c s @ [(c, s)])"
| "rx_run ic (Star p) = (\<lambda>c s. rx_loop True (length s) (rx_run ic p) c s)"
| "rx_run ic (Plus p) = (\<lambda>c s. concat (map (\<lambda>(c', s'). rx_loop True (length s') (rx_run ic p) c' s')
     (rx_run ic p c s)))"
| "rx_run ic (LazyStar p) = (\<lambda>c s. rx_loop False (length s) (rx_run ic p) c s)"
| "rx_run ic (Rep n p) = (\<lambda>c s. rx_rep n (rx_run ic p) c s)"
| "rx_run ic (Grp i p) = (\<lambda>c s. map (\<lambda>(c', s'). ((i, take (length s - length s') s) # c', s'))
     (rx_run ic p c s))"

text \<open>\<open>regex_match\<close>: the whole subject; an unmatched group reads as the empty string.\<close>

definition rx_match :: "bool \<Rightarrow> rx \<Rightarrow> string \<Rightarrow> (nat \<Rightarrow> string) option" where
  "rx_match ic r s = (case filter (\<lambda>(c, s'). s' = []) (rx_run ic r [] s) of
     (c, _) # _ \<Rightarrow> Some (\<lambda>i. case map_of c i of Some t \<Rightarrow> t | None \<Rightarrow> [])
   | [] \<Rightarrow> None)"

text \<open>\<open>regex_replace\<close> with a fixed text: every leftmost non-empty match, left to right.\<close>

fun rx_replace :: "nat \<Rightarrow> rx \<Rightarrow> string \<Rightarrow> string \<Rightarrow> string" where
  "rx_replace 0 r new s = s"
| "rx_replace (Suc n) r new [] = []"
| "rx_replace (Suc n) r new (x # s) =
     (case filter (\<lambda>(c, s'). length s' \<le> length s) (rx_run False r [] (x # s)) of
        (c, s') # _ \<Rightarrow> new @ rx_replace n r new s'
      | [] \<Rightarrow> x # rx_replace n r new s)"

definition rx_replace_all :: "rx \<Rightarrow> string \<Rightarrow> string \<Rightarrow> string" where
  "rx_replace_all r new s = rx_replace (length s) r new s"

text \<open>A word of literal characters, as a pattern.\<close>

fun rx_word :: "string \<Rightarrow> rx" where
  "rx_word [] = Eps"
| "rx_word [c] = C (CChar c)"
| "rx_word (c # d # cs) = Cat (C (CChar c)) (rx_word (d # cs))"

section \<open>Spirit grammars\<close>

text \<open>\<open>SAct a p\<close> is \<open>p[a]\<close>: when \<open>p\<close> matches, action \<open>a\<close> runs with the matched text and
  the attribute (the number that an \<open>int_p\<close> read, 0 otherwise).\<close>

datatype 'a sp =
    SStr string
  | SCh char
  | SAny
  | SLower
  | SInt
  | SReal
  | SSeq "'a sp" "'a sp"
  | SAlt "'a sp" "'a sp"
  | SOpt "'a sp"
  | SStar "'a sp"
  | SPlus "'a sp"
  | SDiff "'a sp" "'a sp"
  | SNoCase "'a sp"
  | SAct 'a "'a sp"

text \<open>A success carries what is left, how many characters were matched (skipped ones not
  counted) and the attribute.\<close>

type_synonym 'a event = "'a \<times> string \<times> int"
type_synonym 'a sp_result = "(string \<times> nat \<times> int) option \<times> 'a event list"

abbreviation skip_space :: "string \<Rightarrow> string" where
  "skip_space s \<equiv> dropWhile isspace s"

definition sp_prefix :: "bool \<Rightarrow> string \<Rightarrow> string \<Rightarrow> (string \<times> nat \<times> int) option" where
  "sp_prefix nc w s = (let s' = skip_space s; k = length w;
       h = (if nc then lowercase (take k s') else take k s')
     in if h = w then Some (drop k s', k, 0) else None)"

definition sp_char :: "bool \<Rightarrow> (char \<Rightarrow> bool) \<Rightarrow> string \<Rightarrow> (string \<times> nat \<times> int) option" where
  "sp_char nc P s = (case skip_space s of
     c # s' \<Rightarrow> (if P (if nc then tolower c else c) then Some (s', 1, 0) else None)
   | [] \<Rightarrow> None)"

text \<open>\<open>int_p\<close>: an optional sign and at least one digit; a number that does not fit an \<open>int\<close>
  is no match.\<close>

definition sp_int :: "string \<Rightarrow> (string \<times> nat \<times> int) option" where
  "sp_int s = (let s' = skip_space s; (neg, s1) = read_sign s';
       d = takeWhile isdigit s1; v = (if neg then - read_base 10 d else read_base 10 d)
     in if d \<noteq> [] \<and> int_range v
        then Some (drop (length d) s1, length s' - length s1 + length d, v) else None)"

text \<open>\<open>real_p\<close>: sign, digits with an optional dot (at least one digit), exponent.\<close>

definition sp_exponent :: "nat \<Rightarrow> string \<Rightarrow> (string \<times> nat \<times> int) option" where
  "sp_exponent n s = (if s \<noteq> [] \<and> tolower (hd s) = CHR ''e'' then
     (let (neg, s1) = read_sign (tl s); e = takeWhile isdigit s1; s2 = drop (length e) s1
      in if e = [] then None else Some (s2, n - length s2, 0))
     else Some (s, n - length s, 0))"

definition sp_real :: "string \<Rightarrow> (string \<times> nat \<times> int) option" where
  "sp_real s = (let s' = skip_space s; (neg, s1) = read_sign s';
       i = takeWhile isdigit s1; s2 = drop (length i) s1;
       dot = (s2 \<noteq> [] \<and> hd s2 = CHR ''.'');
       f = (if dot then takeWhile isdigit (tl s2) else []);
       s3 = (if dot then drop (length f) (tl s2) else s2)
     in if i = [] \<and> f = [] then None else sp_exponent (length s') s3)"

fun sp_loop :: "nat \<Rightarrow> (string \<Rightarrow> 'a sp_result) \<Rightarrow> string \<Rightarrow> nat \<Rightarrow> 'a sp_result" where
  "sp_loop 0 f s n = (Some (s, n, 0), [])"
| "sp_loop (Suc k) f s n = (case f s of
     (Some (s', m, _), ev) \<Rightarrow>
       (if length s' < length s then (let (r, ev') = sp_loop k f s' (n + m) in (r, ev @ ev'))
        else (Some (s', n + m, 0), ev))
   | (None, ev) \<Rightarrow> (Some (s, n, 0), ev))"

primrec sp_run :: "'a sp \<Rightarrow> bool \<Rightarrow> string \<Rightarrow> 'a sp_result" where
  "sp_run (SStr w) = (\<lambda>nc s. (sp_prefix nc w s, []))"
| "sp_run (SCh c) = (\<lambda>nc s. (sp_char nc (\<lambda>x. x = c) s, []))"
| "sp_run SAny = (\<lambda>nc s. (sp_char nc (\<lambda>x. True) s, []))"
| "sp_run SLower = (\<lambda>nc s. (sp_char nc islower s, []))"
| "sp_run SInt = (\<lambda>nc s. (sp_int s, []))"
| "sp_run SReal = (\<lambda>nc s. (sp_real s, []))"
| "sp_run (SSeq p q) = (\<lambda>nc s. case sp_run p nc s of
     (None, ev) \<Rightarrow> (None, ev)
   | (Some (s', m, _), ev) \<Rightarrow> (case sp_run q nc s' of
       (None, ev') \<Rightarrow> (None, ev @ ev')
     | (Some (s'', m', _), ev') \<Rightarrow> (Some (s'', m + m', 0), ev @ ev')))"
| "sp_run (SAlt p q) = (\<lambda>nc s. case sp_run p nc s of
     (Some r, ev) \<Rightarrow> (Some r, ev)
   | (None, ev) \<Rightarrow> (let (r, ev') = sp_run q nc s in (r, ev @ ev')))"
| "sp_run (SOpt p) = (\<lambda>nc s. case sp_run p nc s of
     (Some r, ev) \<Rightarrow> (Some r, ev)
   | (None, ev) \<Rightarrow> (Some (s, 0, 0), ev))"
| "sp_run (SStar p) = (\<lambda>nc s. sp_loop (length s) (sp_run p nc) s 0)"
| "sp_run (SPlus p) = (\<lambda>nc s. case sp_run p nc s of
     (None, ev) \<Rightarrow> (None, ev)
   | (Some (s', m, _), ev) \<Rightarrow> (let (r, ev') = sp_loop (length s') (sp_run p nc) s' m in (r, ev @ ev')))"
| "sp_run (SDiff p q) = (\<lambda>nc s. case sp_run p nc s of
     (None, ev) \<Rightarrow> (None, ev)
   | (Some (s', m, v), ev) \<Rightarrow> (case sp_run q nc s of
       (None, ev') \<Rightarrow> (Some (s', m, v), ev @ ev')
     | (Some (_, m', _), ev') \<Rightarrow> (if m' < m then Some (s', m, v) else None, ev @ ev')))"
| "sp_run (SNoCase p) = (\<lambda>nc s. sp_run p True s)"
| "sp_run (SAct a p) = (\<lambda>nc s. let s0 = skip_space s in case sp_run p nc s0 of
     (None, ev) \<Rightarrow> (None, ev)
   | (Some (s', m, v), ev) \<Rightarrow> (Some (s', m, v), ev @ [(a, take (length s0 - length s') s0, v)]))"

text \<open>\<open>parse(s, p, space_p)\<close>: whether the whole subject was matched, and the actions run.\<close>

definition sp_parse :: "'a sp \<Rightarrow> string \<Rightarrow> bool \<times> 'a event list" where
  "sp_parse p s = (case sp_run p False s of
     (Some (s', _, _), ev) \<Rightarrow> (skip_space s' = [], ev)
   | (None, ev) \<Rightarrow> (False, ev))"

section \<open>The libraries as a parameter\<close>

text \<open>\<open>boost::split\<close> with \<open>token_compress_off\<close>: a token between any two separators.\<close>

fun split_at :: "(char \<Rightarrow> bool) \<Rightarrow> string \<Rightarrow> string list" where
  "split_at P [] = [[]]"
| "split_at P (c # s) = (if P c then [] # split_at P s
     else (case split_at P s of t # ts \<Rightarrow> (c # t) # ts | [] \<Rightarrow> [[c]]))"

definition trim_space :: "string \<Rightarrow> string" where
  "trim_space s = rev (dropWhile isspace (rev (dropWhile isspace s)))"

text \<open>\<open>boost::replace_all\<close>: every occurrence of a non-empty text, left to right.\<close>

fun replace_fuel :: "nat \<Rightarrow> string \<Rightarrow> string \<Rightarrow> string \<Rightarrow> string" where
  "replace_fuel 0 old new s = s"
| "replace_fuel (Suc n) old new [] = []"
| "replace_fuel (Suc n) old new (c # s) = (if old \<noteq> [] \<and> take (length old) (c # s) = old
     then new @ replace_fuel n old new (drop (length old) (c # s))
     else c # replace_fuel n old new s)"

definition replace_text :: "string \<Rightarrow> string \<Rightarrow> string \<Rightarrow> string" where
  "replace_text old new s = replace_fuel (length s) old new s"

record 'a boost =
  regex_match :: "bool \<Rightarrow> rx \<Rightarrow> string \<Rightarrow> (nat \<Rightarrow> string) option"
  regex_replace :: "rx \<Rightarrow> string \<Rightarrow> string \<Rightarrow> string"
  spirit_parse :: "'a sp \<Rightarrow> string \<Rightarrow> bool \<times> 'a event list"
  to_lower :: "string \<Rightarrow> string"
  trim :: "string \<Rightarrow> string"
  split :: "(char \<Rightarrow> bool) \<Rightarrow> string \<Rightarrow> string list"
  replace_all :: "string \<Rightarrow> string \<Rightarrow> string \<Rightarrow> string"
  lexical_float :: "string \<Rightarrow> fp option"

definition boost_ref :: "'a boost" where
  "boost_ref = \<lparr>regex_match = rx_match, regex_replace = rx_replace_all, spirit_parse = sp_parse,
     to_lower = map tolower, trim = trim_space, split = split_at, replace_all = replace_text,
     lexical_float = lexical_fp binary32\<rparr>"

definition documented :: "'a boost \<Rightarrow> bool" where
  "documented E \<longleftrightarrow> E = boost_ref"

lemma documented_simps [simp]:
  assumes "documented E"
  shows "regex_match E = rx_match" "regex_replace E = rx_replace_all" "spirit_parse E = sp_parse"
    "to_lower E = map tolower" "trim E = trim_space" "split E = split_at" "replace_all E = replace_text"
    "lexical_float E = lexical_fp binary32"
  using assms by (simp_all add: documented_def boost_ref_def)

lemma replace_char:
  "replace_text [c] new s = concat (map (\<lambda>x. if x = c then new else [x]) s)"
proof -
  have "length s \<le> n \<Longrightarrow> replace_fuel n [c] new s = concat (map (\<lambda>x. if x = c then new else [x]) s)" for n
    by (induction n "[c]" new s rule: replace_fuel.induct) auto
  then show ?thesis by (simp add: replace_text_def)
qed

lemma documented_ref [simp]: "documented boost_ref"
  by (simp add: documented_def)

section \<open>The language of a pattern\<close>

primrec rx_lang :: "bool \<Rightarrow> rx \<Rightarrow> string set" where
  "rx_lang ic Eps = {[]}"
| "rx_lang ic (C k) = {[x] |x. cc_match ic k x}"
| "rx_lang ic (Cat p q) = {s @ t |s t. s \<in> rx_lang ic p \<and> t \<in> rx_lang ic q}"
| "rx_lang ic (Alt p q) = rx_lang ic p \<union> rx_lang ic q"
| "rx_lang ic (Opt p) = insert [] (rx_lang ic p)"
| "rx_lang ic (Star p) = {concat ws |ws. set ws \<subseteq> rx_lang ic p}"
| "rx_lang ic (Plus p) = {s @ concat ws |s ws. s \<in> rx_lang ic p \<and> set ws \<subseteq> rx_lang ic p}"
| "rx_lang ic (LazyStar p) = {concat ws |ws. set ws \<subseteq> rx_lang ic p}"
| "rx_lang ic (Rep n p) = {concat ws |ws. length ws = n \<and> set ws \<subseteq> rx_lang ic p}"
| "rx_lang ic (Grp i p) = rx_lang ic p"

text \<open>What each group can have captured.\<close>

primrec rx_groups :: "rx \<Rightarrow> (nat \<times> rx) set" where
  "rx_groups Eps = {}"
| "rx_groups (C k) = {}"
| "rx_groups (Cat p q) = rx_groups p \<union> rx_groups q"
| "rx_groups (Alt p q) = rx_groups p \<union> rx_groups q"
| "rx_groups (Opt p) = rx_groups p"
| "rx_groups (Star p) = rx_groups p"
| "rx_groups (Plus p) = rx_groups p"
| "rx_groups (LazyStar p) = rx_groups p"
| "rx_groups (Rep n p) = rx_groups p"
| "rx_groups (Grp i p) = insert (i, p) (rx_groups p)"

definition caps_from :: "bool \<Rightarrow> (nat \<times> rx) set \<Rightarrow> caps \<Rightarrow> caps \<Rightarrow> bool" where
  "caps_from ic G c c' \<longleftrightarrow> (\<forall>(i, t) \<in> set c'. (i, t) \<in> set c \<or> (\<exists>p. (i, p) \<in> G \<and> t \<in> rx_lang ic p))"

lemma caps_from_refl [simp]: "caps_from ic G c c"
  by (auto simp: caps_from_def)

lemma caps_from_trans: "caps_from ic G c c' \<Longrightarrow> caps_from ic G c' c'' \<Longrightarrow> caps_from ic G c c''"
  unfolding caps_from_def by blast

lemma caps_from_mono: "caps_from ic G c c' \<Longrightarrow> G \<subseteq> H \<Longrightarrow> caps_from ic H c c'"
  unfolding caps_from_def by blast

text \<open>A step \<open>f\<close> that consumes a word of \<open>L\<close> and captures from \<open>G\<close>.\<close>

definition consumes :: "bool \<Rightarrow> string set \<Rightarrow> (nat \<times> rx) set \<Rightarrow>
    (caps \<Rightarrow> string \<Rightarrow> (caps \<times> string) list) \<Rightarrow> bool" where
  "consumes ic L G f \<longleftrightarrow> (\<forall>c s c' s'. (c', s') \<in> set (f c s) \<longrightarrow>
     (\<exists>t \<in> L. s = t @ s') \<and> caps_from ic G c c')"

lemma consumesD:
  "consumes ic L G f \<Longrightarrow> (c', s') \<in> set (f c s) \<Longrightarrow> \<exists>t \<in> L. s = t @ s'"
  "consumes ic L G f \<Longrightarrow> (c', s') \<in> set (f c s) \<Longrightarrow> caps_from ic G c c'"
  by (auto simp: consumes_def)

lemma rx_loop_sound:
  assumes f: "consumes ic L G f"
  shows "(c', s') \<in> set (rx_loop g n f c s) \<Longrightarrow>
    (\<exists>ws. set ws \<subseteq> L \<and> s = concat ws @ s') \<and> caps_from ic G c c'"
proof (induction n arbitrary: c s)
  case 0
  then show ?case by (auto intro: exI [of _ "[]"])
next
  case (Suc n)
  from Suc.prems consider "c' = c" "s' = s"
    | c1 s1 where "(c1, s1) \<in> set (f c s)" "(c', s') \<in> set (rx_loop g n f c1 s1)"
    by (auto simp: Let_def split: if_splits)
  then show ?case
  proof cases
    case 1
    then show ?thesis by (auto intro: exI [of _ "[]"])
  next
    case 2
    from consumesD [OF f 2(1)] obtain t where t: "t \<in> L" "s = t @ s1" and c: "caps_from ic G c c1"
      by blast
    from Suc.IH [OF 2(2)] obtain ws where "set ws \<subseteq> L" "s1 = concat ws @ s'" "caps_from ic G c1 c'"
      by blast
    with t c show ?thesis
      by (auto intro!: exI [of _ "t # ws"] intro: caps_from_trans)
  qed
qed

lemma rx_rep_sound:
  assumes f: "consumes ic L G f"
  shows "(c', s') \<in> set (rx_rep n f c s) \<Longrightarrow>
    (\<exists>ws. length ws = n \<and> set ws \<subseteq> L \<and> s = concat ws @ s') \<and> caps_from ic G c c'"
proof (induction n arbitrary: c s)
  case (Suc n)
  then obtain c1 s1 where 1: "(c1, s1) \<in> set (f c s)" "(c', s') \<in> set (rx_rep n f c1 s1)" by auto
  from consumesD [OF f 1(1)] obtain t where t: "t \<in> L" "s = t @ s1" and c: "caps_from ic G c c1"
    by blast
  from Suc.IH [OF 1(2)] obtain ws where "length ws = n" "set ws \<subseteq> L" "s1 = concat ws @ s'"
      "caps_from ic G c1 c'"
    by blast
  with t c show ?case
    by (auto intro!: exI [of _ "t # ws"] intro: caps_from_trans)
qed auto

theorem rx_run_sound: "consumes ic (rx_lang ic r) (rx_groups r) (rx_run ic r)"
proof (induction r)
  case (C k)
  then show ?case by (auto simp: consumes_def split: list.splits if_splits)
next
  case (Cat p q)
  show ?case
    unfolding consumes_def
  proof (intro allI impI)
    fix c s c' s' assume "(c', s') \<in> set (rx_run ic (Cat p q) c s)"
    then obtain c1 s1 where 1: "(c1, s1) \<in> set (rx_run ic p c s)"
      and 2: "(c', s') \<in> set (rx_run ic q c1 s1)" by auto
    from consumesD(1) [OF Cat.IH(1) 1] consumesD(1) [OF Cat.IH(2) 2]
    obtain t u where "t \<in> rx_lang ic p" "u \<in> rx_lang ic q" "s = (t @ u) @ s'" by auto
    moreover from this have "t @ u \<in> rx_lang ic (Cat p q)" by auto
    moreover have "caps_from ic (rx_groups (Cat p q)) c c'"
      using consumesD(2) [OF Cat.IH(1) 1] consumesD(2) [OF Cat.IH(2) 2]
      by (auto intro: caps_from_trans caps_from_mono)
    ultimately show "(\<exists>t\<in>rx_lang ic (Cat p q). s = t @ s') \<and> caps_from ic (rx_groups (Cat p q)) c c'"
      by blast
  qed
next
  case (Alt p q)
  show ?case
    unfolding consumes_def
  proof (intro allI impI)
    fix c s c' s' assume "(c', s') \<in> set (rx_run ic (Alt p q) c s)"
    then consider "(c', s') \<in> set (rx_run ic p c s)" | "(c', s') \<in> set (rx_run ic q c s)" by auto
    then show "(\<exists>t\<in>rx_lang ic (Alt p q). s = t @ s') \<and> caps_from ic (rx_groups (Alt p q)) c c'"
      using consumesD [OF Alt.IH(1), of c' s' c s] consumesD [OF Alt.IH(2), of c' s' c s]
      by cases (auto intro: caps_from_mono)
  qed
next
  case (Opt p)
  then show ?case by (auto simp: consumes_def)
next
  case (Star p)
  show ?case
    unfolding consumes_def using rx_loop_sound [OF Star.IH] by fastforce
next
  case (Plus p)
  show ?case
    unfolding consumes_def
  proof (intro allI impI)
    fix c s c' s' assume "(c', s') \<in> set (rx_run ic (Plus p) c s)"
    then obtain c1 s1 where 1: "(c1, s1) \<in> set (rx_run ic p c s)"
      and 2: "(c', s') \<in> set (rx_loop True (length s1) (rx_run ic p) c1 s1)" by auto
    from consumesD [OF Plus.IH 1] rx_loop_sound [OF Plus.IH 2]
    show "(\<exists>t\<in>rx_lang ic (Plus p). s = t @ s') \<and> caps_from ic (rx_groups (Plus p)) c c'"
      by (fastforce intro: caps_from_trans)
  qed
next
  case (LazyStar p)
  show ?case
    unfolding consumes_def using rx_loop_sound [OF LazyStar.IH] by fastforce
next
  case (Rep n p)
  show ?case
    unfolding consumes_def using rx_rep_sound [OF Rep.IH] by fastforce
next
  case (Grp i p)
  show ?case
    unfolding consumes_def
  proof (intro allI impI)
    fix c s c' s' assume "(c', s') \<in> set (rx_run ic (Grp i p) c s)"
    then obtain c1 where 1: "(c1, s') \<in> set (rx_run ic p c s)"
      and c': "c' = (i, take (length s - length s') s) # c1" by auto
    from consumesD [OF Grp.IH 1] obtain t where "t \<in> rx_lang ic p" "s = t @ s'"
      "caps_from ic (rx_groups p) c c1" by blast
    with c' show "(\<exists>t\<in>rx_lang ic (Grp i p). s = t @ s') \<and> caps_from ic (rx_groups (Grp i p)) c c'"
      by (auto simp: caps_from_def)
  qed
qed (auto simp: consumes_def)

text \<open>Every word of the language is found.\<close>

definition finds :: "string set \<Rightarrow> (caps \<Rightarrow> string \<Rightarrow> (caps \<times> string) list) \<Rightarrow> bool" where
  "finds L f \<longleftrightarrow> (\<forall>t \<in> L. \<forall>c s'. \<exists>c'. (c', s') \<in> set (f c (t @ s')))"

lemma findsD: "finds L f \<Longrightarrow> t \<in> L \<Longrightarrow> \<exists>c'. (c', s') \<in> set (f c (t @ s'))"
  by (auto simp: finds_def)

lemma rx_loop_complete:
  assumes f: "finds L f"
  shows "set ws \<subseteq> L \<Longrightarrow> length (concat ws) \<le> n \<Longrightarrow>
    \<exists>c'. (c', s') \<in> set (rx_loop g n f c (concat ws @ s'))"
proof (induction ws arbitrary: c n)
  case Nil
  have "(c, s') \<in> set (rx_loop g n f c s')"
    by (cases n) (auto simp: Let_def)
  then show ?case by auto
next
  case (Cons w ws)
  show ?case
  proof (cases "w = []")
    case True
    with Cons show ?thesis by simp
  next
    case False
    with Cons.prems obtain k where n: "n = Suc k" and k: "length (concat ws) \<le> k"
      by (cases n) (auto simp: neq_Nil_conv)
    from findsD [OF f, of w "concat ws @ s'" c] Cons.prems obtain c1
      where 1: "(c1, concat ws @ s') \<in> set (f c (w @ concat ws @ s'))" by auto
    from Cons.IH [of k c1] Cons.prems k obtain c'
      where 2: "(c', s') \<in> set (rx_loop g k f c1 (concat ws @ s'))" by auto
    from 1 2 False have "(c', s') \<in> set (rx_loop g n f c (concat (w # ws) @ s'))"
      by (auto simp: n Let_def split: if_splits intro!: bexI)
    then show ?thesis by blast
  qed
qed

lemma rx_rep_complete:
  assumes f: "finds L f"
  shows "set ws \<subseteq> L \<Longrightarrow> \<exists>c'. (c', s') \<in> set (rx_rep (length ws) f c (concat ws @ s'))"
proof (induction ws arbitrary: c)
  case (Cons w ws)
  from findsD [OF f, of w "concat ws @ s'" c] Cons.prems obtain c1
    where 1: "(c1, concat ws @ s') \<in> set (f c (w @ concat ws @ s'))" by auto
  from Cons.IH [of c1] Cons.prems obtain c'
    where "(c', s') \<in> set (rx_rep (length ws) f c1 (concat ws @ s'))" by auto
  with 1 show ?case by (auto intro!: bexI)
qed auto

theorem rx_run_complete: "finds (rx_lang ic r) (rx_run ic r)"
proof (induction r)
  case (Cat p q)
  show ?case
    unfolding finds_def
  proof (intro ballI allI)
    fix t c s' assume "t \<in> rx_lang ic (Cat p q)"
    then obtain u v where t: "t = u @ v" "u \<in> rx_lang ic p" "v \<in> rx_lang ic q" by auto
    from findsD [OF Cat.IH(1) t(2), of "v @ s'" c] obtain c1
      where 1: "(c1, v @ s') \<in> set (rx_run ic p c (u @ v @ s'))" by auto
    from findsD [OF Cat.IH(2) t(3), of s' c1] obtain c'
      where "(c', s') \<in> set (rx_run ic q c1 (v @ s'))" by auto
    with 1 have "(c', s') \<in> set (rx_run ic (Cat p q) c (t @ s'))"
      by (auto simp: t(1) intro!: bexI)
    then show "\<exists>c'. (c', s') \<in> set (rx_run ic (Cat p q) c (t @ s'))" by blast
  qed
next
  case (Star p)
  show ?case
    unfolding finds_def using rx_loop_complete [OF Star.IH] by fastforce
next
  case (LazyStar p)
  show ?case
    unfolding finds_def using rx_loop_complete [OF LazyStar.IH] by fastforce
next
  case (Plus p)
  show ?case
    unfolding finds_def
  proof (intro ballI allI)
    fix t c s' assume "t \<in> rx_lang ic (Plus p)"
    then obtain u ws where t: "t = u @ concat ws" "u \<in> rx_lang ic p" "set ws \<subseteq> rx_lang ic p" by auto
    from findsD [OF Plus.IH t(2), of "concat ws @ s'" c] obtain c1
      where 1: "(c1, concat ws @ s') \<in> set (rx_run ic p c (u @ concat ws @ s'))" by auto
    from rx_loop_complete [OF Plus.IH t(3), of "length (concat ws @ s')" s' True c1] obtain c'
      where "(c', s') \<in> set (rx_loop True (length (concat ws @ s')) (rx_run ic p) c1 (concat ws @ s'))"
      by auto
    with 1 have "(c', s') \<in> set (rx_run ic (Plus p) c (t @ s'))"
      by (auto simp: t(1) intro!: bexI)
    then show "\<exists>c'. (c', s') \<in> set (rx_run ic (Plus p) c (t @ s'))" by blast
  qed
next
  case (Rep n p)
  show ?case
    unfolding finds_def using rx_rep_complete [OF Rep.IH] by fastforce
next
  case (Grp i p)
  show ?case
    unfolding finds_def
  proof (intro ballI allI)
    fix t c s' assume "t \<in> rx_lang ic (Grp i p)"
    then have "t \<in> rx_lang ic p" by simp
    from findsD [OF Grp.IH this, of s' c] obtain c'
      where 1: "(c', s') \<in> set (rx_run ic p c (t @ s'))" ..
    show "\<exists>c'. (c', s') \<in> set (rx_run ic (Grp i p) c (t @ s'))"
      by (rule exI [of _ "(i, t) # c'"]) (use 1 in \<open>force simp: image_iff\<close>)
  qed
next
  case (Alt p q)
  then show ?case by (fastforce simp: finds_def)
next
  case (Opt p)
  then show ?case by (fastforce simp: finds_def)
qed (auto simp: finds_def)

lemma filter_eq_ConsD: "filter P xs = y # ys \<Longrightarrow> y \<in> set xs \<and> P y"
  by (metis list.set_intros(1) mem_Collect_eq set_filter)

lemma rx_match_SomeD:
  assumes "rx_match ic r s = Some m"
  obtains c where "(c, []) \<in> set (rx_run ic r [] s)"
    and "m = (\<lambda>i. case map_of c i of Some t \<Rightarrow> t | None \<Rightarrow> [])"
  using assms by (auto simp: rx_match_def split: list.splits dest!: filter_eq_ConsD)

theorem rx_match_iff: "rx_match ic r s \<noteq> None \<longleftrightarrow> s \<in> rx_lang ic r"
proof
  assume "rx_match ic r s \<noteq> None"
  then obtain c where "(c, []) \<in> set (rx_run ic r [] s)"
    by (auto elim: rx_match_SomeD)
  from consumesD(1) [OF rx_run_sound this] show "s \<in> rx_lang ic r" by simp
next
  assume "s \<in> rx_lang ic r"
  from findsD [OF rx_run_complete this, of "[]" "[]"] obtain c where "(c, []) \<in> set (rx_run ic r [] s)"
    by auto
  then have "filter (\<lambda>(c, s'). s' = []) (rx_run ic r [] s) \<noteq> []"
    by (auto simp: filter_empty_conv intro!: bexI)
  then show "rx_match ic r s \<noteq> None"
    by (auto simp: rx_match_def split: list.splits)
qed

theorem rx_match_group:
  assumes "rx_match ic r s = Some m" and "m i \<noteq> []"
  shows "\<exists>p. (i, p) \<in> rx_groups r \<and> m i \<in> rx_lang ic p"
proof -
  from assms(1) obtain c where 1: "(c, []) \<in> set (rx_run ic r [] s)"
    and m: "m = (\<lambda>i. case map_of c i of Some t \<Rightarrow> t | None \<Rightarrow> [])"
    by (rule rx_match_SomeD)
  from consumesD(2) [OF rx_run_sound 1] have c: "caps_from ic (rx_groups r) [] c" .
  from assms(2) m obtain t where t: "map_of c i = Some t" and "m i = t"
    by (auto split: option.splits)
  then show ?thesis
    using c map_of_SomeD [OF t] by (auto simp: caps_from_def)
qed

section \<open>Writing patterns\<close>

fun rx_seq :: "rx list \<Rightarrow> rx" where
  "rx_seq [] = Eps"
| "rx_seq [r] = r"
| "rx_seq (r # q # rs) = Cat r (rx_seq (q # rs))"

fun rx_alts :: "rx list \<Rightarrow> rx" where
  "rx_alts [] = Eps"
| "rx_alts [r] = r"
| "rx_alts (r # q # rs) = Alt r (rx_alts (q # rs))"

text \<open>The text of a pattern, as the source spells it.\<close>

fun cc_text :: "cc \<Rightarrow> string" where
  "cc_text CDigit = [CHR 0x5C, CHR ''d'']"
| "cc_text CWord = [CHR 0x5C, CHR ''w'']"
| "cc_text CSpace = [CHR 0x5C, CHR ''s'']"
| "cc_text CDot = ''.''"
| "cc_text (CChar c) = (if c = CHR ''.'' then [CHR 0x5C, c] else [c])"
| "cc_text (CSet rs) = ''['' @ concat (map (\<lambda>(a, b). if a = b then [a] else [a, CHR ''-'', b]) rs) @ '']''"

primrec rx_text :: "rx \<Rightarrow> string" where
  "rx_text Eps = []"
| "rx_text (C k) = cc_text k"
| "rx_text (Cat p q) = rx_text p @ rx_text q"
| "rx_text (Alt p q) = rx_text p @ ''|'' @ rx_text q"
| "rx_text (Opt p) = rx_text p @ ''?''"
| "rx_text (Star p) = rx_text p @ ''*''"
| "rx_text (Plus p) = rx_text p @ ''+''"
| "rx_text (LazyStar p) = rx_text p @ ''*?''"
| "rx_text (Rep n p) = rx_text p @ ''{'' @ show_nat n @ ''}''"
| "rx_text (Grp i p) = ''('' @ rx_text p @ '')''"

text \<open>The numbers of the groups, in the order of their opening parentheses.\<close>

primrec rx_numbers :: "rx \<Rightarrow> nat list" where
  "rx_numbers Eps = []"
| "rx_numbers (C k) = []"
| "rx_numbers (Cat p q) = rx_numbers p @ rx_numbers q"
| "rx_numbers (Alt p q) = rx_numbers p @ rx_numbers q"
| "rx_numbers (Opt p) = rx_numbers p"
| "rx_numbers (Star p) = rx_numbers p"
| "rx_numbers (Plus p) = rx_numbers p"
| "rx_numbers (LazyStar p) = rx_numbers p"
| "rx_numbers (Rep n p) = rx_numbers p"
| "rx_numbers (Grp i p) = i # rx_numbers p"

section \<open>Lemmas on the patterns of the code\<close>

lemma rx_lang_word: "rx_lang False (rx_word w) = {w}"
  by (induction w rule: rx_word.induct) auto

lemma cat_single: "{s @ t |s t. s \<in> {[x] |x. P x} \<and> t \<in> T} = {x # t |x t. P x \<and> t \<in> T}"
proof -
  have "x # t \<in> {s @ t |s t. s \<in> {[x] |x. P x} \<and> t \<in> T}" if "P x" "t \<in> T" for x t
    using that by (intro CollectI exI [of _ "[x]"] exI [of _ t]) auto
  then show ?thesis by auto
qed

lemma rx_lang_Cat_C: "rx_lang ic (Cat (C k) q) = {x # t |x t. cc_match ic k x \<and> t \<in> rx_lang ic q}"
  using cat_single [of "cc_match ic k" "rx_lang ic q"] by simp

lemma rx_lang_word_icase: "rx_lang True (rx_word w) = {s. lowercase s = lowercase w}"
proof (induction w rule: rx_word.induct)
  case (2 c)
  have "lowercase s = [tolower c] \<longleftrightarrow> (\<exists>x. s = [x] \<and> tolower c = tolower x)" for s
    by (cases s) auto
  then show ?case by auto
next
  case (3 c d cs)
  have "lowercase s = tolower c # lowercase (d # cs) \<longleftrightarrow>
    (\<exists>x t. s = x # t \<and> tolower c = tolower x \<and> lowercase t = lowercase (d # cs))" for s
    by (cases s) auto
  with 3 show ?case by (auto simp: rx_lang_Cat_C simp del: rx_lang.simps(3))
qed auto

lemma rx_lang_alts: "rs \<noteq> [] \<Longrightarrow> rx_lang ic (rx_alts rs) = (\<Union>r \<in> set rs. rx_lang ic r)"
  by (induction rs rule: rx_alts.induct) auto

lemma concat_singletons: "(\<exists>ws. s = concat ws \<and> set ws \<subseteq> {[x] |x. P x}) \<longleftrightarrow> list_all P s"
proof
  show "\<exists>ws. s = concat ws \<and> set ws \<subseteq> {[x] |x. P x} \<Longrightarrow> list_all P s"
    by (force simp: list_all_iff)
next
  assume "list_all P s"
  then have "s = concat (map (\<lambda>x. [x]) s) \<and> set (map (\<lambda>x. [x]) s) \<subseteq> {[x] |x. P x}"
    by (auto simp: list_all_iff)
  then show "\<exists>ws. s = concat ws \<and> set ws \<subseteq> {[x] |x. P x}" by blast
qed

lemma rx_lang_star_C: "rx_lang ic (Star (C k)) = {s. list_all (cc_match ic k) s}"
  and rx_lang_lazy_C: "rx_lang ic (LazyStar (C k)) = {s. list_all (cc_match ic k) s}"
  using concat_singletons [of _ "cc_match ic k"] by auto

lemma rx_lang_plus_C: "rx_lang ic (Plus (C k)) = {s. s \<noteq> [] \<and> list_all (cc_match ic k) s}"
proof -
  have "rx_lang ic (Plus (C k)) = {s @ t |s t. s \<in> {[x] |x. cc_match ic k x} \<and>
      t \<in> {s. list_all (cc_match ic k) s}}"
    unfolding concat_singletons [symmetric] by auto
  also have "\<dots> = {s. s \<noteq> [] \<and> list_all (cc_match ic k) s}"
    unfolding cat_single by (auto simp: neq_Nil_conv)
  finally show ?thesis .
qed

lemmas rx_lang_C = rx_lang_star_C rx_lang_lazy_C rx_lang_plus_C

text \<open>A greedy loop over one class takes as much as it can.\<close>

lemma rx_loop_greedy_C:
  "length s \<le> n \<Longrightarrow> \<exists>xs. rx_loop True n (rx_run ic (C k)) c s = (c, dropWhile (cc_match ic k) s) # xs"
proof (induction n arbitrary: s)
  case (Suc n)
  show ?case
  proof (cases s)
    case (Cons x t)
    with Suc.prems Suc.IH [of t] show ?thesis by (auto simp: Let_def)
  qed (simp add: Let_def)
qed simp

lemma rx_run_plus_C:
  "cc_match ic k x \<Longrightarrow> rx_run ic (Plus (C k)) c (x # t) = rx_loop True (length t) (rx_run ic (C k)) c t"
  by simp

function (sequential) collapse_space :: "string \<Rightarrow> string" where
  "collapse_space [] = []"
| "collapse_space (x # s) = (if isspace x then CHR '' '' # collapse_space (dropWhile isspace s)
     else x # collapse_space s)"
  by pat_completeness auto
termination
  by (relation "measure length") (auto simp: le_imp_less_Suc length_dropWhile_le)

lemma rx_replace_space:
  "length s \<le> n \<Longrightarrow> rx_replace n (Grp 1 (Plus (C CSpace))) '' '' s = collapse_space s"
proof (induction n arbitrary: s)
  case (Suc n)
  show ?case
  proof (cases s)
    case (Cons x t)
    show ?thesis
    proof (cases "isspace x")
      case True
      obtain xs where xs: "rx_loop True (length t) (rx_run False (C CSpace)) [] t
          = ([], dropWhile (cc_match False CSpace) t) # xs"
        using rx_loop_greedy_C [of t "length t" False CSpace "[]"] by blast
      have "rx_run False (Grp 1 (Plus (C CSpace))) [] (x # t) =
          map (\<lambda>(c', s'). ((1, take (length (x # t) - length s') (x # t)) # c', s'))
            (rx_loop True (length t) (rx_run False (C CSpace)) [] t)"
        using True by (simp only: rx_run.simps(10) rx_run_plus_C cc_match.simps length_Cons)
      moreover have "cc_match False CSpace = isspace" by (intro ext) simp
      ultimately obtain c ys
        where run: "rx_run False (Grp 1 (Plus (C CSpace))) [] (x # t) = (c, dropWhile isspace t) # ys"
        unfolding xs by auto
      have "length (dropWhile isspace t) \<le> length t" by (rule length_dropWhile_le)
      moreover from this Suc.prems Cons have "length (dropWhile isspace t) \<le> n" by simp
      ultimately show ?thesis
        using Cons True run Suc.IH [of "dropWhile isspace t"] by (simp del: rx_run.simps)
    next
      case False
      with Cons Suc show ?thesis by simp
    qed
  qed simp
qed simp

lemma replace_all_space: "rx_replace_all (Grp 1 (Plus (C CSpace))) '' '' s = collapse_space s"
  unfolding rx_replace_all_def by (rule rx_replace_space) simp

section \<open>Groups that every match captures\<close>

primrec rx_mandatory :: "rx \<Rightarrow> nat set" where
  "rx_mandatory Eps = {}"
| "rx_mandatory (C k) = {}"
| "rx_mandatory (Cat p q) = rx_mandatory p \<union> rx_mandatory q"
| "rx_mandatory (Alt p q) = rx_mandatory p \<inter> rx_mandatory q"
| "rx_mandatory (Opt p) = {}"
| "rx_mandatory (Star p) = {}"
| "rx_mandatory (Plus p) = rx_mandatory p"
| "rx_mandatory (LazyStar p) = {}"
| "rx_mandatory (Rep n p) = {}"
| "rx_mandatory (Grp i p) = insert i (rx_mandatory p)"

definition keeps :: "nat set \<Rightarrow> (caps \<Rightarrow> string \<Rightarrow> (caps \<times> string) list) \<Rightarrow> bool" where
  "keeps M f \<longleftrightarrow> (\<forall>c s c' s'. (c', s') \<in> set (f c s) \<longrightarrow> fst ` set c \<union> M \<subseteq> fst ` set c')"

lemma keepsD: "keeps M f \<Longrightarrow> (c', s') \<in> set (f c s) \<Longrightarrow> fst ` set c \<union> M \<subseteq> fst ` set c'"
  unfolding keeps_def by blast

lemma rx_loop_keeps:
  assumes f: "keeps M f"
  shows "(c', s') \<in> set (rx_loop g n f c s) \<Longrightarrow> fst ` set c \<subseteq> fst ` set c'"
proof (induction n arbitrary: c s)
  case (Suc n)
  from Suc.prems consider "c' = c"
    | c1 s1 where "(c1, s1) \<in> set (f c s)" "(c', s') \<in> set (rx_loop g n f c1 s1)"
    by (auto simp: Let_def split: if_splits)
  then show ?case
  proof cases
    case 2
    with keepsD [OF f 2(1)] Suc.IH [OF 2(2)] show ?thesis by blast
  qed simp
qed simp

lemma rx_rep_keeps:
  assumes f: "keeps M f"
  shows "(c', s') \<in> set (rx_rep n f c s) \<Longrightarrow> fst ` set c \<subseteq> fst ` set c'"
proof (induction n arbitrary: c s)
  case (Suc n)
  then obtain c1 s1 where "(c1, s1) \<in> set (f c s)" "(c', s') \<in> set (rx_rep n f c1 s1)" by auto
  with keepsD [OF f] Suc.IH show ?case by blast
qed simp

lemma keepsI:
  "(\<And>c s c' s'. (c', s') \<in> set (f c s) \<Longrightarrow> fst ` set c \<subseteq> fst ` set c' \<and> M \<subseteq> fst ` set c') \<Longrightarrow> keeps M f"
  unfolding keeps_def by simp

lemma keepsD':
  assumes "keeps M f" and "(c', s') \<in> set (f c s)"
  shows "fst ` set c \<subseteq> fst ` set c'" and "M \<subseteq> fst ` set c'"
  using keepsD [OF assms] by simp_all

lemma rx_run_keeps: "keeps (rx_mandatory r) (rx_run ic r)"
proof (induction r)
  case (Cat p q)
  show ?case
  proof (rule keepsI)
    fix c s c' s' assume "(c', s') \<in> set (rx_run ic (Cat p q) c s)"
    then obtain c1 s1 where 1: "(c1, s1) \<in> set (rx_run ic p c s)"
      and 2: "(c', s') \<in> set (rx_run ic q c1 s1)" by auto
    note a = keepsD' [OF Cat.IH(1) 1] and b = keepsD' [OF Cat.IH(2) 2]
    from subset_trans [OF a(1) b(1)] subset_trans [OF a(2) b(1)] b(2)
    show "fst ` set c \<subseteq> fst ` set c' \<and> rx_mandatory (Cat p q) \<subseteq> fst ` set c'" by simp
  qed
next
  case (Alt p q)
  show ?case
  proof (rule keepsI)
    fix c s c' s' assume "(c', s') \<in> set (rx_run ic (Alt p q) c s)"
    then consider "(c', s') \<in> set (rx_run ic p c s)" | "(c', s') \<in> set (rx_run ic q c s)" by auto
    then show "fst ` set c \<subseteq> fst ` set c' \<and> rx_mandatory (Alt p q) \<subseteq> fst ` set c'"
    proof cases
      case 1
      from keepsD' [OF Alt.IH(1) 1] show ?thesis by (simp add: le_infI1)
    next
      case 2
      from keepsD' [OF Alt.IH(2) 2] show ?thesis by (simp add: le_infI2)
    qed
  qed
next
  case (Opt p)
  show ?case
  proof (rule keepsI)
    fix c s c' s' assume "(c', s') \<in> set (rx_run ic (Opt p) c s)"
    then consider "(c', s') \<in> set (rx_run ic p c s)" | "c' = c" by auto
    then show "fst ` set c \<subseteq> fst ` set c' \<and> rx_mandatory (Opt p) \<subseteq> fst ` set c'"
    proof cases
      case 1
      from keepsD' [OF Opt.IH 1] show ?thesis by simp
    qed simp
  qed
next
  case (Star p)
  show ?case
    by (rule keepsI) (use rx_loop_keeps [OF Star.IH] in simp)
next
  case (LazyStar p)
  show ?case
    by (rule keepsI) (use rx_loop_keeps [OF LazyStar.IH] in simp)
next
  case (Plus p)
  show ?case
  proof (rule keepsI)
    fix c s c' s' assume "(c', s') \<in> set (rx_run ic (Plus p) c s)"
    then obtain c1 s1 where 1: "(c1, s1) \<in> set (rx_run ic p c s)"
      and 2: "(c', s') \<in> set (rx_loop True (length s1) (rx_run ic p) c1 s1)" by auto
    note a = keepsD' [OF Plus.IH 1] and b = rx_loop_keeps [OF Plus.IH 2]
    from subset_trans [OF a(1) b] subset_trans [OF a(2) b]
    show "fst ` set c \<subseteq> fst ` set c' \<and> rx_mandatory (Plus p) \<subseteq> fst ` set c'" by simp
  qed
next
  case (Rep n p)
  show ?case
    by (rule keepsI) (use rx_rep_keeps [OF Rep.IH] in simp)
next
  case (Grp i p)
  show ?case
  proof (rule keepsI)
    fix c s c' s' assume "(c', s') \<in> set (rx_run ic (Grp i p) c s)"
    then obtain c1 t where 1: "(c1, s') \<in> set (rx_run ic p c s)" and c': "c' = (i, t) # c1" by auto
    from keepsD' [OF Grp.IH 1]
    show "fst ` set c \<subseteq> fst ` set c' \<and> rx_mandatory (Grp i p) \<subseteq> fst ` set c'"
      unfolding c' by (simp add: subset_insertI2)
  qed
qed (rule keepsI; auto split: list.splits if_splits)+

theorem rx_match_mandatory:
  assumes "rx_match ic r s = Some m" and "i \<in> rx_mandatory r"
  shows "\<exists>p. (i, p) \<in> rx_groups r \<and> m i \<in> rx_lang ic p"
proof -
  from assms(1) obtain c where 1: "(c, []) \<in> set (rx_run ic r [] s)"
    and m: "m = (\<lambda>i. case map_of c i of Some t \<Rightarrow> t | None \<Rightarrow> [])"
    by (rule rx_match_SomeD)
  from consumesD(2) [OF rx_run_sound 1] have c: "caps_from ic (rx_groups r) [] c" .
  from keepsD [OF rx_run_keeps 1] assms(2) have "i \<in> fst ` set c" by blast
  then obtain t where t: "map_of c i = Some t" by (metis map_of_eq_None_iff not_None_eq)
  with c m map_of_SomeD [OF t] show ?thesis by (auto simp: caps_from_def)
qed

section \<open>Lemmas on Spirit parsers\<close>

text \<open>A parse only runs actions of its grammar, and what it matches is gone from the rest.\<close>

definition sp_fits :: "'a set \<Rightarrow> (string \<Rightarrow> 'a sp_result) \<Rightarrow> bool" where
  "sp_fits A f \<longleftrightarrow> (\<forall>s r ev. f s = (r, ev) \<longrightarrow> (\<forall>e \<in> set ev. fst e \<in> A) \<and>
     (\<forall>s' m v. r = Some (s', m, v) \<longrightarrow> length s' + m \<le> length s))"

lemma sp_fitsI:
  "(\<And>s r ev. f s = (r, ev) \<Longrightarrow> (\<forall>e \<in> set ev. fst e \<in> A) \<and> (\<forall>s' m v. r = Some (s', m, v) \<longrightarrow> length s' + m \<le> length s))
    \<Longrightarrow> sp_fits A f"
  by (simp add: sp_fits_def)

lemma sp_fits_events: "sp_fits A f \<Longrightarrow> f s = (r, ev) \<Longrightarrow> (\<forall>e \<in> set ev. fst e \<in> A)"
  by (simp add: sp_fits_def)

lemma sp_fits_length: "sp_fits A f \<Longrightarrow> f s = (Some (s', m, v), ev) \<Longrightarrow> length s' + m \<le> length s"
  by (simp add: sp_fits_def)

lemma sp_fits_mono: "sp_fits A f \<Longrightarrow> A \<subseteq> B \<Longrightarrow> sp_fits B f"
  unfolding sp_fits_def by blast

lemma length_skip: "length (skip_space s) \<le> length s"
  by (rule length_dropWhile_le)

lemma sp_prefix_length: "sp_prefix nc w s = Some (s', m, v) \<Longrightarrow> length s' + m \<le> length s \<and> m = length w"
proof -
  assume "sp_prefix nc w s = Some (s', m, v)"
  then have s': "s' = drop (length w) (skip_space s)" "m = length w"
    and "(if nc then lowercase (take (length w) (skip_space s)) else take (length w) (skip_space s)) = w"
    by (auto simp: sp_prefix_def Let_def split: if_splits)
  then have "length (take (length w) (skip_space s)) = length w"
    by (metis length_map)
  with s' length_skip [of s] show ?thesis by simp
qed

lemma sp_char_length: "sp_char nc P s = Some (s', m, v) \<Longrightarrow> length s' + m \<le> length s \<and> m = 1"
  using length_skip [of s] by (auto simp: sp_char_def split: list.splits if_splits)

lemma read_sign_length: "read_sign s = (neg, s') \<Longrightarrow> length s' \<le> length s"
  by (auto simp: read_sign_def split: list.splits if_splits)

lemma sp_int_length: "sp_int s = Some (s', m, v) \<Longrightarrow> length s' + m \<le> length s"
proof -
  assume *: "sp_int s = Some (s', m, v)"
  obtain neg s1 where s1: "read_sign (skip_space s) = (neg, s1)" by fastforce
  have "length (takeWhile isdigit s1) \<le> length s1" by (rule length_takeWhile_le)
  with * read_sign_length [OF s1] length_skip [of s] show ?thesis
    by (auto simp: sp_int_def s1 Let_def split: if_splits)
qed

lemma sp_exponent_length:
  assumes "sp_exponent n s = Some (s', m, v)" and "length s \<le> n"
  shows "length s' + m \<le> n"
proof -
  obtain neg s1 where s1: "read_sign (tl s) = (neg, s1)" by fastforce
  with read_sign_length [OF s1] have "length s1 \<le> n" using assms(2) by simp
  with assms show ?thesis
    by (auto simp: sp_exponent_def s1 Let_def split: if_splits)
qed

lemma sp_real_length:
  assumes "sp_real s = Some (s', m, v)"
  shows "length s' + m \<le> length s"
proof -
  obtain neg s1 where s1: "read_sign (skip_space s) = (neg, s1)" by fastforce
  from assms obtain s3 where s3: "sp_exponent (length (skip_space s)) s3 = Some (s', m, v)"
    and "length s3 \<le> length s1"
    by (auto simp: sp_real_def s1 Let_def split: if_splits)
  with sp_exponent_length [OF s3] read_sign_length [OF s1] length_skip [of s] show ?thesis by simp
qed

lemma sp_loop_fits:
  assumes f: "sp_fits A f"
  shows "sp_loop k f s n = (r, ev) \<Longrightarrow>
    (\<forall>e \<in> set ev. fst e \<in> A) \<and> (\<exists>s' m. r = Some (s', n + m, 0) \<and> length s' + m \<le> length s)"
proof (induction k arbitrary: s n r ev)
  case (Suc k)
  obtain q ev1 where q: "f s = (q, ev1)" by fastforce
  note ev1 = sp_fits_events [OF f q]
  show ?case
  proof (cases q)
    case None
    with Suc.prems q ev1 show ?thesis by auto
  next
    case (Some t)
    obtain s1 m1 v1 where t: "t = (s1, m1, v1)" by (cases t)
    have len: "length s1 + m1 \<le> length s" using sp_fits_length [OF f] q Some t by blast
    show ?thesis
    proof (cases "length s1 < length s")
      case True
      obtain r2 ev2 where r2: "sp_loop k f s1 (n + m1) = (r2, ev2)" by fastforce
      from Suc.IH [OF r2] obtain s' m where 2: "(\<forall>e \<in> set ev2. fst e \<in> A)" "r2 = Some (s', n + m1 + m, 0)"
        "length s' + m \<le> length s1" by blast
      from Suc.prems q Some t True r2 have "r = r2" "ev = ev1 @ ev2" by auto
      with 2 ev1 len show ?thesis by (auto intro!: exI [of _ "m1 + m"])
    next
      case False
      with Suc.prems q Some t have "r = Some (s1, n + m1, 0)" "ev = ev1" by auto
      with ev1 len show ?thesis by auto
    qed
  qed
qed auto

lemma sp_fits_prim:
  "(\<And>s s' m v. g s = Some (s', m, v) \<Longrightarrow> length s' + m \<le> length s) \<Longrightarrow> sp_fits A (\<lambda>s. (g s, []))"
  by (rule sp_fitsI) auto

theorem sp_run_fits: "sp_fits (set_sp p) (sp_run p nc)"
proof (induction p arbitrary: nc)
  case (SStr w)
  show ?case unfolding sp_run.simps by (rule sp_fits_prim) (blast dest: sp_prefix_length)
next
  case (SCh c)
  show ?case unfolding sp_run.simps by (rule sp_fits_prim) (blast dest: sp_char_length)
next
  case SAny
  show ?case unfolding sp_run.simps by (rule sp_fits_prim) (blast dest: sp_char_length)
next
  case SLower
  show ?case unfolding sp_run.simps by (rule sp_fits_prim) (blast dest: sp_char_length)
next
  case SInt
  show ?case unfolding sp_run.simps by (rule sp_fits_prim) (rule sp_int_length)
next
  case SReal
  show ?case unfolding sp_run.simps by (rule sp_fits_prim) (rule sp_real_length)
next
  case (SSeq p q)
  show ?case
  proof (rule sp_fitsI)
    fix s r ev assume run: "sp_run (SSeq p q) nc s = (r, ev)"
    obtain r1 ev1 where 1: "sp_run p nc s = (r1, ev1)" by fastforce
    note e1 = sp_fits_events [OF SSeq.IH(1) 1]
    show "(\<forall>e \<in> set ev. fst e \<in> set_sp (SSeq p q)) \<and> (\<forall>s' m v. r = Some (s', m, v) \<longrightarrow> length s' + m \<le> length s)"
    proof (cases r1)
      case None
      with run 1 e1 show ?thesis by auto
    next
      case (Some t)
      obtain s1 m1 v1 where t: "t = (s1, m1, v1)" by (cases t)
      obtain r2 ev2 where 2: "sp_run q nc s1 = (r2, ev2)" by fastforce
      note e2 = sp_fits_events [OF SSeq.IH(2) 2]
      have "length s1 + m1 \<le> length s" using sp_fits_length [OF SSeq.IH(1)] 1 Some t by blast
      moreover have "r2 = Some (s2, m2, v2) \<Longrightarrow> length s2 + m2 \<le> length s1" for s2 m2 v2
        using sp_fits_length [OF SSeq.IH(2)] 2 by blast
      ultimately show ?thesis
        using run 1 2 Some t e1 e2 by (fastforce split: option.splits prod.splits)
    qed
  qed
next
  case (SAlt p q)
  show ?case
  proof (rule sp_fitsI)
    fix s r ev assume run: "sp_run (SAlt p q) nc s = (r, ev)"
    obtain r1 ev1 where 1: "sp_run p nc s = (r1, ev1)" by fastforce
    obtain r2 ev2 where 2: "sp_run q nc s = (r2, ev2)" by fastforce
    note e1 = sp_fits_events [OF SAlt.IH(1) 1] and e2 = sp_fits_events [OF SAlt.IH(2) 2]
    show "(\<forall>e \<in> set ev. fst e \<in> set_sp (SAlt p q)) \<and> (\<forall>s' m v. r = Some (s', m, v) \<longrightarrow> length s' + m \<le> length s)"
    proof (cases r1)
      case None
      with run 1 2 have "r = r2" "ev = ev1 @ ev2" by simp_all
      then show ?thesis
        using e1 e2 sp_fits_length [OF SAlt.IH(2), of nc s] 2 by auto
    next
      case (Some t)
      with run 1 have "r = r1" "ev = ev1" by simp_all
      then show ?thesis
        using e1 sp_fits_length [OF SAlt.IH(1), of nc s] 1 by auto
    qed
  qed
next
  case (SOpt p)
  show ?case
  proof (rule sp_fitsI)
    fix s r ev assume run: "sp_run (SOpt p) nc s = (r, ev)"
    obtain r1 ev1 where 1: "sp_run p nc s = (r1, ev1)" by fastforce
    show "(\<forall>e \<in> set ev. fst e \<in> set_sp (SOpt p)) \<and> (\<forall>s' m v. r = Some (s', m, v) \<longrightarrow> length s' + m \<le> length s)"
      using run 1 sp_fits_events [OF SOpt.IH 1] sp_fits_length [OF SOpt.IH, of nc s]
      by (cases r1) auto
  qed
next
  case (SStar p)
  show ?case
    by (rule sp_fitsI) (use sp_loop_fits [OF SStar.IH] in fastforce)
next
  case (SPlus p)
  show ?case
  proof (rule sp_fitsI)
    fix s r ev assume run: "sp_run (SPlus p) nc s = (r, ev)"
    obtain r1 ev1 where 1: "sp_run p nc s = (r1, ev1)" by fastforce
    note e1 = sp_fits_events [OF SPlus.IH 1]
    show "(\<forall>e \<in> set ev. fst e \<in> set_sp (SPlus p)) \<and> (\<forall>s' m v. r = Some (s', m, v) \<longrightarrow> length s' + m \<le> length s)"
    proof (cases r1)
      case None
      with run 1 e1 show ?thesis by auto
    next
      case (Some t)
      obtain s1 m1 v1 where t: "t = (s1, m1, v1)" by (cases t)
      obtain r2 ev2 where 2: "sp_loop (length s1) (sp_run p nc) s1 m1 = (r2, ev2)" by fastforce
      have "length s1 + m1 \<le> length s" using sp_fits_length [OF SPlus.IH] 1 Some t by blast
      moreover from run 1 2 Some t have "r = r2" "ev = ev1 @ ev2" by (simp_all add: Let_def)
      ultimately show ?thesis
        using e1 sp_loop_fits [OF SPlus.IH 2] by fastforce
    qed
  qed
next
  case (SDiff p q)
  show ?case
  proof (rule sp_fitsI)
    fix s r ev assume run: "sp_run (SDiff p q) nc s = (r, ev)"
    obtain r1 ev1 where 1: "sp_run p nc s = (r1, ev1)" by fastforce
    obtain r2 ev2 where 2: "sp_run q nc s = (r2, ev2)" by fastforce
    note f = sp_fits_events [OF SDiff.IH(1) 1] sp_fits_events [OF SDiff.IH(2) 2]
      sp_fits_length [OF SDiff.IH(1), of nc s]
    show "(\<forall>e \<in> set ev. fst e \<in> set_sp (SDiff p q)) \<and> (\<forall>s' m v. r = Some (s', m, v) \<longrightarrow> length s' + m \<le> length s)"
      using run 1 2 f by (auto split: option.splits if_splits) (fastforce dest: bspec)+
  qed
next
  case (SNoCase p)
  then show ?case by simp
next
  case (SAct a p)
  show ?case
  proof (rule sp_fitsI)
    fix s r ev assume run: "sp_run (SAct a p) nc s = (r, ev)"
    obtain r1 ev1 where 1: "sp_run p nc (skip_space s) = (r1, ev1)" by fastforce
    note f = sp_fits_events [OF SAct.IH 1] sp_fits_length [OF SAct.IH, of nc "skip_space s"] length_skip [of s]
    show "(\<forall>e \<in> set ev. fst e \<in> set_sp (SAct a p)) \<and> (\<forall>s' m v. r = Some (s', m, v) \<longrightarrow> length s' + m \<le> length s)"
      using run 1 f by (auto simp: Let_def split: option.splits prod.splits)
  qed
qed

lemma sp_run_no_actions: "set_sp p = {} \<Longrightarrow> sp_run p nc s = (r, ev) \<Longrightarrow> ev = []"
  by (metis empty_iff last_in_set sp_fits_events sp_run_fits)

end
