(* ===== verification/NamedInteger.thy ===== *)
theory NamedInteger
  imports Prelude
begin

text \<open>
  The enumerated SQL types of \<open>src/callInterface/types\<close>: the name table \<open>wciNamedInteger\<close> and the
  PostgreSQL input and output functions of the three types built on it (level and time
  indeterminate, interpolation). A table is the \<open>std::vector<std::string>\<close> of its names; a name
  is looked up without regard to case and stands for its position, the empty text for -1.
  The locale \<open>name_table\<close> states what a table needs for its two subscript operators to be inverse
  to each other, and is interpreted on each of the three tables of the code.
\<close>

section \<open>The table\<close>

record wciNamedInteger =
  names_of :: "string list"

definition wciNamedInteger_new :: "string list \<Rightarrow> wciNamedInteger res" where
  "wciNamedInteger_new names = (if names = [] then Inl (Logic_error ''Cannot make an empty wciNamedInteger'')
     else Inr \<lparr>names_of = names\<rparr>)"

fun scan_names :: "string list \<Rightarrow> nat \<Rightarrow> string \<Rightarrow> nat option" where
  "scan_names [] index key = None"
| "scan_names (v # vs) index key = (if v = key then Some index else scan_names vs (Suc index) key)"

definition number_of_name :: "wciNamedInteger \<Rightarrow> string \<Rightarrow> int res" where
  "number_of_name t key = (if key = [] then Inr (- 1)
     else (case scan_names (names_of t) 0 (lowercase key) of
         Some index \<Rightarrow> Inr (int index)
       | None \<Rightarrow> Inl (Out_of_range (key @ '' is not a valid type''))))"

definition name_of_number :: "wciNamedInteger \<Rightarrow> int \<Rightarrow> string res" where
  "name_of_number t val = (if val = - 1 then Inr []
     else if 0 \<le> val \<and> val < int (length (names_of t)) then Inr (names_of t ! nat val)
     else Inl (Out_of_range (''out of range: '' @ show_int val)))"

section \<open>The three types\<close>

definition levelIndetTypes :: "string list" where
  "levelIndetTypes = [''exact'', ''inside'', ''above'', ''below'', ''any'']"

definition timeIndetTypes :: "string list" where
  "timeIndetTypes = [''exact'', ''any'', ''inside'', ''before'', ''after'', ''contains'']"

definition interpolTypes :: "string list" where
  "interpolTypes = [''exact'', ''nearest'', ''surround'', ''bilinear'']"

definition report_out_of_range :: "errcode \<Rightarrow> 'a res \<Rightarrow> 'a res" where
  "report_out_of_range c m = (case m of
     Inl (Out_of_range t) \<Rightarrow> Inl (Ereport c t)
   | _ \<Rightarrow> m)"

definition type_in :: "string list \<Rightarrow> string \<Rightarrow> int res" where
  "type_in names s = report_out_of_range ERRCODE_INVALID_TEXT_REPRESENTATION
     (bindE (wciNamedInteger_new names) (\<lambda>t. number_of_name t s))"

definition type_out :: "string list \<Rightarrow> int \<Rightarrow> string res" where
  "type_out names v = report_out_of_range ERRCODE_INVALID_BINARY_REPRESENTATION
     (bindE (wciNamedInteger_new names) (\<lambda>t. name_of_number t v))"

definition levelIndeterminateType_in :: "string \<Rightarrow> int res" where
  "levelIndeterminateType_in = type_in levelIndetTypes"

definition levelIndeterminateType_out :: "int \<Rightarrow> string res" where
  "levelIndeterminateType_out = type_out levelIndetTypes"

definition timeIndeterminateType_in :: "string \<Rightarrow> int res" where
  "timeIndeterminateType_in = type_in timeIndetTypes"

definition timeIndeterminateType_out :: "int \<Rightarrow> string res" where
  "timeIndeterminateType_out = type_out timeIndetTypes"

definition interpolationType_in :: "string \<Rightarrow> int res" where
  "interpolationType_in = type_in interpolTypes"

definition interpolationType_out :: "int \<Rightarrow> string res" where
  "interpolationType_out = type_out interpolTypes"

section \<open>Lemmas\<close>

lemma scan_names_Some:
  "scan_names vs n key = Some i \<longleftrightarrow>
     n \<le> i \<and> i - n < length vs \<and> vs ! (i - n) = key \<and> (\<forall>j < i - n. vs ! j \<noteq> key)"
proof (induction vs arbitrary: n)
  case (Cons v vs)
  show ?case
  proof (cases "v = key")
    case True
    then show ?thesis by (auto simp: nth_Cons')
  next
    case False
    have "(n \<le> i \<and> i - n < length (v # vs) \<and> (v # vs) ! (i - n) = key \<and> (\<forall>j < i - n. (v # vs) ! j \<noteq> key))
      \<longleftrightarrow> (Suc n \<le> i \<and> i - Suc n < length vs \<and> vs ! (i - Suc n) = key \<and> (\<forall>j < i - Suc n. vs ! j \<noteq> key))"
    proof (cases "i - n")
      case 0
      with False show ?thesis by auto
    next
      case (Suc k)
      then have k: "i - Suc n = k" "n \<le> i" "Suc n \<le> i" by auto
      have "(\<forall>j < Suc k. (v # vs) ! j \<noteq> key) \<longleftrightarrow> (\<forall>j < k. vs ! j \<noteq> key)"
        using False by (auto simp: less_Suc_eq_0_disj)
      with k Suc show ?thesis by auto
    qed
    with False Cons.IH [of "Suc n"] show ?thesis by simp
  qed
qed simp

lemma scan_names_None: "scan_names vs n key = None \<longleftrightarrow> key \<notin> set vs"
  by (induction vs arbitrary: n) auto

text \<open>What a table needs: the constructor accepts it and each name is found at its own position.\<close>

locale name_table =
  fixes names :: "string list"
  assumes nonempty: "names \<noteq> []"
    and distinct: "distinct names"
    and proper: "\<And>n. n \<in> set names \<Longrightarrow> n \<noteq> [] \<and> lowercase n = n"
begin

lemma in_name: "i < length names \<Longrightarrow> lowercase s = names ! i \<Longrightarrow> type_in names s = Inr (int i)"
  using distinct proper [OF nth_mem, of i] nonempty
  by (auto simp: type_in_def wciNamedInteger_new_def number_of_name_def report_out_of_range_def
      scan_names_Some nth_eq_iff_index_eq split: option.splits simp: scan_names_None)

lemma in_unknown:
  "s \<noteq> [] \<Longrightarrow> lowercase s \<notin> set names \<Longrightarrow>
    type_in names s = Inl (Ereport ERRCODE_INVALID_TEXT_REPRESENTATION (s @ '' is not a valid type''))"
  using nonempty by (auto simp: type_in_def wciNamedInteger_new_def number_of_name_def report_out_of_range_def
      simp flip: scan_names_None [of names 0])

lemma in_empty: "type_in names [] = Inr (- 1)"
  using nonempty by (simp add: type_in_def wciNamedInteger_new_def number_of_name_def report_out_of_range_def)

lemma out_name: "i < length names \<Longrightarrow> type_out names (int i) = Inr (names ! i)"
  using nonempty by (simp add: type_out_def wciNamedInteger_new_def name_of_number_def report_out_of_range_def)

lemma out_minus1: "type_out names (- 1) = Inr []"
  using nonempty by (simp add: type_out_def wciNamedInteger_new_def name_of_number_def report_out_of_range_def)

lemma out_of_range:
  "v < - 1 \<or> int (length names) \<le> v \<Longrightarrow>
    type_out names v = Inl (Ereport ERRCODE_INVALID_BINARY_REPRESENTATION (''out of range: '' @ show_int v))"
  using nonempty by (auto simp: type_out_def wciNamedInteger_new_def name_of_number_def report_out_of_range_def)

text \<open>The input function succeeds exactly on the texts whose lower case is empty or a name, and
  the output function gives that lower case back.\<close>

lemma out_in:
  "(\<exists>v. type_in names s = Inr v \<and> type_out names v = Inr (lowercase s)) \<longleftrightarrow>
     s = [] \<or> lowercase s \<in> set names"
proof -
  consider "s = []" | i where "i < length names" "lowercase s = names ! i"
    | "s \<noteq> []" "lowercase s \<notin> set names"
    by (metis in_set_conv_nth)
  then show ?thesis
  proof cases
    case 2
    with in_name [of i s] out_name [of i] show ?thesis by auto
  qed (simp_all add: in_empty out_minus1 in_unknown)
qed

lemma in_out:
  "type_out names v = Inr s \<Longrightarrow> type_in names s = Inr v"
proof -
  assume out: "type_out names v = Inr s"
  have "v = - 1 \<or> (0 \<le> v \<and> v < int (length names))"
    using out out_of_range [of v] by force
  then consider "v = - 1" | i where "v = int i" "i < length names"
    by (metis nonneg_int_cases of_nat_less_iff)
  then show ?thesis
  proof cases
    case 1
    with out out_minus1 in_empty show ?thesis by simp
  next
    case 2
    with out out_name [of i] have s: "s = names ! i" by simp
    with 2 proper [OF nth_mem [of i names]] have "lowercase s = names ! i" by simp
    with in_name [of i s] 2 show ?thesis by simp
  qed
qed

end

interpretation levels: name_table levelIndetTypes
  by unfold_locales (auto simp: levelIndetTypes_def tolower_def code_def)

interpretation times: name_table timeIndetTypes
  by unfold_locales (auto simp: timeIndetTypes_def tolower_def code_def)

interpretation interpolations: name_table interpolTypes
  by unfold_locales (auto simp: interpolTypes_def tolower_def code_def)

end
