(* ===== verification/Specifications.thy ===== *)
theory Specifications
  imports Externals NamedInteger
begin

text \<open>
  The specification classes of \<open>src/callInterface/types\<close>: \<open>TimeSpecification\<close>,
  \<open>LevelSpecification\<close>, \<open>ValueParameterType\<close> and \<open>LevelParameterType\<close>, and the PostgreSQL
  functions \<open>timeSpec\<close>, \<open>levelSpec\<close>, \<open>normalizeWciParameter\<close> and \<open>normalizeWciLevelParameter\<close>
  that expose them. The patterns are the source's, written as \<^typ>\<open>rx\<close> terms whose printed text is
  the literal of the source (\<open>time_rx_text\<close>, \<open>level_rx_text\<close>).
\<close>

section \<open>TimeSpecification\<close>

record TimeSpecification =
  ts_indeterminate :: string
  ts_from :: string
  ts_other :: string
  ts_durationInsteadOfTo :: bool

definition time_point_rx :: "rx \<Rightarrow> rx" where
  "time_point_rx middle = rx_seq [Opt (C (CChar (CHR ''-''))), C CWord, middle, C CWord]"

definition time_rx :: rx where
  "time_rx = rx_seq
     [Opt (Grp 1 (rx_alts (map rx_word [''exact'', ''before'', ''after'', ''inside'', ''contains'']))),
      Star (C CSpace),
      Grp 2 (time_point_rx (LazyStar (C CDot))),
      Opt (Grp 3 (rx_seq [Plus (C CSpace), Grp 4 (rx_alts (map rx_word [''TO'', ''FOR''])), Plus (C CSpace),
        Grp 5 (time_point_rx (Star (C CDot)))]))]"

lemma time_rx_text:
  "rx_text time_rx = ''(exact|before|after|inside|contains)?'' @ [CHR 0x5C] @ ''s*(-?'' @ [CHR 0x5C]
     @ ''w.*?'' @ [CHR 0x5C] @ ''w)('' @ [CHR 0x5C] @ ''s+(TO|FOR)'' @ [CHR 0x5C] @ ''s+(-?'' @ [CHR 0x5C]
     @ ''w.*'' @ [CHR 0x5C] @ ''w))?''"
  and time_rx_numbers: "rx_numbers time_rx = [1, 2, 3, 4, 5]"
  by (simp_all add: time_rx_def time_point_rx_def)

definition TimeSpecification_new :: "'a boost \<Rightarrow> string \<Rightarrow> TimeSpecification res" where
  "TimeSpecification_new E spec = (case regex_match E True time_rx spec of
     None \<Rightarrow> Inl (Logic_error ''Invalid time specification'')
   | Some m \<Rightarrow>
       (let rangeQualifier = m 4;
            finish = (\<lambda>duration. Inr \<lparr>ts_indeterminate = (if m 1 = [] then ''exact'' else m 1),
              ts_from = m 2, ts_other = (if m 5 = [] then m 2 else m 5),
              ts_durationInsteadOfTo = duration\<rparr>)
        in if rangeQualifier = ''FOR'' then finish True
           else if rangeQualifier = ''TO'' \<or> rangeQualifier = [] then finish False
           else Inl (Logic_error (''Invalid time range qualifier: '' @ rangeQualifier))))"

definition ts_to :: "TimeSpecification \<Rightarrow> string" where
  "ts_to t = (if ts_durationInsteadOfTo t then [] else ts_other t)"

definition ts_interval :: "TimeSpecification \<Rightarrow> string" where
  "ts_interval t = (if ts_durationInsteadOfTo t then ts_other t else [])"

text \<open>The row of \<open>timeSpec\<close>: a null pointer is SQL's NULL.\<close>

definition timeSpec :: "'a boost \<Rightarrow> string \<Rightarrow> string option list res" where
  "timeSpec E spec = report_std ERRCODE_INVALID_TEXT_REPRESENTATION
     (mapE (\<lambda>ts. [Some (ts_indeterminate ts), Some (ts_from ts),
         if ts_durationInsteadOfTo ts then None else Some (ts_to ts),
         if ts_durationInsteadOfTo ts then Some (ts_interval ts) else None])
       (TimeSpecification_new E spec))"

section \<open>LevelSpecification\<close>

record LevelSpecification =
  ls_from :: fp
  ls_to :: fp
  ls_parameter :: string
  ls_indeterminate :: string

definition level_number_rx :: rx where
  "level_number_rx = rx_seq [Star (C CDigit), Opt (C (CChar (CHR ''.''))), Plus (C CDigit)]"

definition level_rx :: rx where
  "level_rx = rx_seq
     [Opt (Grp 1 (Cat (Grp 2 (rx_alts (map rx_word [''exact'', ''below'', ''above'', ''inside'', ''any''])))
        (Plus (C CSpace)))),
      Grp 3 level_number_rx, Plus (C CSpace),
      Opt (Grp 4 (rx_seq [rx_word ''TO'', Plus (C CSpace), Grp 5 level_number_rx])),
      Star (C CSpace), Grp 6 (Star (C CDot))]"

lemma level_rx_text:
  "rx_text level_rx = ''((exact|below|above|inside|any)'' @ [CHR 0x5C] @ ''s+)?('' @ [CHR 0x5C] @ ''d*''
     @ [CHR 0x5C] @ ''.?'' @ [CHR 0x5C] @ ''d+)'' @ [CHR 0x5C] @ ''s+(TO'' @ [CHR 0x5C] @ ''s+('' @ [CHR 0x5C]
     @ ''d*'' @ [CHR 0x5C] @ ''.?'' @ [CHR 0x5C] @ ''d+))?'' @ [CHR 0x5C] @ ''s*(.*)''"
  and level_rx_numbers: "rx_numbers level_rx = [1, 2, 3, 4, 5, 6]"
  by (simp_all add: level_rx_def level_number_rx_def)

definition LevelSpecification_new :: "'a boost \<Rightarrow> string \<Rightarrow> LevelSpecification res" where
  "LevelSpecification_new E spec = (case regex_match E True level_rx spec of
     None \<Rightarrow> Inl (Logic_error (''Invalid level specification: '' @ spec))
   | Some m \<Rightarrow>
       (let bad = Inl (Logic_error (''Unable to interpret level specification: '' @ spec));
            finish = (\<lambda>f t. Inr \<lparr>ls_from = f, ls_to = t, ls_parameter = to_lower E (m 6),
              ls_indeterminate = (if to_lower E (m 2) = [] then ''exact'' else to_lower E (m 2))\<rparr>)
        in case lexical_float E (m 3) of
             None \<Rightarrow> bad
           | Some f \<Rightarrow> (if m 5 = [] then finish f f
               else (case lexical_float E (m 5) of None \<Rightarrow> bad | Some t \<Rightarrow> finish f t))))"

definition levelSpec :: "'a boost \<Rightarrow> string \<Rightarrow> (fp \<times> fp \<times> string \<times> int) res" where
  "levelSpec E spec = report_std ERRCODE_INVALID_TEXT_REPRESENTATION
     (bindE (LevelSpecification_new E spec) (\<lambda>ls.
      bindE (wciNamedInteger_new levelIndetTypes) (\<lambda>t.
      mapE (\<lambda>i. (ls_from ls, ls_to ls, ls_parameter ls, i)) (number_of_name t (ls_indeterminate ls)))))"

section \<open>ValueParameterType and LevelParameterType\<close>

definition is_wildcard :: "char \<Rightarrow> bool" where
  "is_wildcard c \<longleftrightarrow> c = CHR ''%'' \<or> c = CHR ''_''"

text \<open>The search loop of both constructors, from position \<open>pos\<close> on.\<close>

function scan_wildcards :: "string \<Rightarrow> nat \<Rightarrow> bool" where
  "scan_wildcards s pos = (case find_first_from is_wildcard s pos of
     None \<Rightarrow> False
   | Some p \<Rightarrow> (if p = 0 then True
       else if s ! (p - 1) \<noteq> CHR 0x5C then True
       else scan_wildcards s (p + 1)))"
  by auto

lemma find_first_from_Some:
  "find_first_from P s pos = Some p \<longleftrightarrow> pos \<le> p \<and> p < length s \<and> P (s ! p) \<and> (\<forall>j. pos \<le> j \<and> j < p \<longrightarrow> \<not> P (s ! j))"
proof -
  have "find_first_from P s pos = Some p \<longleftrightarrow> (\<exists>i. p = pos + i \<and> find_first P (drop pos s) = Some i)"
    by (auto simp: find_first_from_def)
  also have "\<dots> \<longleftrightarrow> (\<exists>i. p = pos + i \<and> pos + i < length s \<and> P (s ! (pos + i)) \<and> (\<forall>j<i. \<not> P (s ! (pos + j))))"
    by (auto simp: find_first_Some)
  also have "\<dots> \<longleftrightarrow> pos \<le> p \<and> p < length s \<and> P (s ! p) \<and> (\<forall>j. pos \<le> j \<and> j < p \<longrightarrow> \<not> P (s ! j))"
    by (auto simp: le_iff_add)
  finally show ?thesis .
qed


termination scan_wildcards
  by (relation "measure (\<lambda>(s, pos). length s - pos)") (auto simp: find_first_from_Some)

declare scan_wildcards.simps [simp del]

definition whitespace_rx :: rx where
  "whitespace_rx = Grp 1 (Plus (C CSpace))"

record ParameterType =
  spec_text :: string
  isPattern :: bool

definition ValueParameterType_new :: "'a boost \<Rightarrow> string \<Rightarrow> ParameterType res" where
  "ValueParameterType_new E spec =
     (if spec = [] then Inl (Logic_error (''Invalid specification: '' @ spec))
      else (let s1 = regex_replace E whitespace_rx '' '' (lowercase spec);
                s2 = (if take 8 s1 = ''instant '' then drop 8 s1 else s1)
            in Inr \<lparr>spec_text = s2, isPattern = scan_wildcards s2 0\<rparr>))"

definition LevelParameterType_new :: "'a boost \<Rightarrow> string \<Rightarrow> ParameterType res" where
  "LevelParameterType_new E spec =
     (if spec = [] then Inl (Logic_error (''Invalid specification: '' @ spec))
      else (let s1 = regex_replace E whitespace_rx '' '' (lowercase spec)
            in Inr \<lparr>spec_text = s1, isPattern = scan_wildcards s1 0\<rparr>))"

definition same_parameter :: "ParameterType \<Rightarrow> ParameterType \<Rightarrow> bool" where
  "same_parameter p q \<longleftrightarrow> spec_text p = spec_text q"

definition report_logic_error :: "errcode \<Rightarrow> 'a res \<Rightarrow> 'a res" where
  "report_logic_error c m = (case m of Inl (Logic_error t) \<Rightarrow> Inl (Ereport c t) | _ \<Rightarrow> m)"

definition normalizeWciParameter :: "'a boost \<Rightarrow> string \<Rightarrow> string res" where
  "normalizeWciParameter E param = report_logic_error ERRCODE_INVALID_TEXT_REPRESENTATION
     (mapE spec_text (ValueParameterType_new E param))"

definition normalizeWciLevelParameter :: "'a boost \<Rightarrow> string \<Rightarrow> string res" where
  "normalizeWciLevelParameter E param = report_logic_error ERRCODE_INVALID_TEXT_REPRESENTATION
     (mapE spec_text (LevelParameterType_new E param))"

section \<open>Lemmas on time specifications\<close>

definition time_point :: "string \<Rightarrow> bool" where
  "time_point s \<longleftrightarrow> (let w = (if s \<noteq> [] \<and> hd s = CHR ''-'' then tl s else s)
     in 2 \<le> length w \<and> isword (hd w) \<and> isword (last w))"

lemma isword_ASCII: "isword (CHR ''-'') \<longleftrightarrow> False"
  by (simp add: isword_def isdigit_def islower_def isupper_def code_def)

lemma tolower_minus: "tolower x = tolower (CHR ''-'') \<longleftrightarrow> x = CHR ''-''"
proof -
  have minus: "code (CHR ''-'') = 45" "tolower (CHR ''-'') = CHR ''-''" by (simp_all add: code_def tolower_def)
  have "x = CHR ''-''" if "tolower x = CHR ''-''"
  proof -
    from that minus(1) have "code (tolower x) = 45" by simp
    then have "\<not> isupper x" by (auto simp: code_tolower isupper_def split: if_splits)
    with that show ?thesis by (simp add: tolower_id)
  qed
  with minus(2) show ?thesis by auto
qed

lemma opt_single: "{s @ t |s t. s \<in> insert [] {[x] |x. x = c} \<and> t \<in> W} = W \<union> {c # w |w. w \<in> W}"
proof -
  have "c # w \<in> {s @ t |s t. s \<in> insert [] {[x] |x. x = c} \<and> t \<in> W}" if "w \<in> W" for w
    using that by (intro CollectI exI [of _ "[c]"] exI [of _ w]) auto
  then show ?thesis by auto
qed

lemma word_span:
  "{x # t |x t. isword x \<and> t \<noteq> [] \<and> isword (last t)} =
     {w. 2 \<le> length w \<and> isword (hd w) \<and> isword (last w)}"
proof (intro set_eqI)
  fix w
  show "w \<in> {x # t |x t. isword x \<and> t \<noteq> [] \<and> isword (last t)} \<longleftrightarrow>
      w \<in> {w. 2 \<le> length w \<and> isword (hd w) \<and> isword (last w)}"
    by (cases w; cases "tl w") auto
qed

lemma time_point_lang:
  assumes "rx_lang True middle = UNIV"
  shows "rx_lang True (time_point_rx middle) = {s. time_point s}"
proof -
  have body: "{s @ t |s t. s \<in> UNIV \<and> t \<in> {[x] |x. isword x}} = {s. s \<noteq> [] \<and> isword (last s)}"
  proof (intro set_eqI)
    fix x
    show "x \<in> {s @ t |s t. s \<in> UNIV \<and> t \<in> {[x] |x. isword x}} \<longleftrightarrow> x \<in> {s. s \<noteq> [] \<and> isword (last s)}"
      by (cases x rule: rev_cases) auto
  qed
  have "rx_lang True (rx_seq [C CWord, middle, C CWord]) =
      {x # t |x t. isword x \<and> t \<noteq> [] \<and> isword (last t)}" (is "_ = ?W")
    using assms body by (simp add: rx_lang_Cat_C del: rx_lang.simps(3)) simp
  moreover have "rx_lang True (time_point_rx middle) =
      {s @ t |s t. s \<in> insert [] {[x] |x. x = CHR ''-''} \<and> t \<in> rx_lang True (rx_seq [C CWord, middle, C CWord])}"
    by (simp add: time_point_rx_def tolower_minus [simplified] eq_commute [of "tolower (CHR ''-'')"] del: insert_iff)
  ultimately have "rx_lang True (time_point_rx middle) = ?W \<union> {CHR ''-'' # w |w. w \<in> ?W}"
    by (simp only: opt_single)
  also have "\<dots> = {s. time_point s}"
    unfolding word_span
  proof (intro set_eqI)
    fix s
    show "s \<in> {w. 2 \<le> length w \<and> isword (hd w) \<and> isword (last w)} \<union>
        {CHR ''-'' # w |w. w \<in> {w. 2 \<le> length w \<and> isword (hd w) \<and> isword (last w)}} \<longleftrightarrow>
        s \<in> {s. time_point s}"
      by (cases s) (auto simp: time_point_def Let_def isword_ASCII)
  qed
  finally show ?thesis .
qed

definition time_words :: "string list" where
  "time_words = [''exact'', ''before'', ''after'', ''inside'', ''contains'']"

lemma lowercase_words:
  "set ws \<subseteq> W \<Longrightarrow> \<forall>w \<in> W. lowercase w = w \<Longrightarrow> ws \<noteq> [] \<Longrightarrow>
    rx_lang True (rx_alts (map rx_word ws)) \<subseteq> {s. lowercase s \<in> W}"
  by (auto simp: rx_lang_alts rx_lang_word_icase)

lemma UNIV_dot: "rx_lang True (Star (C CDot)) = UNIV" "rx_lang True (LazyStar (C CDot)) = UNIV"
  by (auto simp: rx_lang_C list_all_iff simp del: rx_lang.simps)

lemma time_rx_groups:
  "rx_groups time_rx = {(1, rx_alts (map rx_word time_words)), (2, time_point_rx (LazyStar (C CDot))),
     (3, rx_seq [Plus (C CSpace), Grp 4 (rx_alts (map rx_word [''TO'', ''FOR''])), Plus (C CSpace),
        Grp 5 (time_point_rx (Star (C CDot)))]),
     (4, rx_alts (map rx_word [''TO'', ''FOR''])), (5, time_point_rx (Star (C CDot)))}"
  by (simp add: time_rx_def time_words_def time_point_rx_def insert_commute)

lemma tolower_lower: "\<not> isupper c \<Longrightarrow> tolower c = c"
  by (rule tolower_id)

lemma time_words_lower: "w \<in> set time_words \<Longrightarrow> lowercase w = w"
  by (auto simp: time_words_def tolower_def code_def)

lemma time_words_lang: "rx_lang True (rx_alts (map rx_word time_words)) \<subseteq> {s. lowercase s \<in> set time_words}"
  by (rule lowercase_words) (auto simp: time_words_lower, simp add: time_words_def)

lemma time_match_groups:
  assumes "rx_match True time_rx spec = Some m"
  shows "m 1 = [] \<or> lowercase (m 1) \<in> set time_words"
    and "time_point (m 2)" and "m 5 = [] \<or> time_point (m 5)"
proof -
  show "m 1 = [] \<or> lowercase (m 1) \<in> set time_words"
    using rx_match_group [OF assms, of 1] time_words_lang by (auto simp: time_rx_groups)
  have "2 \<in> rx_mandatory time_rx" by (simp add: time_rx_def)
  from rx_match_mandatory [OF assms this] show "time_point (m 2)"
    by (auto simp: time_rx_groups time_point_lang [OF UNIV_dot(2)])
  show "m 5 = [] \<or> time_point (m 5)"
    using rx_match_group [OF assms, of 5] by (auto simp: time_rx_groups time_point_lang [OF UNIV_dot(1)])
qed

lemma TimeSpecification_ok:
  assumes "documented E" and "TimeSpecification_new E spec = Inr t"
  shows "lowercase (ts_indeterminate t) \<in> set time_words \<and> time_point (ts_from t) \<and> time_point (ts_other t)"
proof -
  from assms obtain m where m: "rx_match True time_rx spec = Some m"
    and t: "ts_indeterminate t = (if m 1 = [] then ''exact'' else m 1)" "ts_from t = m 2"
      "ts_other t = (if m 5 = [] then m 2 else m 5)"
    by (auto simp: TimeSpecification_new_def Let_def split: option.splits if_splits)
  have "lowercase ''exact'' \<in> set time_words"
    by (simp add: time_words_lower [symmetric] time_words_def) (simp add: tolower_def code_def)
  with time_match_groups [OF m] show ?thesis by (auto simp: t)
qed

section \<open>Lemmas on level specifications\<close>

definition level_words :: "string list" where
  "level_words = [''exact'', ''below'', ''above'', ''inside'', ''any'']"

lemma level_words_lower: "w \<in> set level_words \<Longrightarrow> lowercase w = w"
  by (auto simp: level_words_def tolower_def code_def)

lemma level_words_lang: "rx_lang True (rx_alts (map rx_word level_words)) \<subseteq> {s. lowercase s \<in> set level_words}"
  by (rule lowercase_words) (auto simp: level_words_lower, simp add: level_words_def)

lemma level_rx_groups:
  "(2, p) \<in> rx_groups level_rx \<Longrightarrow> p = rx_alts (map rx_word level_words)"
  "(3, p) \<in> rx_groups level_rx \<Longrightarrow> p = level_number_rx"
  "(5, p) \<in> rx_groups level_rx \<Longrightarrow> p = level_number_rx"
  by (simp_all add: level_rx_def level_words_def level_number_rx_def)

lemma tolower_dot: "tolower x = tolower (CHR ''.'') \<longleftrightarrow> x = CHR ''.''"
proof -
  have dot: "code (CHR ''.'') = 46" "tolower (CHR ''.'') = CHR ''.''" by (simp_all add: code_def tolower_def)
  have "x = CHR ''.''" if "tolower x = CHR ''.''"
  proof -
    from that dot(1) have "code (tolower x) = 46" by simp
    then have "\<not> isupper x" by (auto simp: code_tolower isupper_def split: if_splits)
    with that show ?thesis by (simp add: tolower_id)
  qed
  with dot(2) show ?thesis by auto
qed

lemma level_number_lang:
  "rx_lang True level_number_rx =
     {a @ d @ b |a d b. list_all isdigit a \<and> (d = [] \<or> d = ''.'') \<and> b \<noteq> [] \<and> list_all isdigit b}"
proof -
  have d: "{[x] |x. tolower (CHR ''.'') = tolower x} = {''.''}"
    using tolower_dot by (auto simp: eq_commute [of "tolower (CHR ''.'')"])
  have "rx_lang True level_number_rx = {a @ t |a t. list_all isdigit a \<and>
      t \<in> {d @ b |d b. (d = [] \<or> d = ''.'') \<and> b \<noteq> [] \<and> list_all isdigit b}}"
    unfolding level_number_rx_def rx_seq.simps rx_lang.simps(3) rx_lang_C rx_lang.simps(5) rx_lang.simps(2)
      cc_match.simps if_True d by (simp add: conj_ac)
  then show ?thesis by auto
qed

lemma isdigit_not_sign: "isdigit c \<Longrightarrow> c \<noteq> CHR ''-'' \<and> c \<noteq> CHR ''+''"
  by (auto simp: isdigit_def code_def)

lemma not_isdigit_dot: "\<not> isdigit (CHR ''.'')"
  by (simp add: isdigit_def code_def)

lemma takeWhile_digits: "list_all isdigit a \<Longrightarrow> takeWhile isdigit (a @ CHR ''.'' # b) = a"
  and dropWhile_digits: "list_all isdigit a \<Longrightarrow> dropWhile isdigit (a @ CHR ''.'' # b) = CHR ''.'' # b"
  by (induction a) (simp_all add: not_isdigit_dot)

lemma takeWhile_all: "list_all P a \<Longrightarrow> takeWhile P a = a"
  and dropWhile_all: "list_all P a \<Longrightarrow> dropWhile P a = []"
  by (induction a) simp_all

lemma read_sign_digits:
  "list_all isdigit a \<Longrightarrow> a \<noteq> [] \<or> hd b = CHR ''.'' \<Longrightarrow> b = [] \<or> hd b = CHR ''.'' \<or> isdigit (hd b) \<Longrightarrow>
    read_sign (a @ b) = (False, a @ b)"
  by (cases a; cases b) (auto simp: read_sign_def dest: isdigit_not_sign)

lemma level_number_read:
  assumes "s \<in> rx_lang True level_number_rx"
  shows "read_fp F s \<noteq> None"
proof -
  from assms obtain a d b where s: "s = a @ d @ b" and a: "list_all isdigit a" and d: "d = [] \<or> d = ''.''"
    and b: "b \<noteq> []" "list_all isdigit b" by (auto simp: level_number_lang)
  show ?thesis
  proof (cases "d = []")
    case True
    with s a b have "list_all isdigit s" "s \<noteq> []" by simp_all
    moreover from this have "read_sign s = (False, s)" using read_sign_digits [of s "[]"] by simp
    ultimately show ?thesis
      by (simp add: read_fp_def read_decimal_def takeWhile_all dropWhile_all read_expo_def Let_def
          del: dropWhile_eq_Nil_conv)
  next
    case False
    with d have d: "d = ''.''" by simp
    have "read_sign s = (False, s)"
      using read_sign_digits [of a "CHR ''.'' # b"] a by (simp add: s d)
    moreover have "takeWhile isdigit s = a" "dropWhile isdigit s = CHR ''.'' # b"
      using takeWhile_digits [OF a] dropWhile_digits [OF a] by (simp_all only: s d append_Cons append_Nil)
    ultimately show ?thesis
      using b by (simp add: read_fp_def read_decimal_def takeWhile_all dropWhile_all read_expo_def Let_def
          del: dropWhile_eq_Nil_conv)
  qed
qed

text \<open>The number of a level as a \<open>float\<close>, whether the two numbers of a match are in its range, and the word.\<close>

definition level_value :: "string \<Rightarrow> fp" where
  "level_value s = (case read_fp binary32 s of None \<Rightarrow> NaN | Some x \<Rightarrow> x)"

definition level_fits :: "(nat \<Rightarrow> string) \<Rightarrow> bool" where
  "level_fits m \<longleftrightarrow> in_range (level_value (m 3)) \<and> (m 5 = [] \<or> in_range (level_value (m 5)))"

definition level_word :: "(nat \<Rightarrow> string) \<Rightarrow> string" where
  "level_word m = (if m 2 = [] then ''exact'' else lowercase (m 2))"

definition level_end :: "(nat \<Rightarrow> string) \<Rightarrow> string" where
  "level_end m = (if m 5 = [] then m 3 else m 5)"

lemma level_number_cast:
  assumes "s \<in> rx_lang True level_number_rx"
  shows "lexical_fp binary32 s = (if in_range (level_value s) then Some (level_value s) else None)"
proof -
  from assms obtain a d b where s: "s = a @ d @ b" and a: "list_all isdigit a" and d: "d = [] \<or> d = ''.''"
    and b: "b \<noteq> []" "list_all isdigit b" by (auto simp: level_number_lang)
  then have "s \<noteq> []" "isdigit (hd s) \<or> hd s = CHR ''.''"
    by (cases a; cases b; auto)+
  from lexical_fp_number [OF this] level_number_read [OF assms, of binary32] show ?thesis
    by (auto simp: level_value_def)
qed

text \<open>Which numbers a \<open>float\<close> can hold: those below \<open>2^128\<close> that do not round up to it.\<close>

lemma level_value_in_range:
  assumes "s \<in> rx_lang True level_number_rx"
  shows "\<exists>x. read_decimal s = Some x \<and> level_value s = rnd binary32 x
    \<and> (0 < x \<longrightarrow> (in_range (level_value s) \<longleftrightarrow> x < 2 ^ 128 - 2 ^ 103))"
proof -
  from level_number_read [OF assms, of binary32] obtain x where "read_decimal s = Some x"
    by (auto simp: read_fp_def)
  then show ?thesis using in_range_binary32 [of x] by (simp add: level_value_def read_fp_def)
qed

lemma level_match_groups:
  assumes "rx_match True level_rx spec = Some m"
  shows "m 2 = [] \<or> lowercase (m 2) \<in> set level_words"
    and "m 3 \<in> rx_lang True level_number_rx" and "m 5 = [] \<or> m 5 \<in> rx_lang True level_number_rx"
proof -
  show "m 2 = [] \<or> lowercase (m 2) \<in> set level_words"
    using rx_match_group [OF assms, of 2] level_words_lang by (auto dest!: level_rx_groups(1))
  have "3 \<in> rx_mandatory level_rx" by (simp add: level_rx_def)
  from rx_match_mandatory [OF assms this] show "m 3 \<in> rx_lang True level_number_rx"
    by (auto dest!: level_rx_groups(2))
  show "m 5 = [] \<or> m 5 \<in> rx_lang True level_number_rx"
    using rx_match_group [OF assms, of 5] by (auto dest!: level_rx_groups(3))
qed

lemma level_word_known:
  assumes "rx_match True level_rx spec = Some m"
  shows "level_word m \<in> set level_words"
  using level_match_groups(1) [OF assms] by (auto simp: level_word_def level_words_def)

lemma LevelSpecification_new_eq:
  assumes "documented E" and m: "rx_match True level_rx spec = Some m"
  shows "LevelSpecification_new E spec = (if level_fits m
    then Inr \<lparr>ls_from = level_value (m 3), ls_to = level_value (level_end m), ls_parameter = lowercase (m 6),
      ls_indeterminate = level_word m\<rparr>
    else Inl (Logic_error (''Unable to interpret level specification: '' @ spec)))"
proof -
  have "lexical_fp binary32 (m 3) = (if in_range (level_value (m 3)) then Some (level_value (m 3)) else None)"
    by (rule level_number_cast [OF level_match_groups(2) [OF m]])
  moreover have "lexical_fp binary32 (m 5) = (if in_range (level_value (m 5)) then Some (level_value (m 5)) else None)"
    if "m 5 \<noteq> []" using that level_number_cast level_match_groups(3) [OF m] by blast
  ultimately show ?thesis
    using assms by (simp add: LevelSpecification_new_def level_fits_def level_word_def level_end_def Let_def)
qed

text \<open>The texts that are accepted: those of the pattern whose numbers a \<open>float\<close> can hold.\<close>

definition level_accepted :: "string \<Rightarrow> bool" where
  "level_accepted spec \<longleftrightarrow> (case rx_match True level_rx spec of None \<Rightarrow> False | Some m \<Rightarrow> level_fits m)"

lemma LevelSpecification_accepts:
  assumes "documented E"
  shows "(\<exists>l. LevelSpecification_new E spec = Inr l) \<longleftrightarrow> level_accepted spec"
proof (cases "rx_match True level_rx spec")
  case None
  with assms show ?thesis by (simp add: LevelSpecification_new_def level_accepted_def)
next
  case (Some m)
  with LevelSpecification_new_eq [OF assms Some] show ?thesis by (simp add: level_accepted_def)
qed

section \<open>Lemmas on parameter names\<close>


definition normal_space :: "string \<Rightarrow> bool" where
  "normal_space s \<longleftrightarrow> (\<forall>i < length s. isspace (s ! i) \<longrightarrow>
     s ! i = CHR '' '' \<and> (Suc i < length s \<longrightarrow> \<not> isspace (s ! Suc i)))"

lemma isspace_blank [simp]: "isspace (CHR '' '')"
  by (simp add: isspace_def code_def)

lemma normal_space_Nil [simp]: "normal_space []"
  by (simp add: normal_space_def)









lemma replace_whitespace: "rx_replace_all whitespace_rx '' '' s = collapse_space s"
  by (simp only: whitespace_rx_def replace_all_space)


lemma LevelParameterType_new_eq:
  "documented E \<Longrightarrow> spec \<noteq> [] \<Longrightarrow> LevelParameterType_new E spec =
     Inr \<lparr>spec_text = collapse_space (lowercase spec),
          isPattern = scan_wildcards (collapse_space (lowercase spec)) 0\<rparr>"
  by (simp add: LevelParameterType_new_def replace_whitespace Let_def)

section \<open>Properties\<close>

lemma time_example:
  "TimeSpecification_new (boost_ref :: unit boost) ''inside 2009 TO 2010'' =
     Inr \<lparr>ts_indeterminate = ''inside'', ts_from = ''2009'', ts_other = ''2010'', ts_durationInsteadOfTo = False\<rparr>"
  by code_simp

text \<open>The three answers of \<open>levelSpec\<close>: a text outside the pattern, a text of the pattern with a number that no \<open>float\<close>
  can hold, and a row whose code is the position of the word in the level table (the lookup never fails).\<close>

lemma level_specification_total:
  assumes "documented E"
  shows "rx_match True level_rx spec = None \<Longrightarrow> levelSpec E spec =
      Inl (Ereport ERRCODE_INVALID_TEXT_REPRESENTATION (''Invalid level specification: '' @ spec))"
    and "rx_match True level_rx spec = Some m \<Longrightarrow> \<not> level_fits m \<Longrightarrow> levelSpec E spec =
      Inl (Ereport ERRCODE_INVALID_TEXT_REPRESENTATION (''Unable to interpret level specification: '' @ spec))"
    and "rx_match True level_rx spec = Some m \<Longrightarrow> level_fits m \<Longrightarrow> \<exists>i < 5. levelIndetTypes ! i = level_word m
      \<and> levelSpec E spec = Inr (level_value (m 3), level_value (level_end m), lowercase (m 6), int i)"
proof -
  show "levelSpec E spec = Inl (Ereport ERRCODE_INVALID_TEXT_REPRESENTATION (''Invalid level specification: '' @ spec))"
    if "rx_match True level_rx spec = None"
    using that assms by (simp add: levelSpec_def LevelSpecification_new_def report_std_def)
  show "levelSpec E spec =
      Inl (Ereport ERRCODE_INVALID_TEXT_REPRESENTATION (''Unable to interpret level specification: '' @ spec))"
    if "rx_match True level_rx spec = Some m" "\<not> level_fits m"
    using that LevelSpecification_new_eq [OF assms that(1)] by (simp add: levelSpec_def report_std_def)
  assume m: "rx_match True level_rx spec = Some m" and fits: "level_fits m"
  have word: "level_word m \<in> set level_words" by (rule level_word_known [OF m])
  then have low: "lowercase (level_word m) = level_word m" "level_word m \<noteq> []"
    by (auto simp: level_words_lower) (auto simp: level_words_def)
  have "set level_words = set levelIndetTypes" by (auto simp: level_words_def levelIndetTypes_def)
  with word obtain i where i: "scan_names levelIndetTypes 0 (level_word m) = Some i"
    by (metis not_None_eq scan_names_None)
  then have "i < length levelIndetTypes" "levelIndetTypes ! i = level_word m" by (simp_all only: scan_names_Some) simp_all
  moreover have "length levelIndetTypes = 5" by (simp add: levelIndetTypes_def)
  moreover have "wciNamedInteger_new levelIndetTypes = Inr \<lparr>names_of = levelIndetTypes\<rparr>"
    by (simp add: wciNamedInteger_new_def levelIndetTypes_def)
  then have "levelSpec E spec = Inr (level_value (m 3), level_value (level_end m), lowercase (m 6), int i)"
    using i low LevelSpecification_new_eq [OF assms m] fits by (simp add: levelSpec_def number_of_name_def)
  ultimately show "\<exists>i < 5. levelIndetTypes ! i = level_word m
      \<and> levelSpec E spec = Inr (level_value (m 3), level_value (level_end m), lowercase (m 6), int i)" by auto
qed

lemma level_example:
  "levelSpec (boost_ref :: unit boost) ''above 2 TO 10 m'' = Inr (Fin 2, Fin 10, ''m'', 2)"
  by code_simp

text \<open>A number with forty digits is in the pattern and out of the range of a \<open>float\<close>.\<close>

lemma level_out_of_range:
  "LevelSpecification_new (boost_ref :: unit boost) (replicate 40 (CHR ''9'') @ '' m'') =
     Inl (Logic_error (''Unable to interpret level specification: '' @ replicate 40 (CHR ''9'') @ '' m''))"
  by code_simp



text \<open>The unit tests of the repository (\<open>src/callInterface/types/test\<close>), evaluated on the model.\<close>

lemma ValueParameterType_tests:
  "ValueParameterType_new (boost_ref :: unit boost) ''InSTaNT  Temperature of Air'' =
     Inr \<lparr>spec_text = ''temperature of air'', isPattern = False\<rparr>"
  "ValueParameterType_new (boost_ref :: unit boost) ''max % of air'' =
     Inr \<lparr>spec_text = ''max % of air'', isPattern = True\<rparr>"
  by code_simp+

end
