(* ===== verification/Captures.thy ===== *)
theory Captures
  imports Externals "HOL-Library.Sublist"
begin

text \<open>
  What a group of a regular expression captures is a piece of the subject: the lemma that carries facts about the
  bytes of an argument (no zero byte, a bounded size) to the texts that are cut out of it. A pattern
  without groups of its own captures nothing, so the captures of a sequence of groups are the parts of its match.
\<close>

text \<open>A step \<open>f\<close> over a tail of the subject \<open>w\<close> leaves a tail of it and captures pieces of \<open>w\<close>.\<close>

definition pieces :: "string \<Rightarrow> caps \<Rightarrow> bool" where
  "pieces w c \<longleftrightarrow> (\<forall>(i, t) \<in> set c. sublist t w)"

definition stays_inside :: "string \<Rightarrow> (caps \<Rightarrow> string \<Rightarrow> (caps \<times> string) list) \<Rightarrow> bool" where
  "stays_inside w f \<longleftrightarrow> (\<forall>c s c' s'. suffix s w \<longrightarrow> pieces w c \<longrightarrow> (c', s') \<in> set (f c s) \<longrightarrow>
     suffix s' w \<and> pieces w c')"

lemma stays_insideD:
  assumes "stays_inside w f" and "suffix s w" and "pieces w c" and "(c', s') \<in> set (f c s)"
  shows "suffix s' w" "pieces w c'"
  using assms unfolding stays_inside_def by blast+

lemma rx_loop_inside:
  assumes f: "stays_inside w f"
  shows "suffix s w \<Longrightarrow> pieces w c \<Longrightarrow> (c', s') \<in> set (rx_loop g n f c s) \<Longrightarrow> suffix s' w \<and> pieces w c'"
proof (induction n arbitrary: c s)
  case (Suc n)
  from Suc.prems(3) consider "c' = c" "s' = s"
    | c1 s1 where "(c1, s1) \<in> set (f c s)" "(c', s') \<in> set (rx_loop g n f c1 s1)"
    by (auto simp: Let_def split: if_splits)
  then show ?case
  proof cases
    case 2
    from Suc.IH [OF stays_insideD [OF f Suc.prems(1,2) 2(1)] 2(2)] show ?thesis .
  qed (use Suc.prems in simp)
qed simp

lemma rx_rep_inside:
  assumes f: "stays_inside w f"
  shows "suffix s w \<Longrightarrow> pieces w c \<Longrightarrow> (c', s') \<in> set (rx_rep n f c s) \<Longrightarrow> suffix s' w \<and> pieces w c'"
proof (induction n arbitrary: c s)
  case (Suc n)
  then obtain c1 s1 where 1: "(c1, s1) \<in> set (f c s)" "(c', s') \<in> set (rx_rep n f c1 s1)" by auto
  from Suc.IH [OF stays_insideD [OF f Suc.prems(1,2) 1(1)] 1(2)] show ?case .
qed simp

lemma stays_insideI:
  "(\<And>c s c' s'. suffix s w \<Longrightarrow> pieces w c \<Longrightarrow> (c', s') \<in> set (f c s) \<Longrightarrow> suffix s' w \<and> pieces w c') \<Longrightarrow>
   stays_inside w f"
  unfolding stays_inside_def by blast

lemma rx_run_inside: "stays_inside w (rx_run ic r)"
proof (induction r)
  case (C k)
  show ?case
  proof (rule stays_insideI)
    fix c s c' s' assume s: "suffix s w" "pieces w c" and run: "(c', s') \<in> set (rx_run ic (C k) c s)"
    from run obtain x where "s = x # s'" "c' = c" by (auto split: list.splits if_splits)
    with s show "suffix s' w \<and> pieces w c'" by (auto simp: suffix_def)
  qed
next
  case (Cat p q)
  show ?case
  proof (rule stays_insideI)
    fix c s c' s' assume s: "suffix s w" "pieces w c" and "(c', s') \<in> set (rx_run ic (Cat p q) c s)"
    then obtain c1 s1 where 1: "(c1, s1) \<in> set (rx_run ic p c s)" and 2: "(c', s') \<in> set (rx_run ic q c1 s1)" by auto
    from stays_insideD [OF Cat.IH(2) stays_insideD [OF Cat.IH(1) s 1] 2] show "suffix s' w \<and> pieces w c'" ..
  qed
next
  case (Alt p q)
  show ?case
  proof (rule stays_insideI)
    fix c s c' s' assume s: "suffix s w" "pieces w c" and "(c', s') \<in> set (rx_run ic (Alt p q) c s)"
    then consider "(c', s') \<in> set (rx_run ic p c s)" | "(c', s') \<in> set (rx_run ic q c s)" by auto
    then show "suffix s' w \<and> pieces w c'"
      using stays_insideD [OF Alt.IH(1) s] stays_insideD [OF Alt.IH(2) s] by cases blast+
  qed
next
  case (Opt p)
  show ?case
  proof (rule stays_insideI)
    fix c s c' s' assume s: "suffix s w" "pieces w c" and "(c', s') \<in> set (rx_run ic (Opt p) c s)"
    then consider "(c', s') \<in> set (rx_run ic p c s)" | "c' = c" "s' = s" by auto
    then show "suffix s' w \<and> pieces w c'"
      using stays_insideD [OF Opt.IH s] s by cases blast+
  qed
next
  case (Star p)
  show ?case
  proof (rule stays_insideI)
    fix c s c' s' assume s: "suffix s w" "pieces w c" and "(c', s') \<in> set (rx_run ic (Star p) c s)"
    then have "(c', s') \<in> set (rx_loop True (length s) (rx_run ic p) c s)" by simp
    from rx_loop_inside [OF Star.IH s this] show "suffix s' w \<and> pieces w c'" .
  qed
next
  case (Plus p)
  show ?case
  proof (rule stays_insideI)
    fix c s c' s' assume s: "suffix s w" "pieces w c" and "(c', s') \<in> set (rx_run ic (Plus p) c s)"
    then obtain c1 s1 where 1: "(c1, s1) \<in> set (rx_run ic p c s)"
      and 2: "(c', s') \<in> set (rx_loop True (length s1) (rx_run ic p) c1 s1)" by auto
    from rx_loop_inside [OF Plus.IH stays_insideD [OF Plus.IH s 1] 2] show "suffix s' w \<and> pieces w c'" .
  qed
next
  case (LazyStar p)
  show ?case
  proof (rule stays_insideI)
    fix c s c' s' assume s: "suffix s w" "pieces w c" and "(c', s') \<in> set (rx_run ic (LazyStar p) c s)"
    then have "(c', s') \<in> set (rx_loop False (length s) (rx_run ic p) c s)" by simp
    from rx_loop_inside [OF LazyStar.IH s this] show "suffix s' w \<and> pieces w c'" .
  qed
next
  case (Rep n p)
  show ?case
  proof (rule stays_insideI)
    fix c s c' s' assume s: "suffix s w" "pieces w c" and "(c', s') \<in> set (rx_run ic (Rep n p) c s)"
    then have "(c', s') \<in> set (rx_rep n (rx_run ic p) c s)" by simp
    from rx_rep_inside [OF Rep.IH s this] show "suffix s' w \<and> pieces w c'" .
  qed
next
  case (Grp i p)
  show ?case
  proof (rule stays_insideI)
    fix c s c' s' assume s: "suffix s w" "pieces w c" and "(c', s') \<in> set (rx_run ic (Grp i p) c s)"
    then obtain c1 where 1: "(c1, s') \<in> set (rx_run ic p c s)" and c': "c' = (i, take (length s - length s') s) # c1" by auto
    have "sublist (take (length s - length s') s) w"
      using s(1) by (meson sublist_order.order.trans sublist_take suffix_imp_sublist)
    with stays_insideD [OF Grp.IH s 1] c' show "suffix s' w \<and> pieces w c'" by (simp add: pieces_def)
  qed
qed (simp add: stays_inside_def)

lemma rx_match_piece:
  assumes "rx_match ic r s = Some m"
  shows "sublist (m i) s"
proof -
  from assms obtain c where 1: "(c, []) \<in> set (rx_run ic r [] s)"
    and m: "m = (\<lambda>i. case map_of c i of Some t \<Rightarrow> t | None \<Rightarrow> [])"
    by (rule rx_match_SomeD)
  have "pieces s c" using stays_insideD(2) [OF rx_run_inside _ _ 1] by (simp add: pieces_def)
  then show ?thesis using m by (auto simp: pieces_def split: option.split dest: map_of_SomeD)
qed

section \<open>Patterns without groups\<close>

lemma rx_loop_no_groups:
  assumes "\<And>c s c' s'. (c', s') \<in> set (f c s) \<Longrightarrow> c' = c"
  shows "(c', s') \<in> set (rx_loop g n f c s) \<Longrightarrow> c' = c"
proof (induction n arbitrary: c s)
  case (Suc n)
  from Suc.prems consider "c' = c"
    | c1 s1 where "(c1, s1) \<in> set (f c s)" "(c', s') \<in> set (rx_loop g n f c1 s1)"
    by (auto simp: Let_def split: if_splits)
  then show ?case
  proof cases
    case 2
    with Suc.IH [OF 2(2)] assms [OF 2(1)] show ?thesis by simp
  qed
qed simp

lemma rx_rep_no_groups:
  assumes "\<And>c s c' s'. (c', s') \<in> set (f c s) \<Longrightarrow> c' = c"
  shows "(c', s') \<in> set (rx_rep n f c s) \<Longrightarrow> c' = c"
proof (induction n arbitrary: c s)
  case (Suc n)
  then obtain c1 s1 where 1: "(c1, s1) \<in> set (f c s)" "(c', s') \<in> set (rx_rep n f c1 s1)" by auto
  with Suc.IH [OF 1(2)] assms [OF 1(1)] show ?case by simp
qed simp

lemma rx_run_no_groups: "rx_numbers r = [] \<Longrightarrow> (c', s') \<in> set (rx_run ic r c s) \<Longrightarrow> c' = c"
proof (induction r arbitrary: c s c' s')
  case (C k)
  then show ?case by (auto split: list.splits if_splits)
next
  case (Cat p q)
  from Cat.prems obtain c1 s1 where 1: "(c1, s1) \<in> set (rx_run ic p c s)" "(c', s') \<in> set (rx_run ic q c1 s1)" by auto
  have "c1 = c" by (rule Cat.IH(1) [OF _ 1(1)]) (use Cat.prems in simp)
  moreover have "c' = c1" by (rule Cat.IH(2) [OF _ 1(2)]) (use Cat.prems in simp)
  ultimately show ?case by simp
next
  case (Plus p)
  have f: "(c', s') \<in> set (rx_run ic p c s) \<Longrightarrow> c' = c" for c s c' s' using Plus.IH Plus.prems(1) by simp
  from Plus.prems obtain c1 s1 where 1: "(c1, s1) \<in> set (rx_run ic p c s)"
    and 2: "(c', s') \<in> set (rx_loop True (length s1) (rx_run ic p) c1 s1)" by auto
  have "c' = c1" by (rule rx_loop_no_groups [OF f 2])
  with f [OF 1] show ?case by simp
next
  case (Star p)
  have f: "(c', s') \<in> set (rx_run ic p c s) \<Longrightarrow> c' = c" for c s c' s' using Star.IH Star.prems(1) by simp
  show ?case by (rule rx_loop_no_groups [OF f]) (use Star.prems in simp_all)
next
  case (LazyStar p)
  have f: "(c', s') \<in> set (rx_run ic p c s) \<Longrightarrow> c' = c" for c s c' s' using LazyStar.IH LazyStar.prems(1) by simp
  show ?case by (rule rx_loop_no_groups [OF f]) (use LazyStar.prems in simp_all)
next
  case (Rep n p)
  have f: "(c', s') \<in> set (rx_run ic p c s) \<Longrightarrow> c' = c" for c s c' s' using Rep.IH Rep.prems(1) by simp
  show ?case by (rule rx_rep_no_groups [OF f]) (use Rep.prems in simp_all)
qed auto

text \<open>A group over such a pattern captures what it matched.\<close>

lemma rx_run_group:
  assumes "rx_numbers r = []" and "(c', s') \<in> set (rx_run ic (Grp i r) c s)"
  shows "\<exists>t. s = t @ s' \<and> t \<in> rx_lang ic r \<and> c' = (i, t) # c"
proof -
  from assms(2) obtain c1 where 1: "(c1, s') \<in> set (rx_run ic r c s)" and c': "c' = (i, take (length s - length s') s) # c1" by auto
  from consumesD(1) [OF rx_run_sound 1] obtain t where "t \<in> rx_lang ic r" "s = t @ s'" by blast
  with c' rx_run_no_groups [OF assms(1) 1] show ?thesis by auto
qed

section \<open>What a Spirit action is given\<close>

text \<open>The text that an action gets, and what is left to parse, are made of characters of the subject.\<close>

fun confined :: "char set \<Rightarrow> 'a sp_result \<Rightarrow> bool" where
  "confined A (r, ev) \<longleftrightarrow> (\<forall>e \<in> set ev. set (fst (snd e)) \<subseteq> A)
     \<and> (case r of None \<Rightarrow> True | Some (s', m, v) \<Rightarrow> set s' \<subseteq> A)"

lemma confined_mono: "confined A x \<Longrightarrow> A \<subseteq> B \<Longrightarrow> confined B x"
  by (cases x) (auto split: option.splits)

lemma confined_events: "confined A (r, ev) \<Longrightarrow> confined A (r', ev') \<Longrightarrow> confined A (r', ev @ ev')"
  by auto

lemma confined_none: "confined A (r, ev) \<Longrightarrow> confined A (None, ev)"
  by simp

lemma confined_start: "confined A (Some (s', m, v), ev) \<Longrightarrow> confined A (Some (s', n, w), ev)"
  by simp

definition sp_within :: "(string \<Rightarrow> 'a sp_result) \<Rightarrow> bool" where
  "sp_within f \<longleftrightarrow> (\<forall>s. confined (set s) (f s))"

lemma sp_withinI: "(\<And>s. confined (set s) (f s)) \<Longrightarrow> sp_within f"
  by (simp add: sp_within_def)

lemma sp_withinD: "sp_within f \<Longrightarrow> f s = x \<Longrightarrow> confined (set s) x"
  by (auto simp: sp_within_def)

lemma set_skip: "set (dropWhile P s) \<subseteq> set s"
  by (auto dest: set_dropWhileD)

lemma set_sign: "read_sign s = (neg, s') \<Longrightarrow> set s' \<subseteq> set s"
  by (auto simp: read_sign_def split: list.splits if_splits)

lemma set_prefix: "sp_prefix nc w s = Some (s', m, v) \<Longrightarrow> set s' \<subseteq> set s"
  using set_drop_subset [of "length w" "skip_space s"] set_skip [of isspace s]
  by (auto simp: sp_prefix_def Let_def split: if_splits)

lemma set_char: "sp_char nc P s = Some (s', m, v) \<Longrightarrow> set s' \<subseteq> set s"
  using set_skip [of isspace s] by (auto simp: sp_char_def split: list.splits if_splits)

lemma set_int: "sp_int s = Some (s', m, v) \<Longrightarrow> set s' \<subseteq> set s"
proof -
  assume *: "sp_int s = Some (s', m, v)"
  obtain neg s1 where s1: "read_sign (skip_space s) = (neg, s1)" by fastforce
  have "s' = drop (length (takeWhile isdigit s1)) s1" using * by (auto simp: sp_int_def s1 Let_def split: if_splits)
  with set_sign [OF s1] set_skip [of isspace s] set_drop_subset [of "length (takeWhile isdigit s1)" s1]
  show ?thesis by blast
qed

lemma set_exponent: "sp_exponent n s = Some (s', m, v) \<Longrightarrow> set s' \<subseteq> set s"
proof -
  assume *: "sp_exponent n s = Some (s', m, v)"
  obtain neg s1 where s1: "read_sign (tl s) = (neg, s1)" by fastforce
  have "set (tl s) \<subseteq> set s" by (cases s) auto
  with * set_sign [OF s1] set_drop_subset [of "length (takeWhile isdigit s1)" s1] show ?thesis
    by (auto simp: sp_exponent_def s1 Let_def split: if_splits)
qed

lemma set_real: "sp_real s = Some (s', m, v) \<Longrightarrow> set s' \<subseteq> set s"
proof -
  assume *: "sp_real s = Some (s', m, v)"
  obtain neg s1 where s1: "read_sign (skip_space s) = (neg, s1)" by fastforce
  define s2 where "s2 = drop (length (takeWhile isdigit s1)) s1"
  have s2: "set s2 \<subseteq> set s1" by (simp add: s2_def set_drop_subset)
  then have "set (tl s2) \<subseteq> set s1" by (cases s2) auto
  moreover obtain s3 where "sp_exponent (length (skip_space s)) s3 = Some (s', m, v)"
    and "s3 = s2 \<or> (\<exists>n. s3 = drop n (tl s2))"
    using * by (auto simp: sp_real_def s1 Let_def s2_def [symmetric] split: if_splits)
  ultimately show ?thesis
    using set_exponent set_sign [OF s1] set_skip [of isspace s] s2 set_drop_subset [of _ "tl s2"] by blast
qed

lemma confined_then:
  assumes "confined A (Some (s', m, v), ev)" and "confined (set s') (r, ev')"
  shows "confined A (r, ev @ ev')"
  using confined_events [OF assms(1) confined_mono [OF assms(2)]] assms(1) by simp

lemma sp_loop_within:
  assumes f: "sp_within f"
  shows "confined (set s) (sp_loop k f s n)"
proof (induction k arbitrary: s n)
  case (Suc k)
  obtain q ev1 where q: "f s = (q, ev1)" by fastforce
  note 1 = sp_withinD [OF f q]
  show ?case
  proof (cases q)
    case None
    with q 1 show ?thesis by simp
  next
    case (Some t)
    obtain s1 m1 v1 where t: "t = (s1, m1, v1)" by (cases t)
    obtain r2 ev2 where r2: "sp_loop k f s1 (n + m1) = (r2, ev2)" by fastforce
    have "confined (set s1) (r2, ev2)" using Suc.IH [of s1 "n + m1"] r2 by (simp only:)
    from confined_then [OF 1 [unfolded Some t] this] have "confined (set s) (r2, ev1 @ ev2)" .
    with q 1 r2 Some t show ?thesis by simp
  qed
qed simp

lemma sp_within_prim: "(\<And>s s' m v. g s = Some (s', m, v) \<Longrightarrow> set s' \<subseteq> set s) \<Longrightarrow> sp_within (\<lambda>s. (g s, []))"
  by (rule sp_withinI) (simp split: option.split, blast)

theorem sp_run_within: "sp_within (sp_run p nc)"
proof (induction p arbitrary: nc)
  case (SStr w)
  show ?case unfolding sp_run.simps by (rule sp_within_prim) (rule set_prefix)
next
  case (SCh c)
  show ?case unfolding sp_run.simps by (rule sp_within_prim) (rule set_char)
next
  case SAny
  show ?case unfolding sp_run.simps by (rule sp_within_prim) (rule set_char)
next
  case SLower
  show ?case unfolding sp_run.simps by (rule sp_within_prim) (rule set_char)
next
  case SInt
  show ?case unfolding sp_run.simps by (rule sp_within_prim) (rule set_int)
next
  case SReal
  show ?case unfolding sp_run.simps by (rule sp_within_prim) (rule set_real)
next
  case (SSeq p q)
  show ?case
  proof (rule sp_withinI)
    fix s
    obtain r1 ev1 where 1: "sp_run p nc s = (r1, ev1)" by fastforce
    note w = sp_withinD [OF SSeq.IH(1) 1]
    show "confined (set s) (sp_run (SSeq p q) nc s)"
    proof (cases r1)
      case None
      with 1 w show ?thesis by simp
    next
      case (Some t)
      obtain s1 m1 v1 where t: "t = (s1, m1, v1)" by (cases t)
      obtain r2 ev2 where 2: "sp_run q nc s1 = (r2, ev2)" by fastforce
      have "confined (set s) (r2, ev1 @ ev2)" using confined_then [OF w [unfolded Some t] sp_withinD [OF SSeq.IH(2) 2]] .
      with 1 2 Some t show ?thesis by (cases r2) auto
    qed
  qed
next
  case (SAlt p q)
  show ?case
  proof (rule sp_withinI)
    fix s
    obtain r1 ev1 where 1: "sp_run p nc s = (r1, ev1)" by fastforce
    obtain r2 ev2 where 2: "sp_run q nc s = (r2, ev2)" by fastforce
    note w = sp_withinD [OF SAlt.IH(1) 1] sp_withinD [OF SAlt.IH(2) 2]
    show "confined (set s) (sp_run (SAlt p q) nc s)"
    proof (cases r1)
      case None
      with 1 2 confined_events [OF w] show ?thesis by simp
    qed (use 1 w in simp)
  qed
next
  case (SOpt p)
  show ?case
  proof (rule sp_withinI)
    fix s
    obtain r1 ev1 where 1: "sp_run p nc s = (r1, ev1)" by fastforce
    with sp_withinD [OF SOpt.IH 1] show "confined (set s) (sp_run (SOpt p) nc s)" by (cases r1) auto
  qed
next
  case (SStar p)
  show ?case unfolding sp_run.simps by (rule sp_withinI) (rule sp_loop_within [OF SStar.IH])
next
  case (SPlus p)
  show ?case
  proof (rule sp_withinI)
    fix s
    obtain r1 ev1 where 1: "sp_run p nc s = (r1, ev1)" by fastforce
    note w = sp_withinD [OF SPlus.IH 1]
    show "confined (set s) (sp_run (SPlus p) nc s)"
    proof (cases r1)
      case None
      with 1 w show ?thesis by simp
    next
      case (Some t)
      obtain s1 m1 v1 where t: "t = (s1, m1, v1)" by (cases t)
      obtain r2 ev2 where 2: "sp_loop (length s1) (sp_run p nc) s1 m1 = (r2, ev2)" by fastforce
      have "confined (set s1) (r2, ev2)" using sp_loop_within [OF SPlus.IH [of nc], of s1 "length s1" m1] 2 by (simp only:)
      from confined_then [OF w [unfolded Some t] this] 1 2 Some t show ?thesis by simp
    qed
  qed
next
  case (SDiff p q)
  show ?case
  proof (rule sp_withinI)
    fix s
    obtain r1 ev1 where 1: "sp_run p nc s = (r1, ev1)" by fastforce
    obtain r2 ev2 where 2: "sp_run q nc s = (r2, ev2)" by fastforce
    note w = sp_withinD [OF SDiff.IH(1) 1] sp_withinD [OF SDiff.IH(2) 2]
    have "confined (set s) (r1, ev1 @ ev2)" "confined (set s) (None, ev1 @ ev2)" using w by auto
    with w 1 2 show "confined (set s) (sp_run (SDiff p q) nc s)" by (auto split: option.splits)
  qed
next
  case (SNoCase p)
  then show ?case by simp
next
  case (SAct a p)
  show ?case
  proof (rule sp_withinI)
    fix s
    obtain r1 ev1 where 1: "sp_run p nc (skip_space s) = (r1, ev1)" by fastforce
    have w: "confined (set s) (r1, ev1)" by (rule confined_mono [OF sp_withinD [OF SAct.IH 1] set_skip])
    have t: "set (take n (skip_space s)) \<subseteq> set s" for n
      using set_take_subset [of n "skip_space s"] set_skip [of isspace s] by blast
    show "confined (set s) (sp_run (SAct a p) nc s)"
      using 1 w t by (cases r1) (auto simp: Let_def)
  qed
qed

end
