(* ===== verification/TimeText.thy ===== *)
theory TimeText
  imports Specifications Captures
begin

text \<open>
  What a time specification means as a text. The constructor of \<open>TimeSpecification\<close> leaves the reading to one regular
  expression with an optional word, a lazy start and an optional range, so what the fields get depends on the order in
  which a Perl matcher tries its alternatives. This theory has a direct reader of such texts, \<open>read_time\<close>, without
  backtracking over characters: the word if one of the five is there, blanks, the shortest time point that leaves nothing
  or a range, the range. The first complete match of the pattern captures exactly what the reader reads.
\<close>

section \<open>The first complete way to match\<close>

fun first_full :: "(caps \<times> string) list \<Rightarrow> caps option" where
  "first_full [] = None"
| "first_full ((c, s) # xs) = (if s = [] then Some c else first_full xs)"

fun first_some :: "('a \<Rightarrow> 'b option) \<Rightarrow> 'a list \<Rightarrow> 'b option" where
  "first_some f [] = None"
| "first_some f (x # xs) = (case f x of None \<Rightarrow> first_some f xs | Some y \<Rightarrow> Some y)"

lemma first_some_append:
  "first_some f (xs @ ys) = (case first_some f xs of None \<Rightarrow> first_some f ys | Some y \<Rightarrow> Some y)"
  by (induction xs) (auto split: option.splits)

lemma first_some_map: "first_some f (map g xs) = first_some (\<lambda>x. f (g x)) xs"
  by (induction xs) (auto split: option.splits)

lemma first_some_None: "(\<And>x. x \<in> set xs \<Longrightarrow> f x = None) \<Longrightarrow> first_some f xs = None"
  by (induction xs) simp_all

lemma first_some_cong: "(\<And>x. x \<in> set xs \<Longrightarrow> f x = g x) \<Longrightarrow> first_some f xs = first_some g xs"
  by (induction xs) (auto split: option.splits)

lemma first_full_append:
  "first_full (xs @ ys) = (case first_full xs of None \<Rightarrow> first_full ys | Some y \<Rightarrow> Some y)"
  by (induction xs rule: first_full.induct) auto

lemma first_full_concat: "first_full (concat (map g ys)) = first_some (\<lambda>y. first_full (g y)) ys"
  by (induction ys) (simp_all add: first_full_append split: option.splits)

lemma first_full_Cat:
  "first_full (rx_run ic (Cat p q) c s) = first_some (\<lambda>(c', s'). first_full (rx_run ic q c' s')) (rx_run ic p c s)"
  by (simp add: first_full_concat) (auto intro!: first_some_cong)

lemma first_full_filter: "first_full xs = (case filter (\<lambda>(c, s'). s' = []) xs of [] \<Rightarrow> None | x # _ \<Rightarrow> Some (fst x))"
  by (induction xs rule: first_full.induct) auto

lemma rx_match_first:
  "rx_match ic r s = map_option (\<lambda>c i. case map_of c i of Some t \<Rightarrow> t | None \<Rightarrow> []) (first_full (rx_run ic r [] s))"
  by (simp add: rx_match_def first_full_filter split: list.splits)

section \<open>Blanks, words and the dots between them\<close>

definition blank_first :: "string \<Rightarrow> bool" where
  "blank_first s \<longleftrightarrow> s \<noteq> [] \<and> isspace (hd s)"

text \<open>A greedy run of blanks followed by a step that never starts with a blank takes all the blanks.\<close>

definition no_blank_first :: "(caps \<Rightarrow> string \<Rightarrow> caps option) \<Rightarrow> bool" where
  "no_blank_first f \<longleftrightarrow> (\<forall>c s. blank_first s \<longrightarrow> f c s = None)"

lemma greedy_blanks:
  assumes "no_blank_first f" and g: "\<And>c s. g c s = (case s of x # s' \<Rightarrow> (if isspace x then [(c, s')] else []) | [] \<Rightarrow> [])"
  shows "length s \<le> n \<Longrightarrow> first_some (\<lambda>(c', s'). f c' s') (rx_loop True n g c s) = f c (dropWhile isspace s)"
proof (induction n arbitrary: s)
  case (Suc n)
  show ?case
  proof (cases "blank_first s")
    case True
    then obtain x r where s: "s = x # r" "isspace x" by (cases s) (auto simp: blank_first_def)
    have "f c s = None" using assms(1) True by (simp add: no_blank_first_def)
    with Suc.IH [of r] Suc.prems s show ?thesis
      by (simp add: g first_some_append split: option.splits)
  next
    case False
    then show ?thesis by (cases s) (simp_all add: blank_first_def g split: option.splits)
  qed
qed (simp split: option.splits)

lemma run_blank: "rx_run ic (C CSpace) c s = (case s of x # s' \<Rightarrow> (if isspace x then [(c, s')] else []) | [] \<Rightarrow> [])"
  by (simp split: list.split)

lemma blanks_star:
  assumes "no_blank_first (\<lambda>c s. first_full (rx_run ic q c s))"
  shows "first_full (rx_run ic (Cat (Star (C CSpace)) q) c s) = first_full (rx_run ic q c (dropWhile isspace s))"
  unfolding first_full_Cat rx_run.simps(6) by (rule greedy_blanks [OF assms run_blank]) simp

lemma blanks_plus:
  assumes "no_blank_first (\<lambda>c s. first_full (rx_run ic q c s))"
  shows "first_full (rx_run ic (Cat (Plus (C CSpace)) q) c s) =
    (if blank_first s then first_full (rx_run ic q c (dropWhile isspace s)) else None)"
proof (cases "blank_first s")
  case True
  then obtain x r where s: "s = x # r" "isspace x" by (cases s) (auto simp: blank_first_def)
  have "first_full (rx_run ic (Cat (Plus (C CSpace)) q) c s) =
      first_some (\<lambda>(c', s'). first_full (rx_run ic q c' s')) (rx_loop True (length r) (rx_run ic (C CSpace)) c r)"
    unfolding first_full_Cat rx_run.simps(7) run_blank [of ic c s] using s by (simp del: rx_run.simps(2))
  also have "\<dots> = first_full (rx_run ic q c (dropWhile isspace r))" by (rule greedy_blanks [OF assms run_blank]) simp
  finally show ?thesis using s True by simp
next
  case False
  then have "rx_run ic (Plus (C CSpace)) c s = []" by (cases s) (auto simp: blank_first_def)
  then show ?thesis using False by (simp only: first_full_Cat) simp
qed

lemma run_word:
  "w \<noteq> [] \<Longrightarrow>
     rx_run True (rx_word w) c s = (if lowercase (take (length w) s) = lowercase w then [(c, drop (length w) s)] else [])"
proof (induction w arbitrary: s rule: rx_word.induct)
  case (2 x)
  then show ?case by (cases s) (auto simp: eq_commute)
next
  case (3 x y ws)
  show ?case
  proof (cases s)
    case (Cons z r)
    with 3(1) [of r] show ?thesis by (auto simp: eq_commute)
  qed simp
qed simp

text \<open>Any characters, the fewest or the most first.\<close>

lemma lazy_dots:
  assumes g: "\<And>c s. g c s = (case s of x # s' \<Rightarrow> [(c, s')] | [] \<Rightarrow> [])"
  shows "length s \<le> n \<Longrightarrow> rx_loop False n g c s = map (\<lambda>k. (c, drop k s)) [0..<Suc (length s)]"
proof (induction n arbitrary: s)
  case (Suc n)
  show ?case
  proof (cases s)
    case (Cons x r)
    with Suc show ?thesis
      by (simp add: g upt_conv_Cons map_Suc_upt [symmetric] comp_def del: upt_Suc)
  qed (simp add: g)
qed simp

lemma run_dot: "rx_run ic (C CDot) c s = (case s of x # s' \<Rightarrow> [(c, s')] | [] \<Rightarrow> [])"
  by (simp split: list.split)

section \<open>The reference reader\<close>

definition qualifier_length :: "string \<Rightarrow> nat" where
  "qualifier_length s = (if lowercase (take 2 s) = ''to'' then 2 else if lowercase (take 3 s) = ''for'' then 3 else 0)"

text \<open>What may follow the start: blanks, a qualifier in any letter case, blanks and a time point up to the end.\<close>

definition time_range :: "string \<Rightarrow> (string \<times> string) option" where
  "time_range r = (let r1 = dropWhile isspace r; n = qualifier_length r1; r2 = drop n r1; t = dropWhile isspace r2
     in if blank_first r \<and> n \<noteq> 0 \<and> blank_first r2 \<and> time_point t then Some (take n r1, t) else None)"

text \<open>The start: the shortest time point that leaves nothing or a range.\<close>

definition time_start :: "string \<Rightarrow> (string \<times> (string \<times> string) option) option" where
  "time_start r = first_some (\<lambda>k. if time_point (take k r) \<and> (drop k r = [] \<or> time_range (drop k r) \<noteq> None)
     then Some (take k r, time_range (drop k r)) else None) [0..<Suc (length r)]"

definition time_after :: "string \<Rightarrow> string \<Rightarrow> (string \<times> string \<times> (string \<times> string) option) option" where
  "time_after w s = map_option (Pair w) (time_start (dropWhile isspace s))"

text \<open>One of the five words, unless what follows it is no time; then no word.\<close>

definition read_time :: "string \<Rightarrow> (string \<times> string \<times> (string \<times> string) option) option" where
  "read_time s = (case first_some (\<lambda>w. if lowercase (take (length w) s) = w
       then time_after (take (length w) s) (drop (length w) s) else None) time_words of
     None \<Rightarrow> time_after [] s | Some x \<Rightarrow> Some x)"

section \<open>The pattern reads what the reader reads\<close>

lemma first_full_member: "(first_full xs = Some c \<longrightarrow> (c, []) \<in> set xs) \<and> (first_full xs = None \<longleftrightarrow> (\<forall>c. (c, []) \<notin> set xs))"
  by (induction xs rule: first_full.induct) auto

lemma first_full_no_groups:
  assumes "rx_numbers r = []"
  shows "first_full (rx_run ic r c s) = (if s \<in> rx_lang ic r then Some c else None)"
proof (cases "first_full (rx_run ic r c s)")
  case None
  then have "s \<notin> rx_lang ic r"
    using findsD [OF rx_run_complete, of s ic r "[]" c] first_full_member [of "rx_run ic r c s"] by auto
  with None show ?thesis by simp
next
  case (Some c')
  then have "(c', []) \<in> set (rx_run ic r c s)" using first_full_member [of "rx_run ic r c s"] by blast
  with consumesD(1) [OF rx_run_sound this] rx_run_no_groups [OF assms this] Some show ?thesis by auto
qed

lemma first_full_Grp: "first_full (rx_run ic (Grp i p) c s) = map_option (Cons (i, s)) (first_full (rx_run ic p c s))"
proof -
  have "first_full (map (\<lambda>(c', s'). ((i, take (length s - length s') s) # c', s')) xs) = map_option (Cons (i, s)) (first_full xs)" for xs
    by (induction xs rule: first_full.induct) simp_all
  then show ?thesis by simp
qed

lemma run_words:
  "ws \<noteq> [] \<Longrightarrow> [] \<notin> set ws \<Longrightarrow> rx_run True (rx_alts (map rx_word ws)) c s =
     concat (map (\<lambda>w. if lowercase (take (length w) s) = lowercase w then [(c, drop (length w) s)] else []) ws)"
  by (induction ws rule: induct_list012) (simp_all add: run_word eq_commute [of "[]"])

lemma time_point_no_blank: "time_point s \<Longrightarrow> \<not> blank_first s"
proof -
  have "\<not> isspace c" if "isword c" for c
    using that by (auto simp: isword_def isspace_def isdigit_def islower_def isupper_def)
  moreover have "\<not> isspace (CHR ''-'')" by (simp add: isspace_def code_def)
  moreover assume "time_point s"
  ultimately show ?thesis by (auto simp: blank_first_def time_point_def Let_def split: if_splits)
qed

lemma no_blank_firstI: "(\<And>c s. blank_first s \<Longrightarrow> f c s = None) \<Longrightarrow> no_blank_first f"
  by (simp add: no_blank_first_def)

lemma run_range_end:
  "first_full (rx_run True (Grp 5 (time_point_rx (Star (C CDot)))) c s) = (if time_point s then Some ((5, s) # c) else None)"
proof -
  have "rx_numbers (time_point_rx (Star (C CDot))) = []" by (simp add: time_point_rx_def)
  then show ?thesis
    by (simp add: first_full_Grp first_full_no_groups time_point_lang [OF UNIV_dot(1)] del: rx_run.simps)
qed

text \<open>The qualifier and what follows it.\<close>

definition qualifier_rx :: rx where
  "qualifier_rx = rx_alts (map rx_word [''TO'', ''FOR''])"

definition range_rx :: rx where
  "range_rx = rx_seq [Plus (C CSpace), Grp 4 qualifier_rx, Plus (C CSpace), Grp 5 (time_point_rx (Star (C CDot)))]"

lemma lowercase_qualifiers: "tolower (CHR ''T'') = CHR ''t''" "tolower (CHR ''O'') = CHR ''o''"
  "tolower (CHR ''F'') = CHR ''f''" "tolower (CHR ''R'') = CHR ''r''"
  by code_simp+

lemma map_length_eq: "map f (take n s) = w \<Longrightarrow> length w = n \<Longrightarrow> n \<le> length s"
  by auto

lemma run_qualifier:
  "rx_run True (Grp 4 qualifier_rx) c s =
     (if qualifier_length s = 0 then [] else [((4, take (qualifier_length s) s) # c, drop (qualifier_length s) s)])"
proof -
  have "lowercase (take 2 s) = ''to'' \<Longrightarrow> lowercase (take 3 s) \<noteq> ''for''" by (cases s; cases "tl s") auto
  moreover have "lowercase (take 2 s) = ''to'' \<Longrightarrow> 2 \<le> length s" "lowercase (take 3 s) = ''for'' \<Longrightarrow> 3 \<le> length s"
    using map_length_eq [of tolower 2 s "''to''"] map_length_eq [of tolower 3 s "''for''"] by simp_all
  moreover have "rx_run True qualifier_rx c s = (if lowercase (take 2 s) = ''to'' then [(c, drop 2 s)] else []) @
      (if lowercase (take 3 s) = ''for'' then [(c, drop 3 s)] else [])"
    unfolding qualifier_rx_def
    by (subst run_words) (simp_all add: lowercase_qualifiers numeral_eq_Suc)
  ultimately show ?thesis by (auto simp: qualifier_length_def)
qed

lemma qualifier_no_blank: "blank_first s \<Longrightarrow> qualifier_length s = 0"
proof -
  have "\<not> isspace (CHR ''t'')" "\<not> isspace (CHR ''f'')" by (simp_all add: isspace_def code_def)
  then show "blank_first s \<Longrightarrow> qualifier_length s = 0"
    by (cases s) (auto simp: blank_first_def qualifier_length_def numeral_eq_Suc isspace_tolower dest: arg_cong [of _ _ isspace])
qed

lemma run_range:
  "first_full (rx_run True range_rx c s) = map_option (\<lambda>(q, t). (5, t) # (4, q) # c) (time_range s)"
proof -
  let ?q3 = "Grp 5 (time_point_rx (Star (C CDot)))"
  have n3: "no_blank_first (\<lambda>c s. first_full (rx_run True ?q3 c s))"
    by (rule no_blank_firstI) (auto simp: run_range_end dest: time_point_no_blank simp del: rx_run.simps)
  note q2 = blanks_plus [OF n3, unfolded run_range_end]
  have q1: "first_full (rx_run True (Cat (Grp 4 qualifier_rx) (Cat (Plus (C CSpace)) ?q3)) c s) =
      (let n = qualifier_length s in if n = 0 then None
       else first_full (rx_run True (Cat (Plus (C CSpace)) ?q3) ((4, take n s) # c) (drop n s)))" for c s
    unfolding first_full_Cat [of True "Grp 4 qualifier_rx"] run_qualifier by (simp add: Let_def del: rx_run.simps split: option.split)
  have n1: "no_blank_first (\<lambda>c s. first_full (rx_run True (Cat (Grp 4 qualifier_rx) (Cat (Plus (C CSpace)) ?q3)) c s))"
    by (rule no_blank_firstI) (simp add: q1 qualifier_no_blank del: rx_run.simps)
  show ?thesis
    unfolding range_rx_def rx_seq.simps blanks_plus [OF n1] q1 q2
    by (simp add: time_range_def Let_def)
qed

section \<open>The start\<close>

lemma first_some_concat: "first_some F (concat (map g xs)) = first_some (\<lambda>x. first_some F (g x)) xs"
  by (induction xs) (simp_all add: first_some_append split: option.splits)

lemma first_some_shift:
  "first_some f [0..<Suc n] = (case f 0 of None \<Rightarrow> first_some (\<lambda>k. f (Suc k)) [0..<n] | Some y \<Rightarrow> Some y)"
proof -
  have "[0..<Suc n] = 0 # map Suc [0..<n]" by (simp add: map_Suc_upt upt_conv_Cons del: upt_Suc)
  then show ?thesis by (simp only: first_some.simps first_some_map)
qed

lemma run_word_char: "rx_run ic (C CWord) c s = (case s of x # s' \<Rightarrow> (if isword x then [(c, s')] else []) | [] \<Rightarrow> [])"
  by (simp split: list.split)

definition span_rx :: rx where
  "span_rx = rx_seq [C CWord, LazyStar (C CDot), C CWord]"

lemma span_first:
  "rx_run True span_rx c s = (if s \<noteq> [] \<and> isword (hd s) then rx_run True (Cat (LazyStar (C CDot)) (C CWord)) c (tl s) else [])"
  unfolding span_rx_def rx_seq.simps rx_run.simps(3) [of _ "C CWord"] run_word_char by (cases s) simp_all

lemma time_point_span:
  "rx_run True (time_point_rx (LazyStar (C CDot))) c s =
     (if s \<noteq> [] \<and> hd s = CHR ''-'' then rx_run True span_rx c (tl s) else []) @ rx_run True span_rx c s"
proof -
  have "time_point_rx (LazyStar (C CDot)) = Cat (Opt (C (CChar (CHR ''-'')))) span_rx"
    by (simp add: time_point_rx_def span_rx_def)
  moreover have "rx_run True (Opt (C (CChar (CHR ''-'')))) c s = (if s \<noteq> [] \<and> hd s = CHR ''-'' then [(c, tl s)] else []) @ [(c, s)]"
    using tolower_minus by (cases s) (simp_all add: eq_commute [of "tolower (CHR ''-'')"])
  ultimately show ?thesis by (simp only: rx_run.simps(3)) simp
qed

lemma run_span:
  "first_some F (rx_run True span_rx c r) =
     first_some (\<lambda>k. if 2 \<le> k \<and> isword (hd r) \<and> isword (r ! (k - 1)) then F (c, drop k r) else None) [0..<Suc (length r)]"
proof (cases "r \<noteq> [] \<and> isword (hd r)")
  case False
  then have "rx_run True span_rx c r = []" by (auto simp: span_first)
  moreover have "first_some (\<lambda>k. if 2 \<le> k \<and> isword (hd r) \<and> isword (r ! (k - 1)) then F (c, drop k r) else None) [0..<Suc (length r)] = None"
    using False by (intro first_some_None) auto
  ultimately show ?thesis by simp
next
  case True
  then obtain y q where r: "r = y # q" "isword y" by (cases r) auto
  let ?G = "\<lambda>k. if isword (q ! k) then F (c, drop (Suc k) q) else None"
  have lazy: "rx_run True (LazyStar (C CDot)) c q = map (\<lambda>k. (c, drop k q)) [0..<Suc (length q)]"
    unfolding rx_run.simps(8) by (rule lazy_dots [OF run_dot]) simp
  have "first_some F (rx_run True span_rx c r) = first_some F (rx_run True (Cat (LazyStar (C CDot)) (C CWord)) c q)"
    using r by (simp add: span_first del: rx_run.simps)
  also have "\<dots> = first_some (\<lambda>k. first_some F (rx_run True (C CWord) c (drop k q))) [0..<Suc (length q)]"
    unfolding rx_run.simps(3) [of _ "LazyStar (C CDot)"] lazy map_map first_some_concat comp_def prod.case ..
  also have "\<dots> = first_some (\<lambda>k. first_some F (rx_run True (C CWord) c (drop k q))) [0..<length q]"
    by (simp add: first_some_append split: option.split)
  also have "\<dots> = first_some ?G [0..<length q]"
  proof (rule first_some_cong)
    fix k assume "k \<in> set [0..<length q]"
    then have "drop k q = q ! k # drop (Suc k) q" by (simp add: Cons_nth_drop_Suc)
    then show "first_some F (rx_run True (C CWord) c (drop k q)) = ?G k"
      by (simp only: run_word_char) (simp split: option.split)
  qed
  also have "\<dots> = first_some (\<lambda>k. if 2 \<le> k \<and> isword (hd r) \<and> isword (r ! (k - 1)) then F (c, drop k r) else None) [0..<Suc (length r)]"
    using r by (simp add: first_some_shift del: upt_Suc cong: if_cong)
  finally show ?thesis .
qed

lemma taken_span:
  assumes "k \<le> length r"
  shows "2 \<le> length (take k r) \<and> isword (hd (take k r)) \<and> isword (last (take k r)) \<longleftrightarrow>
    2 \<le> k \<and> isword (hd r) \<and> isword (r ! (k - 1))"
proof (cases "2 \<le> k")
  case True
  then have "take k r \<noteq> []" "hd (take k r) = hd r" using assms by (auto simp: hd_take)
  moreover from this have "last (take k r) = r ! (k - 1)" using assms True by (simp add: last_conv_nth min_def)
  ultimately show ?thesis using assms by auto
qed (use assms in auto)

lemma run_start:
  "first_some F (rx_run True (time_point_rx (LazyStar (C CDot))) c s) =
     first_some (\<lambda>k. if time_point (take k s) then F (c, drop k s) else None) [0..<Suc (length s)]"
proof -
  note tp = time_point_span [of c s]
  show ?thesis
  proof (cases "s \<noteq> [] \<and> hd s = CHR ''-''")
    case True
    then obtain r where s: "s = CHR ''-'' # r" by (cases s) auto
    have "rx_run True span_rx c s = []" by (simp add: s span_first isword_ASCII)
    with tp s have "first_some F (rx_run True (time_point_rx (LazyStar (C CDot))) c s) = first_some F (rx_run True span_rx c r)" by simp
    also have "\<dots> = first_some (\<lambda>k. if time_point (take (Suc k) s) then F (c, drop (Suc k) s) else None) [0..<Suc (length r)]"
      unfolding run_span using taken_span [of _ r]
      by (intro first_some_cong) (simp add: s time_point_def Let_def less_Suc_eq_le del: upt_Suc length_take)
    finally show ?thesis by (simp add: s first_some_shift time_point_def del: upt_Suc)
  next
    case False
    then have "rx_run True (time_point_rx (LazyStar (C CDot))) c s = rx_run True span_rx c s" using tp by auto
    also have "first_some F (rx_run True span_rx c s) = first_some (\<lambda>k. if time_point (take k s) then F (c, drop k s) else None) [0..<Suc (length s)]"
      unfolding run_span
    proof (rule first_some_cong)
      fix k assume "k \<in> set [0..<Suc (length s)]"
      then have k: "k \<le> length s" by (simp add: less_Suc_eq_le del: upt_Suc)
      have "\<not> (take k s \<noteq> [] \<and> hd (take k s) = CHR ''-'')" using False by (cases k) (auto simp: hd_take)
      then show "(if 2 \<le> k \<and> isword (hd s) \<and> isword (s ! (k - 1)) then F (c, drop k s) else None)
          = (if time_point (take k s) then F (c, drop k s) else None)"
        using taken_span [OF k] by (simp only: time_point_def Let_def if_False)
    qed
    finally show ?thesis by simp
  qed
qed

section \<open>The whole pattern\<close>

definition captured :: "caps \<Rightarrow> nat \<Rightarrow> string" where
  "captured c i = (case map_of c i of Some t \<Rightarrow> t | None \<Rightarrow> [])"

text \<open>The captures tell what the reader reads: the word, the start, the qualifier and the end.\<close>

definition tells :: "caps \<Rightarrow> string \<times> string \<times> (string \<times> string) option \<Rightarrow> bool" where
  "tells c x \<longleftrightarrow> (case x of (w, f, r) \<Rightarrow> captured c 1 = w \<and> captured c 2 = f
     \<and> (case r of None \<Rightarrow> captured c 4 = [] \<and> captured c 5 = [] | Some (q, t) \<Rightarrow> captured c 4 = q \<and> captured c 5 = t))"

lemma captured_Cons [simp]: "captured ((i, t) # c) j = (if i = j then t else captured c j)"
  by (simp add: captured_def)

lemma captured_Nil [simp]: "captured [] j = []"
  by (simp add: captured_def)

lemma rel_first_some:
  "(\<And>x. x \<in> set xs \<Longrightarrow> rel_option R (f x) (g x)) \<Longrightarrow> rel_option R (first_some f xs) (first_some g xs)"
proof (induction xs)
  case (Cons x xs)
  then have "rel_option R (f x) (g x)" "rel_option R (first_some f xs) (first_some g xs)" by simp_all
  then show ?case by (cases "f x"; cases "g x") simp_all
qed simp

lemma map_first_some: "map_option h (first_some f xs) = first_some (\<lambda>x. map_option h (f x)) xs"
  by (induction xs) (simp_all split: option.split)

definition tail_rx :: rx where
  "tail_rx = Cat (Grp 2 (time_point_rx (LazyStar (C CDot)))) (Opt (Grp 3 range_rx))"

lemma time_rx_parts: "time_rx = Cat (Opt (Grp 1 (rx_alts (map rx_word time_words)))) (Cat (Star (C CSpace)) tail_rx)"
  by (simp add: time_rx_def tail_rx_def range_rx_def qualifier_rx_def time_words_def)

lemma run_end:
  "first_full (rx_run True (Opt (Grp 3 range_rx)) c s) = (case time_range s of
     None \<Rightarrow> (if s = [] then Some c else None) | Some (q, t) \<Rightarrow> Some ((3, s) # (5, t) # (4, q) # c))"
proof -
  have "first_full (rx_run True (Opt (Grp 3 range_rx)) c s) =
      (case first_full (rx_run True (Grp 3 range_rx) c s) of None \<Rightarrow> (if s = [] then Some c else None) | Some y \<Rightarrow> Some y)"
    unfolding rx_run.simps(5) first_full_append first_full.simps ..
  then show ?thesis by (simp add: first_full_Grp run_range split: option.split del: rx_run.simps)
qed

lemma run_tail:
  "first_full (rx_run True tail_rx c s) = first_some (\<lambda>k. if time_point (take k s)
     then first_full (rx_run True (Opt (Grp 3 range_rx)) ((2, take k s) # c) (drop k s)) else None) [0..<Suc (length s)]"
proof -
  have "first_full (rx_run True tail_rx c s) =
      first_some (\<lambda>(c', s'). first_full (rx_run True (Opt (Grp 3 range_rx)) ((2, take (length s - length s') s) # c') s'))
        (rx_run True (time_point_rx (LazyStar (C CDot))) c s)"
    unfolding tail_rx_def first_full_Cat rx_run.simps(10) [of _ 2] first_some_map
    by (simp only: case_prod_unfold fst_conv snd_conv)
  also have "\<dots> = first_some (\<lambda>k. if time_point (take k s)
     then first_full (rx_run True (Opt (Grp 3 range_rx)) ((2, take (length s - length (drop k s)) s) # c) (drop k s)) else None) [0..<Suc (length s)]"
    unfolding run_start prod.case ..
  also have "\<dots> = first_some (\<lambda>k. if time_point (take k s)
     then first_full (rx_run True (Opt (Grp 3 range_rx)) ((2, take k s) # c) (drop k s)) else None) [0..<Suc (length s)]"
    by (rule first_some_cong) (simp add: less_Suc_eq_le del: upt_Suc rx_run.simps)
  finally show ?thesis .
qed

lemma tail_tells:
  assumes "captured c 1 = w" "captured c 4 = []" "captured c 5 = []"
  shows "rel_option tells (first_full (rx_run True tail_rx c s)) (map_option (Pair w) (time_start s))"
  unfolding run_tail time_start_def map_first_some run_end
  using assms by (intro rel_first_some) (auto simp: tells_def split: option.split)

lemma tail_no_blank: "no_blank_first (\<lambda>c s. first_full (rx_run True tail_rx c s))"
proof (rule no_blank_firstI)
  fix c s assume "blank_first s"
  then have "take k s = [] \<or> blank_first (take k s)" for k by (cases k; cases s) (simp_all add: blank_first_def)
  moreover have "\<not> time_point []" by (simp add: time_point_def)
  ultimately have "\<not> time_point (take k s)" for k using time_point_no_blank [of "take k s"] by metis
  then show "first_full (rx_run True tail_rx c s) = None" unfolding run_tail by (simp add: first_some_None)
qed

lemma time_words_parts: "time_words \<noteq> []" "[] \<notin> set time_words" by (simp_all add: time_words_def)

lemma pattern_tells: "rel_option tells (first_full (rx_run True time_rx [] s)) (read_time s)"
proof -
  let ?X = "\<lambda>c s. first_full (rx_run True tail_rx c (dropWhile isspace s))"
  let ?W = "\<lambda>w. if lowercase (take (length w) s) = w then ?X [(1, take (length w) s)] (drop (length w) s) else None"
  have X: "first_full (rx_run True (Cat (Star (C CSpace)) tail_rx) c s) = ?X c s" for c s
    by (rule blanks_star [OF tail_no_blank])
  have "first_some (\<lambda>(c', s'). ?X c' s') (rx_run True (Grp 1 (rx_alts (map rx_word time_words))) [] s) =
      first_some (\<lambda>w. first_some (\<lambda>(c', s'). ?X ((1, take (length s - length s') s) # c') s')
        (if lowercase (take (length w) s) = lowercase w then [([], drop (length w) s)] else [])) time_words"
    unfolding rx_run.simps(10) run_words [OF time_words_parts] first_some_map first_some_concat
    by (simp only: case_prod_unfold fst_conv snd_conv)
  also have "\<dots> = first_some ?W time_words"
  proof (rule first_some_cong)
    fix w assume w: "w \<in> set time_words"
    show "first_some (\<lambda>(c', s'). ?X ((1, take (length s - length s') s) # c') s')
        (if lowercase (take (length w) s) = lowercase w then [([], drop (length w) s)] else []) = ?W w"
    proof (cases "lowercase (take (length w) s) = w")
      case True
      from map_length_eq [OF this] have "length w \<le> length s" by simp
      then show ?thesis using True time_words_lower [OF w] by (simp del: rx_run.simps split: option.split)
    qed (use time_words_lower [OF w] in simp)
  qed
  finally have words: "first_some (\<lambda>(c', s'). ?X c' s') (rx_run True (Grp 1 (rx_alts (map rx_word time_words))) [] s) =
      first_some ?W time_words" .
  have run: "first_full (rx_run True time_rx [] s) = (case first_some ?W time_words of None \<Rightarrow> ?X [] s | Some y \<Rightarrow> Some y)"
    unfolding time_rx_parts first_full_Cat [of _ "Opt (Grp 1 (rx_alts (map rx_word time_words)))"] X
      rx_run.simps(5) first_some_append words by (simp del: rx_run.simps split: option.split)
  have after: "rel_option tells (?X c s') (time_after w s')" if "captured c 1 = w" "captured c 4 = []" "captured c 5 = []" for c w s'
    unfolding time_after_def by (rule tail_tells [OF that])
  have "rel_option tells (first_some ?W time_words) (first_some (\<lambda>w. if lowercase (take (length w) s) = w
       then time_after (take (length w) s) (drop (length w) s) else None) time_words)"
    by (rule rel_first_some) (simp add: after del: rx_run.simps)
  with after [of "[]" "[]" s] show ?thesis
    unfolding run read_time_def by (auto elim!: option.rel_cases simp del: rx_run.simps)
qed

section \<open>The text of what was read\<close>

lemma first_some_SomeD: "first_some f xs = Some y \<Longrightarrow> \<exists>x \<in> set xs. f x = Some y"
  by (induction xs) (auto split: option.splits)

definition blanks :: "string \<Rightarrow> bool" where
  "blanks b \<longleftrightarrow> list_all isspace b"

lemma skip_blanks: "\<exists>b. blanks b \<and> s = b @ dropWhile isspace s \<and> (blank_first s \<longrightarrow> b \<noteq> [])"
proof (intro exI conjI)
  show "s = takeWhile isspace s @ dropWhile isspace s" by simp
  show "blanks (takeWhile isspace s)" by (auto simp: blanks_def list_all_iff dest: set_takeWhileD)
  show "blank_first s \<longrightarrow> takeWhile isspace s \<noteq> []" by (cases s) (auto simp: blank_first_def)
qed

definition range_text :: "string \<Rightarrow> string \<Rightarrow> string \<Rightarrow> bool" where
  "range_text r q t \<longleftrightarrow> (\<exists>b b'. blanks b \<and> b \<noteq> [] \<and> blanks b' \<and> b' \<noteq> [] \<and> r = b @ q @ b' @ t)"

lemma time_range_text:
  assumes "time_range r = Some (q, t)"
  shows "range_text r q t \<and> lowercase q \<in> {''to'', ''for''} \<and> time_point t"
proof -
  define r1 n where "r1 = dropWhile isspace r" and "n = qualifier_length r1"
  from assms have 1: "blank_first r" "n \<noteq> 0" "blank_first (drop n r1)" "time_point t" "q = take n r1"
    "t = dropWhile isspace (drop n r1)"
    by (auto simp: time_range_def Let_def r1_def n_def split: if_splits)
  obtain b where b: "blanks b" "r = b @ r1" "b \<noteq> []" using skip_blanks [of r] 1(1) by (auto simp: r1_def)
  obtain b' where b': "blanks b'" "drop n r1 = b' @ t" "b' \<noteq> []" using skip_blanks [of "drop n r1"] 1(3,6) by auto
  have "r1 = q @ b' @ t" using 1(5) b'(2) append_take_drop_id [of n r1] by metis
  with b b' have "range_text r q t" unfolding range_text_def by blast
  moreover have "lowercase q \<in> {''to'', ''for''}" using 1(2,5) by (auto simp: n_def qualifier_length_def split: if_splits)
  ultimately show ?thesis using 1(4) by blast
qed

text \<open>The text is the word, blanks, the start, and the range when there is one.\<close>

definition time_text :: "string \<Rightarrow> string \<Rightarrow> string \<Rightarrow> (string \<times> string) option \<Rightarrow> bool" where
  "time_text s w f r \<longleftrightarrow> (w = [] \<or> lowercase w \<in> set time_words) \<and> time_point f
     \<and> (\<exists>b rest. blanks b \<and> s = w @ b @ f @ rest \<and> (case r of None \<Rightarrow> rest = []
          | Some (q, t) \<Rightarrow> range_text rest q t \<and> lowercase q \<in> {''to'', ''for''} \<and> time_point t))"

lemma time_after_text:
  assumes "time_after w s = Some (w', f, r)" and "w = [] \<or> lowercase w \<in> set time_words"
  shows "w' = w \<and> time_text (w @ s) w f r"
proof -
  obtain b where b: "blanks b" "s = b @ dropWhile isspace s" using skip_blanks [of s] by blast
  from assms(1) have w': "w' = w" and start: "time_start (dropWhile isspace s) = Some (f, r)" by (auto simp: time_after_def)
  from first_some_SomeD [OF start [unfolded time_start_def]] obtain k where
    "(if time_point (take k (dropWhile isspace s)) \<and> (drop k (dropWhile isspace s) = [] \<or> time_range (drop k (dropWhile isspace s)) \<noteq> None)
      then Some (take k (dropWhile isspace s), time_range (drop k (dropWhile isspace s))) else None) = Some (f, r)" by blast
  then have k: "time_point (take k (dropWhile isspace s))" "f = take k (dropWhile isspace s)"
    "drop k (dropWhile isspace s) = [] \<or> time_range (drop k (dropWhile isspace s)) \<noteq> None"
    "r = time_range (drop k (dropWhile isspace s))"
    by (simp_all del: drop_eq_Nil not_None_eq split: if_splits)
  define rest where "rest = drop k (dropWhile isspace s)"
  have "dropWhile isspace s = f @ rest" by (simp add: k(2) rest_def)
  with b(2) have "w @ s = w @ b @ f @ rest" by simp
  moreover have "case r of None \<Rightarrow> rest = []
      | Some (q, t) \<Rightarrow> range_text rest q t \<and> lowercase q \<in> {''to'', ''for''} \<and> time_point t"
    using k(3,4) time_range_text [of rest] by (auto simp: rest_def [symmetric] split: option.split)
  moreover have "time_point f" using k(1,2) by simp
  ultimately show ?thesis
    unfolding time_text_def using w' b(1) assms(2) by (intro conjI exI [of _ b] exI [of _ rest]) simp_all
qed

lemma read_time_text:
  assumes "read_time s = Some (w, f, r)"
  shows "time_text s w f r"
proof -
  consider x where "x \<in> set time_words" "lowercase (take (length x) s) = x"
      "time_after (take (length x) s) (drop (length x) s) = Some (w, f, r)"
    | "time_after [] s = Some (w, f, r)"
    using assms by (auto simp: read_time_def split: option.splits if_splits dest!: first_some_SomeD)
  then show ?thesis
  proof cases
    case 1
    with time_after_text [OF 1(3)] show ?thesis by simp
  next
    case 2
    with time_after_text [OF 2] show ?thesis by simp
  qed
qed

section \<open>Properties\<close>

definition time_fields :: "TimeSpecification res \<Rightarrow> string \<Rightarrow> string \<Rightarrow> string \<Rightarrow> string \<Rightarrow> bool" where
  "time_fields m w f to interval \<longleftrightarrow> (case m of Inl _ \<Rightarrow> False
     | Inr t \<Rightarrow> ts_indeterminate t = (if w = [] then ''exact'' else w) \<and> ts_from t = f
         \<and> ts_to t = to \<and> ts_interval t = interval \<and> (ts_durationInsteadOfTo t \<longleftrightarrow> interval \<noteq> []))"

lemma time_match_tells:
  "rel_option (\<lambda>m. tells [(1, m 1), (2, m 2), (4, m 4), (5, m 5)]) (rx_match True time_rx s) (read_time s)"
  using pattern_tells [of s] unfolding rx_match_first
  by (auto simp: tells_def captured_def option.rel_map elim!: option.rel_mono_strong split: option.splits)

text \<open>C4: what the fields of a time specification get, for every text. The text is read as one of the five words (in any
  letter case, "exact" when there is none and so never "any"), blanks, the start (the shortest time point that leaves
  nothing or a range) and the range, and those parts make up the text. Without a range the end is the start; with the
  qualifier "TO" the end is what follows it and there is no interval; with "FOR" the interval is what follows it and there
  is no end. Every other text is refused: as invalid when it cannot be read so, and with the qualifier in the message when
  that is not in upper case.\<close>

theorem time_specification_text:
  assumes "documented E"
  shows "case read_time spec of
      None \<Rightarrow> TimeSpecification_new E spec = Inl (Logic_error ''Invalid time specification'')
    | Some (w, f, r) \<Rightarrow> time_text spec w f r \<and> (case r of
          None \<Rightarrow> time_fields (TimeSpecification_new E spec) w f f []
        | Some (q, e) \<Rightarrow>
            if q = ''TO'' then time_fields (TimeSpecification_new E spec) w f e []
            else if q = ''FOR'' then time_fields (TimeSpecification_new E spec) w f [] e
            else TimeSpecification_new E spec = Inl (Logic_error (''Invalid time range qualifier: '' @ q)))"
proof (cases "read_time spec")
  case None
  with time_match_tells [of spec] have "rx_match True time_rx spec = None" by simp
  with None assms show ?thesis by (simp add: TimeSpecification_new_def)
next
  case (Some x)
  obtain w f r where x: "x = (w, f, r)" by (cases x)
  from Some x time_match_tells [of spec] obtain m where m: "rx_match True time_rx spec = Some m"
    "m 1 = w" "m 2 = f" "case r of None \<Rightarrow> m 4 = [] \<and> m 5 = [] | Some (q, t) \<Rightarrow> m 4 = q \<and> m 5 = t"
    by (auto simp: tells_def option_rel_Some2 split: option.splits)
  have t: "time_text spec w f r" using read_time_text Some x by simp
  then have e: "\<And>q e. r = Some (q, e) \<Longrightarrow> q \<noteq> [] \<and> e \<noteq> []" by (auto simp: time_text_def time_point_def)
  show ?thesis
    using Some x m t e assms
    by (auto simp: TimeSpecification_new_def time_fields_def ts_to_def ts_interval_def split: option.splits)
qed

lemma read_time_example:
  "read_time ''Inside 2009-01-01 FOR 3 days'' = Some (''Inside'', ''2009-01-01'', Some (''FOR'', ''3 days''))"
  "read_time ''2009 to 2010'' = Some ([], ''2009'', Some (''to'', ''2010''))"
  by code_simp+

theorem time_specification_text_witness:
  "time_fields (TimeSpecification_new (boost_ref :: unit boost) ''Inside 2009-01-01 FOR 3 days'')
     ''Inside'' ''2009-01-01'' [] ''3 days''
   \<and> TimeSpecification_new (boost_ref :: unit boost) ''2009 to 2010'' =
     Inl (Logic_error ''Invalid time range qualifier: to'')"
  using time_specification_text [OF documented_ref, where 'a = unit, of "''Inside 2009-01-01 FOR 3 days''"]
    time_specification_text [OF documented_ref, where 'a = unit, of "''2009 to 2010''"]
  by (simp add: read_time_example)

end
