(* ===== verification/Builder.thy ===== *)
theory Builder
  imports Prelude
begin

text \<open>
  \<open>query::Builder\<close> (\<open>src/callInterface/core/Builder.cpp\<close>): the six clause lists of an SQL
  statement, the operations that append to them, and the text of the statement.
\<close>

record Builder =
  what_list :: "string list"
  from_list :: "string list"
  where_list :: "string list"
  with_list :: "string list"
  orderBy_list :: "string list"
  groupBy_list :: "string list"

definition Builder_new :: Builder where
  "Builder_new = \<lparr>what_list = [], from_list = [], where_list = [], with_list = [],
     orderBy_list = [], groupBy_list = []\<rparr>"

definition Builder_of :: "string \<Rightarrow> Builder" where
  "Builder_of table = Builder_new\<lparr>from_list := [table]\<rparr>"

section \<open>Printing a clause\<close>

definition list_text :: "string \<Rightarrow> string list \<Rightarrow> string" where
  "list_text separator data = join separator data"

definition what_text :: "Builder \<Rightarrow> string" where
  "what_text b = (if what_list b = [] then ''*'' else list_text '', '' (what_list b))"

definition from_text :: "Builder \<Rightarrow> string" where
  "from_text b = list_text '', '' (from_list b)"

definition where_text :: "Builder \<Rightarrow> string" where
  "where_text b = list_text '' AND '' (where_list b)"

definition with_text :: "Builder \<Rightarrow> string" where
  "with_text b = list_text '', '' (with_list b)"

definition orderBy_text :: "Builder \<Rightarrow> string" where
  "orderBy_text b = list_text '', '' (orderBy_list b)"

definition groupBy_text :: "Builder \<Rightarrow> string" where
  "groupBy_text b = list_text '', '' (groupBy_list b)"

definition section_text :: "string \<Rightarrow> string list \<Rightarrow> string \<Rightarrow> string" where
  "section_text keyword data body = (if data = [] then [] else keyword @ body)"

definition str :: "Builder \<Rightarrow> string res" where
  "str b = (if from_list b = [] then Inl InvalidQuery else Inr (
       (if with_list b = [] then [] else ''WITH '' @ with_text b @ '' '')
     @ ''SELECT '' @ what_text b
     @ '' FROM '' @ from_text b
     @ section_text '' WHERE '' (where_list b) (where_text b)
     @ section_text '' GROUP BY '' (groupBy_list b) (groupBy_text b)
     @ section_text '' ORDER BY '' (orderBy_list b) (orderBy_text b)))"

section \<open>Adding to a clause\<close>

definition add_what :: "string \<Rightarrow> Builder \<Rightarrow> Builder" where
  "add_what item b = b\<lparr>what_list := what_list b @ [item]\<rparr>"

definition add_from :: "string \<Rightarrow> Builder \<Rightarrow> Builder" where
  "add_from table b = b\<lparr>from_list := from_list b @ [table]\<rparr>"

definition add_where :: "string \<Rightarrow> Builder \<Rightarrow> Builder" where
  "add_where clause b = b\<lparr>where_list := where_list b @ [clause]\<rparr>"

definition add_with :: "Builder \<Rightarrow> string \<Rightarrow> Builder \<Rightarrow> Builder res" where
  "add_with statement alias b = mapE (\<lambda>q. b\<lparr>with_list := with_list b @ [alias @ '' AS ('' @ q @ '')'']\<rparr>)
     (str statement)"

definition add_orderBy :: "string \<Rightarrow> Builder \<Rightarrow> Builder" where
  "add_orderBy clause b = b\<lparr>orderBy_list := orderBy_list b @ [clause]\<rparr>"

definition add_groupBy :: "string \<Rightarrow> Builder \<Rightarrow> Builder" where
  "add_groupBy clause b = b\<lparr>groupBy_list := groupBy_list b @ [clause]\<rparr>"

definition debug_section :: "string \<Rightarrow> string list \<Rightarrow> string" where
  "debug_section title data = title @ [CHR 0x0A]
     @ concat (map (\<lambda>x. [CHR 0x09, CHR ''<''] @ x @ [CHR ''>'', CHR 0x0A]) data)"

definition debugPrint :: "Builder \<Rightarrow> string" where
  "debugPrint b = debug_section ''What:'' (what_list b) @ debug_section ''FROM'' (from_list b)
     @ debug_section ''WHERE'' (where_list b) @ debug_section ''WITH'' (with_list b)
     @ debug_section ''ORDER BY'' (orderBy_list b) @ debug_section ''GROUP BY'' (groupBy_list b)"

section \<open>Lemmas\<close>

named_theorems clause_defs \<open>the operations that append to a clause\<close>

lemmas adders = add_what_def add_from_def add_where_def add_orderBy_def add_groupBy_def
declare adders [clause_defs]

lemmas clause_texts = what_text_def from_text_def where_text_def with_text_def orderBy_text_def
  groupBy_text_def section_text_def list_text_def

lemma str_ok_iff: "(\<exists>q. str b = Inr q) \<longleftrightarrow> from_list b \<noteq> []"
  by (simp add: str_def)

lemma str_error_iff: "str b = Inl e \<longleftrightarrow> from_list b = [] \<and> e = InvalidQuery"
  by (auto simp: str_def)

lemma add_with_ok_iff: "(\<exists>b'. add_with st alias b = Inr b') \<longleftrightarrow> from_list st \<noteq> []"
  by (auto simp: add_with_def mapE_eq_Inr str_def)

text \<open>A clause that is appended to a non-empty list extends the text of its section and nothing
  else.\<close>

lemma where_text_add: "where_list b \<noteq> [] \<Longrightarrow> where_text (add_where c b) = where_text b @ '' AND '' @ c"
  by (simp add: add_where_def where_text_def list_text_def join_append)

lemma what_text_add: "what_list b \<noteq> [] \<Longrightarrow> what_text (add_what c b) = what_text b @ '', '' @ c"
  by (simp add: add_what_def what_text_def list_text_def join_append)

lemma from_text_add: "from_list b \<noteq> [] \<Longrightarrow> from_text (add_from c b) = from_text b @ '', '' @ c"
  by (simp add: add_from_def from_text_def list_text_def join_append)

lemma with_text_add:
  "with_list b \<noteq> [] \<Longrightarrow> str st = Inr q \<Longrightarrow> add_with st alias b = Inr b' \<Longrightarrow>
    with_text b' = with_text b @ '', '' @ alias @ '' AS ('' @ q @ '')''"
  by (auto simp: add_with_def with_text_def list_text_def join_append)

end
