(* ===== verification/Quoting.thy ===== *)
theory Quoting
  imports Builder Externals
begin

text \<open>
  The SQL quoting helpers of \<open>src/callInterface/core/wciRead/query/util.cpp\<close>, with a reader of
  SQL string literals (\<open>standard_conforming_strings\<close>: a doubled quote stands for a quote, nothing
  else is special) and the skeleton of a statement: its text with the content of every literal
  dropped. A fragment that \<open>seals\<close> contributes a fixed skeleton, whatever the user's text in its
  literals; the lemmas compose sealed fragments along the separators of \<open>Builder\<close>.
\<close>

definition quote_char :: char where
  "quote_char = CHR 0x27"

definition quote :: "'a boost \<Rightarrow> string \<Rightarrow> string" where
  "quote E raw = [quote_char] @ replace_all E [quote_char] [quote_char, quote_char] raw @ [quote_char]"

definition lquote :: "'a boost \<Rightarrow> string \<Rightarrow> string" where
  "lquote E raw = to_lower E
     ([quote_char] @ replace_all E [quote_char] [quote_char, quote_char] raw @ [quote_char])"

definition lower :: "'a boost \<Rightarrow> string \<Rightarrow> string" where
  "lower E raw = to_lower E raw"

section \<open>Reading a literal\<close>

fun literal_body :: "string \<Rightarrow> (string \<times> string) option" where
  "literal_body [] = None"
| "literal_body [c] = (if c = quote_char then Some ([], []) else None)"
| "literal_body (c # d # s) =
     (if c = quote_char then
        (if d = quote_char then map_option (\<lambda>(t, r). (c # t, r)) (literal_body s) else Some ([], d # s))
      else map_option (\<lambda>(t, r). (c # t, r)) (literal_body (d # s)))"

definition read_literal :: "string \<Rightarrow> (string \<times> string) option" where
  "read_literal s = (case s of c # s' \<Rightarrow> (if c = quote_char then literal_body s' else None) | [] \<Rightarrow> None)"

definition no_quote_first :: "string \<Rightarrow> bool" where
  "no_quote_first s \<longleftrightarrow> s = [] \<or> hd s \<noteq> quote_char"

definition doubled :: "string \<Rightarrow> string" where
  "doubled raw = concat (map (\<lambda>c. if c = quote_char then [quote_char, quote_char] else [c]) raw)"

lemma quote_doubled: "documented E \<Longrightarrow> quote E raw = [quote_char] @ doubled raw @ [quote_char]"
  by (simp add: quote_def doubled_def replace_char)

lemma tolower_quote_char [simp]: "tolower quote_char = quote_char"
  by (simp add: tolower_def quote_char_def code_def)

lemma tolower_eq_quote_char [simp]: "tolower c = quote_char \<longleftrightarrow> c = quote_char"
proof
  assume *: "tolower c = quote_char"
  then have "code (tolower c) = 39" by (simp add: quote_char_def code_def)
  then have "\<not> isupper c" by (auto simp: code_tolower isupper_def split: if_splits)
  with * show "c = quote_char" by (simp add: tolower_id)
qed simp

lemma lowercase_doubled: "lowercase (doubled raw) = doubled (lowercase raw)"
  by (induction raw) (simp_all add: doubled_def)

lemma lquote_doubled:
  "documented E \<Longrightarrow> lquote E raw = [quote_char] @ doubled (lowercase raw) @ [quote_char]"
  by (simp add: lquote_def doubled_def [symmetric] replace_char lowercase_doubled)

lemma literal_body_doubled:
  "no_quote_first rest \<Longrightarrow> literal_body (doubled raw @ quote_char # rest) = Some (raw, rest)"
proof (induction raw)
  case Nil
  then show ?case by (cases rest) (simp_all add: doubled_def no_quote_first_def)
next
  case (Cons c raw)
  have "\<exists>d t. doubled raw @ quote_char # rest = d # t"
    by (cases "doubled raw") auto
  then obtain d t where "doubled raw @ quote_char # rest = d # t" by blast
  with Cons show ?case by (simp add: doubled_def)
qed

lemma read_literal_doubled:
  "no_quote_first rest \<Longrightarrow>
    read_literal (([quote_char] @ doubled raw @ [quote_char]) @ rest) = Some (raw, rest)"
  by (simp add: read_literal_def literal_body_doubled)

section \<open>The skeleton of a statement\<close>

text \<open>\<open>skel False\<close> reads outside a literal, \<open>skel True\<close> inside one.\<close>

fun skel :: "bool \<Rightarrow> string \<Rightarrow> string" where
  "skel inside [] = []"
| "skel False (c # s) = c # skel (c = quote_char) s"
| "skel True [c] = (if c = quote_char then [c] else [])"
| "skel True (c # d # s) =
     (if c = quote_char then (if d = quote_char then skel True s else c # skel False (d # s))
      else skel True (d # s))"

abbreviation skeleton :: "string \<Rightarrow> string" where
  "skeleton \<equiv> skel False"

definition seals :: "string \<Rightarrow> string \<Rightarrow> bool" where
  "seals a k \<longleftrightarrow> (\<forall>rest. no_quote_first rest \<longrightarrow> skel False (a @ rest) = k @ skel False rest)"

lemma no_quote_first_simps [simp]:
  "no_quote_first []" "no_quote_first (c # s) \<longleftrightarrow> c \<noteq> quote_char"
  by (simp_all add: no_quote_first_def)

lemma no_quote_first_append [simp]:
  "no_quote_first (a @ b) \<longleftrightarrow> (if a = [] then no_quote_first b else no_quote_first a)"
  by (auto simp: no_quote_first_def)

lemma seals_skeleton: "seals a k \<Longrightarrow> skel False a = k"
  unfolding seals_def by (metis append_Nil2 no_quote_first_simps(1) skel.simps(1))

lemma seals_Nil [simp]: "seals [] []"
  by (simp add: seals_def)

lemma seals_plain: "quote_char \<notin> set a \<Longrightarrow> seals a a"
  by (induction a) (auto simp: seals_def)

lemma seals_append: "seals a k \<Longrightarrow> seals b l \<Longrightarrow> no_quote_first b \<Longrightarrow> seals (a @ b) (k @ l)"
  by (simp add: seals_def)

text \<open>A fragment that ends outside a literal and not on a quote may be followed by anything.\<close>

definition seals_any :: "string \<Rightarrow> string \<Rightarrow> bool" where
  "seals_any a k \<longleftrightarrow> (\<forall>rest. skel False (a @ rest) = k @ skel False rest)"

lemma seals_any_plain: "quote_char \<notin> set a \<Longrightarrow> seals_any a a"
  by (induction a) (auto simp: seals_any_def)

lemma seals_any_seals: "seals_any a k \<Longrightarrow> seals a k"
  by (simp add: seals_any_def seals_def)

lemma seals_any_append: "seals_any a k \<Longrightarrow> seals b l \<Longrightarrow> seals (a @ b) (k @ l)"
  by (simp add: seals_any_def seals_def)

lemma skel_doubled:
  "no_quote_first rest \<Longrightarrow> skel True (doubled raw @ quote_char # rest) = quote_char # skel False rest"
proof (induction raw)
  case Nil
  then show ?case by (cases rest) (simp_all add: doubled_def)
next
  case (Cons c raw)
  have "\<exists>d t. doubled raw @ quote_char # rest = d # t"
    by (cases "doubled raw") auto
  then obtain d t where "doubled raw @ quote_char # rest = d # t" by blast
  with Cons show ?case by (simp add: doubled_def)
qed

lemma seals_literal: "seals ([quote_char] @ doubled raw @ [quote_char]) [quote_char, quote_char]"
  by (simp add: seals_def skel_doubled)

lemma seals_quote: "documented E \<Longrightarrow> seals (quote E raw) [quote_char, quote_char]"
  using seals_literal by (simp add: quote_doubled)

lemma seals_lquote: "documented E \<Longrightarrow> seals (lquote E raw) [quote_char, quote_char]"
  using seals_literal by (simp add: lquote_doubled)

text \<open>A fragment with an even number of quotes ends outside a literal and seals itself.\<close>

definition closed :: "string \<Rightarrow> bool" where
  "closed a \<longleftrightarrow> even (count_list a quote_char)"

lemma skel_closed:
  assumes "no_quote_first rest"
  shows "skel inside s = skel inside s \<and> (even (count_list s quote_char) \<noteq> inside \<longrightarrow>
    skel inside (s @ rest) = skel inside s @ skel False rest)"
proof (induction inside s rule: skel.induct)
  case (3 c)
  with assms show ?case by (cases rest) auto
qed auto

lemma seals_closed: "closed a \<Longrightarrow> seals a (skeleton a)"
  using skel_closed [of _ False a] by (simp add: seals_def closed_def)

lemma closed_plain: "quote_char \<notin> set a \<Longrightarrow> closed a"
  by (simp add: closed_def count_notin)

lemma closed_append: "closed a \<Longrightarrow> closed b \<Longrightarrow> closed (a @ b)"
  by (simp add: closed_def)

lemma closed_quoted: "closed a \<Longrightarrow> closed b \<Longrightarrow> closed ([quote_char] @ a @ [quote_char] @ b)"
  by (simp add: closed_def)

section \<open>Joining sealed fragments\<close>

lemma seals_join:
  assumes "quote_char \<notin> set sep" and "sep \<noteq> []"
  shows "list_all2 seals xs ks \<Longrightarrow> seals (join sep xs) (join sep ks)"
proof (induction xs ks rule: list_all2_induct)
  case (Cons x xs k ks)
  then show ?case
  proof (cases xs)
    case Nil
    with Cons show ?thesis by simp
  next
    case (Cons y ys)
    with Cons.hyps obtain l ls where ks: "ks = l # ls" by (cases ks) auto
    have "seals (sep @ join sep xs) (sep @ join sep ks)"
      using seals_any_append [OF seals_any_plain] assms(1) Cons.IH by blast
    moreover have "no_quote_first (sep @ join sep xs)"
      using assms by (cases sep) auto
    ultimately have "seals (x @ sep @ join sep xs) (k @ sep @ join sep ks)"
      using Cons.hyps seals_append by blast
    with Cons ks show ?thesis by simp
  qed
qed simp

section \<open>Sealed builders\<close>

definition map_fragments :: "(string \<Rightarrow> string) \<Rightarrow> Builder \<Rightarrow> Builder" where
  "map_fragments f b = \<lparr>what_list = map f (what_list b), from_list = map f (from_list b),
     where_list = map f (where_list b), with_list = map f (with_list b),
     orderBy_list = map f (orderBy_list b), groupBy_list = map f (groupBy_list b)\<rparr>"

definition sealed_list :: "string list \<Rightarrow> bool" where
  "sealed_list xs \<longleftrightarrow> (\<forall>x \<in> set xs. seals x (skeleton x))"

definition sealed :: "Builder \<Rightarrow> bool" where
  "sealed b \<longleftrightarrow> sealed_list (what_list b) \<and> sealed_list (from_list b) \<and> sealed_list (where_list b)
     \<and> sealed_list (with_list b) \<and> sealed_list (orderBy_list b) \<and> sealed_list (groupBy_list b)"

lemma sealed_list_join:
  assumes "sealed_list xs" and "quote_char \<notin> set sep" and "sep \<noteq> []"
  shows "seals (join sep xs) (join sep (map skeleton xs))"
  using assms by (intro seals_join) (auto simp: sealed_list_def list_all2_conv_all_nth)

lemma seals_then:
  "seals a k \<Longrightarrow> quote_char \<notin> set w \<Longrightarrow> w \<noteq> [] \<Longrightarrow> seals b l \<Longrightarrow> seals (a @ w @ b) (k @ w @ l)"
  by (rule seals_append [OF _ seals_any_append [OF seals_any_plain]]) (cases w; auto)+

lemma quote_free [simp]:
  "quote_char \<notin> set ''WITH ''" "quote_char \<notin> set '' SELECT ''" "quote_char \<notin> set ''SELECT ''"
  "quote_char \<notin> set '' FROM ''" "quote_char \<notin> set '' WHERE ''" "quote_char \<notin> set '' GROUP BY ''"
  "quote_char \<notin> set '' ORDER BY ''" "quote_char \<notin> set '' AND ''" "quote_char \<notin> set '', ''"
  "quote_char \<notin> set ''*''" "quote_char \<notin> set '' OR ''" "quote_char \<notin> set '' AS (''" "quote_char \<notin> set '')''"
  by (simp_all add: quote_char_def)

lemma seals_section:
  "sealed_list xs \<Longrightarrow> quote_char \<notin> set keyword \<Longrightarrow> quote_char \<notin> set sep \<Longrightarrow> sep \<noteq> [] \<Longrightarrow>
    seals (section_text keyword xs (list_text sep xs))
      (section_text keyword (map skeleton xs) (list_text sep (map skeleton xs)))"
  by (auto simp: section_text_def list_text_def intro!: seals_any_append seals_any_plain sealed_list_join)

lemma no_quote_section: "quote_char \<notin> set keyword \<Longrightarrow> keyword \<noteq> [] \<Longrightarrow> no_quote_first (section_text keyword xs t)"
  by (cases keyword) (auto simp: section_text_def)

text \<open>The skeleton of the statement of a sealed builder is the statement of its skeletons.\<close>

theorem str_sealed:
  assumes b: "sealed b" and q: "str b = Inr q"
  shows "\<exists>k. str (map_fragments skeleton b) = Inr k \<and> seals q k"
proof -
  let ?c = "map_fragments skeleton b"
  have tables: "from_list b \<noteq> []" using q by (auto simp: str_def split: if_splits)
  let ?W = "\<lambda>b. if with_list b = [] then [] else ''WITH '' @ with_text b @ '' ''"
  let ?T = "\<lambda>b. from_text b
     @ section_text '' WHERE '' (where_list b) (where_text b)
     @ section_text '' GROUP BY '' (groupBy_list b) (groupBy_text b)
     @ section_text '' ORDER BY '' (orderBy_list b) (orderBy_text b)"
  have sec: "seals (section_text '' WHERE '' (where_list b) (where_text b))
        (section_text '' WHERE '' (where_list ?c) (where_text ?c))"
    "seals (section_text '' GROUP BY '' (groupBy_list b) (groupBy_text b))
        (section_text '' GROUP BY '' (groupBy_list ?c) (groupBy_text ?c))"
    "seals (section_text '' ORDER BY '' (orderBy_list b) (orderBy_text b))
        (section_text '' ORDER BY '' (orderBy_list ?c) (orderBy_text ?c))"
    unfolding where_text_def groupBy_text_def orderBy_text_def map_fragments_def Builder.simps
    using b by (auto simp: sealed_def quote_char_def intro!: seals_section)
  have "seals (from_text b) (from_text ?c)"
    using b by (auto simp: from_text_def list_text_def map_fragments_def sealed_def quote_char_def intro!: sealed_list_join)
  then have T: "seals (?T b) (?T ?c)"
    by (intro seals_append sec) (auto simp: no_quote_section quote_char_def)
  have "seals (what_text b) (what_text ?c)"
    using b by (auto simp: what_text_def list_text_def map_fragments_def sealed_def quote_char_def intro!: sealed_list_join seals_plain)
  from seals_then [OF this _ _ T, of "'' FROM ''"]
  have body: "seals (what_text b @ '' FROM '' @ ?T b) (what_text ?c @ '' FROM '' @ ?T ?c)"
    by (simp add: quote_char_def)
  have "seals (?W b @ ''SELECT '' @ what_text b @ '' FROM '' @ ?T b)
      (?W ?c @ ''SELECT '' @ what_text ?c @ '' FROM '' @ ?T ?c)"
  proof (cases "with_list b = []")
    case True
    then show ?thesis
      using seals_any_append [OF seals_any_plain [of "''SELECT ''"] body] by (simp add: map_fragments_def quote_char_def)
  next
    case False
    have "seals (with_text b) (with_text ?c)"
      using b by (auto simp: with_text_def list_text_def map_fragments_def sealed_def quote_char_def intro!: sealed_list_join)
    from seals_any_append [OF seals_any_plain [of "''WITH ''"] seals_then [OF this _ _ body, of "'' SELECT ''"]] False
    show ?thesis by (simp add: map_fragments_def quote_char_def)
  qed
  moreover have "from_list ?c \<noteq> []" using tables by (simp add: map_fragments_def)
  ultimately show ?thesis
    using q tables by (auto simp: str_def)
qed

text \<open>Two sealed builders with the same skeletons.\<close>

definition same_skeleton :: "Builder \<Rightarrow> Builder \<Rightarrow> bool" where
  "same_skeleton b c \<longleftrightarrow> sealed b \<and> sealed c \<and> map_fragments skeleton b = map_fragments skeleton c"

definition both_seal :: "string \<Rightarrow> string \<Rightarrow> bool" where
  "both_seal x y \<longleftrightarrow> (\<exists>k. seals x k \<and> seals y k)"

lemma both_sealD: "both_seal x y \<Longrightarrow> seals x (skeleton x) \<and> seals y (skeleton y) \<and> skeleton x = skeleton y"
  unfolding both_seal_def by (metis seals_skeleton)

lemma both_seal_plain: "quote_char \<notin> set x \<Longrightarrow> both_seal x x"
  unfolding both_seal_def using seals_plain by blast

lemma same_skeleton_add:
  "same_skeleton b c \<Longrightarrow> both_seal x y \<Longrightarrow> same_skeleton (add_where x b) (add_where y c)"
  "same_skeleton b c \<Longrightarrow> both_seal x y \<Longrightarrow> same_skeleton (add_from x b) (add_from y c)"
  "same_skeleton b c \<Longrightarrow> both_seal x y \<Longrightarrow> same_skeleton (add_what x b) (add_what y c)"
  "same_skeleton b c \<Longrightarrow> both_seal x y \<Longrightarrow> same_skeleton (add_orderBy x b) (add_orderBy y c)"
  "same_skeleton b c \<Longrightarrow> both_seal x y \<Longrightarrow> same_skeleton (add_groupBy x b) (add_groupBy y c)"
  by (auto simp: same_skeleton_def sealed_def sealed_list_def map_fragments_def adders dest: both_sealD)

lemma same_skeleton_new: "same_skeleton Builder_new Builder_new"
  by (simp add: same_skeleton_def sealed_def sealed_list_def Builder_new_def)

lemma same_skeleton_str:
  assumes "same_skeleton b c" and "str b = Inr q" and "str c = Inr r"
  shows "both_seal q r"
  using str_sealed [of b q] str_sealed [of c r] assms by (auto simp: same_skeleton_def both_seal_def)

lemma same_skeleton_with:
  assumes st: "same_skeleton st st'" and b: "same_skeleton b c" and a: "quote_char \<notin> set alias"
    and "add_with st alias b = Inr b'" and "add_with st' alias c = Inr c'"
  shows "same_skeleton b' c'"
proof -
  from assms obtain q r where q: "str st = Inr q" "b' = b\<lparr>with_list := with_list b @ [alias @ '' AS ('' @ q @ '')'']\<rparr>"
    and r: "str st' = Inr r" "c' = c\<lparr>with_list := with_list c @ [alias @ '' AS ('' @ r @ '')'']\<rparr>"
    by (auto simp: add_with_def mapE_eq_Inr)
  from same_skeleton_str [OF st q(1) r(1)] obtain k where k: "seals q k" "seals r k"
    by (auto simp: both_seal_def)
  have "seals (q @ '')'') (k @ '')'')" "seals (r @ '')'') (k @ '')'')"
    using k by (auto intro!: seals_append seals_plain simp: quote_char_def)
  moreover have "seals_any (alias @ '' AS ('') (alias @ '' AS ('')"
    using a by (intro seals_any_plain) (simp add: quote_char_def)
  ultimately have "both_seal (alias @ '' AS ('' @ q @ '')'') (alias @ '' AS ('' @ r @ '')'')"
    unfolding both_seal_def using seals_any_append by fastforce
  then show ?thesis
    using b by (auto simp: q(2) r(2) same_skeleton_def sealed_def sealed_list_def map_fragments_def dest: both_sealD)
qed

end
