(* ===== verification/ReadParameters.thy ===== *)
theory ReadParameters
  imports Quoting
begin

text \<open>
  The arguments of a read call (\<open>WciReadParameterCollection.c\<close>) and their text form for error and
  log messages (\<open>WciReadParameterCollection_string.cpp\<close>). A PostgreSQL argument is None when it is
  NULL; an array value has a number of dimensions, a lower bound of its first dimension, and
  elements that may be NULL, and \<open>array_ref\<close> gives NULL outside its bounds.
\<close>

record 'x sql_array =
  arr_ndim :: nat
  arr_lbound :: int
  arr_elems :: "'x option list"

definition array_ref :: "'x sql_array \<Rightarrow> int \<Rightarrow> 'x option" where
  "array_ref a i = (if arr_lbound a \<le> i \<and> i < arr_lbound a + int (length (arr_elems a))
     then arr_elems a ! nat (i - arr_lbound a) else None)"

text \<open>The loop of both array readers, for subscripts \<open>i\<close> up to the size.\<close>

fun read_elements :: "'x sql_array \<Rightarrow> int \<Rightarrow> nat \<Rightarrow> 'x list res" where
  "read_elements a i 0 = Inr []"
| "read_elements a i (Suc n) = (case array_ref a i of
     None \<Rightarrow> Inl (Ereport ERRCODE_DATA_EXCEPTION ''NULL value in array'')
   | Some x \<Rightarrow> mapE (\<lambda>xs. x # xs) (read_elements a (i + 1) n))"

definition arrayFromDatum :: "'x sql_array option \<Rightarrow> 'x list option res" where
  "arrayFromDatum d = (case d of
     None \<Rightarrow> Inr None
   | Some a \<Rightarrow> (if arr_ndim a \<noteq> 1
       then Inl (Ereport ERRCODE_DATA_EXCEPTION ''Invalid number of dimensions in array'')
       else mapE Some (read_elements a 1 (length (arr_elems a)))))"

definition stringArrayFromDatum :: "string sql_array option \<Rightarrow> string list option res" where
  "stringArrayFromDatum = arrayFromDatum"

definition intArrayFromDatum :: "int sql_array option \<Rightarrow> int list option res" where
  "intArrayFromDatum = arrayFromDatum"

definition charStringFromDatum :: "string option \<Rightarrow> string option" where
  "charStringFromDatum d = d"

record WciReadParameterCollection =
  dataProvider :: "string list option"
  location :: "string option"
  referenceTime :: "string option"
  validTime :: "string option"
  parameter :: "string list option"
  level :: "string option"
  dataVersion :: "int list option"

record read_arguments =
  arg0 :: "string sql_array option"
  arg1 :: "string option"
  arg2 :: "string option"
  arg3 :: "string option"
  arg4 :: "string sql_array option"
  arg5 :: "string option"
  arg6 :: "int sql_array option"

definition parseReadParameters :: "read_arguments \<Rightarrow> WciReadParameterCollection res" where
  "parseReadParameters a =
     bindE (stringArrayFromDatum (arg0 a)) (\<lambda>dp.
     bindE (stringArrayFromDatum (arg4 a)) (\<lambda>par.
     mapE (\<lambda>dv. \<lparr>dataProvider = dp, location = charStringFromDatum (arg1 a),
         referenceTime = charStringFromDatum (arg2 a), validTime = charStringFromDatum (arg3 a),
         parameter = par, level = charStringFromDatum (arg5 a), dataVersion = dv\<rparr>)
       (intArrayFromDatum (arg6 a))))"

section \<open>As text\<close>

definition stringFromStringArray :: "'a boost \<Rightarrow> string list option \<Rightarrow> string" where
  "stringFromStringArray E sa = (case sa of
     None \<Rightarrow> ''NULL''
   | Some [] \<Rightarrow> ''ARRAY[]''
   | Some xs \<Rightarrow> ''ARRAY['' @ join '', '' (map (quote E) xs) @ '']'')"

definition stringFromIntArray :: "int list option \<Rightarrow> string" where
  "stringFromIntArray ia = (case ia of
     None \<Rightarrow> ''NULL''
   | Some [] \<Rightarrow> ''ARRAY[]''
   | Some xs \<Rightarrow> ''ARRAY['' @ join '', '' (map show_int xs) @ '']'')"

definition stringFromString :: "'a boost \<Rightarrow> string option \<Rightarrow> string" where
  "stringFromString E s = (case s of None \<Rightarrow> ''NULL'' | Some t \<Rightarrow> quote E t)"

definition collection_items :: "'a boost \<Rightarrow> WciReadParameterCollection \<Rightarrow> string list" where
  "collection_items E c = [stringFromStringArray E (dataProvider c), stringFromString E (location c),
     stringFromString E (referenceTime c), stringFromString E (validTime c),
     stringFromStringArray E (parameter c), stringFromString E (level c),
     stringFromIntArray (dataVersion c), ''NULL::wci.returnfloat'']"

definition stringFromWciReadParameterCollection ::
    "'a boost \<Rightarrow> WciReadParameterCollection option \<Rightarrow> string" where
  "stringFromWciReadParameterCollection E collection = (case collection of
     None \<Rightarrow> ''NULL''
   | Some c \<Rightarrow> ''wci.read('' @ join '', '' (collection_items E c) @ '')'')"

section \<open>Lemmas\<close>

lemma read_elements_iff:
  "read_elements a i n = Inr xs \<longleftrightarrow>
     length xs = n \<and> (\<forall>k < n. array_ref a (i + int k) = Some (xs ! k))"
proof (induction n arbitrary: i xs)
  case (Suc n)
  have "read_elements a i (Suc n) = Inr xs \<longleftrightarrow>
      (\<exists>y ys. xs = y # ys \<and> array_ref a i = Some y \<and> read_elements a (i + 1) n = Inr ys)"
    by (auto simp: mapE_eq_Inr split: option.splits)
  also have "\<dots> \<longleftrightarrow> (\<exists>y ys. xs = y # ys \<and> length ys = n \<and> array_ref a i = Some y
      \<and> (\<forall>k < n. array_ref a (i + 1 + int k) = Some (ys ! k)))"
    by (simp add: Suc.IH) blast
  also have "\<dots> \<longleftrightarrow> length xs = Suc n \<and> (\<forall>k < Suc n. array_ref a (i + int k) = Some (xs ! k))"
    by (cases xs) (auto simp: All_less_Suc2 ac_simps)
  finally show ?case .
qed auto

lemma read_elements_error:
  "read_elements a i n = Inl e \<Longrightarrow> e = Ereport ERRCODE_DATA_EXCEPTION ''NULL value in array''"
  by (induction n arbitrary: i) (auto simp: mapE_eq_Inl split: option.splits)

text \<open>An array is read exactly when it is one-dimensional and has no NULL within subscripts 1 to
  its size.\<close>

lemma arrayFromDatum_Some:
  assumes "arr_lbound a = 1"
  shows "arrayFromDatum (Some a) = Inr (Some xs) \<longleftrightarrow> arr_ndim a = 1 \<and> arr_elems a = map Some xs"
proof -
  have "read_elements a 1 (length (arr_elems a)) = Inr xs \<longleftrightarrow> arr_elems a = map Some xs"
    unfolding read_elements_iff using assms by (auto simp: array_ref_def list_eq_iff_nth_eq)
  then show ?thesis by (auto simp: arrayFromDatum_def mapE_eq_Inr)
qed

lemma arrayFromDatum_errors:
  "arrayFromDatum d = Inl e \<Longrightarrow> \<exists>t. e = Ereport ERRCODE_DATA_EXCEPTION t"
  by (auto simp: arrayFromDatum_def mapE_eq_Inl split: option.splits if_splits dest: read_elements_error)

lemma parseReadParameters_errors:
  "parseReadParameters a = Inl e \<Longrightarrow> \<exists>t. e = Ereport ERRCODE_DATA_EXCEPTION t"
  by (auto simp: parseReadParameters_def bindE_eq_Inl mapE_eq_Inl stringArrayFromDatum_def
      intArrayFromDatum_def dest: arrayFromDatum_errors)

end
