(* ===== verification/Location.thy ===== *)
theory Location
  imports Externals Builder
begin

text \<open>
  \<open>Location\<close> (\<open>src/callInterface/types/location.cpp\<close>): the place argument of a read call, parsed
  with a Boost.Spirit grammar into an interpolation method and either a WKT geometry or a place
  name, and the clauses it adds to a query. The grammar is the source's, as an \<open>sp\<close> term
  whose actions are the assignments to the members. \<open>wci\<close> stands for the macro \<open>WCI_SCHEMA\<close> of the
  generated \<open>config.h\<close>. The schema name of \<open>addToReturnSurroundFloatQuery\<close> is the literal
  \<open>wci_int\<close>, as in the source.
\<close>

datatype InterpolationType = Exact | Nearest | Surround | Bilinear

datatype GeomType = GEOM_UNKNOWN | GEOM_POINT | GEOM_POLYGON | GEOM_MPOLYGON

record Location =
  interpolation :: string
  interpolationType :: InterpolationType
  interpolationParameter :: int
  geometry :: string
  placeName :: string
  geomType :: GeomType

definition hasGeometry :: "Location \<Rightarrow> bool" where
  "hasGeometry l \<longleftrightarrow> geometry l \<noteq> []"

definition hasPlaceName :: "Location \<Rightarrow> bool" where
  "hasPlaceName l \<longleftrightarrow> placeName l \<noteq> []"

section \<open>Parsing\<close>

datatype loc_action =
    AssignType InterpolationType
  | AssignParameter
  | AssignInterpolation
  | AssignGeomType GeomType
  | AssignGeometry
  | AssignPlaceName

fun assign :: "loc_action event \<Rightarrow> Location \<Rightarrow> Location" where
  "assign (AssignType t, s, v) l = l\<lparr>interpolationType := t\<rparr>"
| "assign (AssignParameter, s, v) l = l\<lparr>interpolationParameter := v\<rparr>"
| "assign (AssignInterpolation, s, v) l = l\<lparr>interpolation := s\<rparr>"
| "assign (AssignGeomType g, s, v) l = l\<lparr>geomType := g\<rparr>"
| "assign (AssignGeometry, s, v) l = l\<lparr>geometry := s\<rparr>"
| "assign (AssignPlaceName, s, v) l = l\<lparr>placeName := s\<rparr>"

fun sseq :: "'a sp list \<Rightarrow> 'a sp" where
  "sseq [] = SStr []"
| "sseq [p] = p"
| "sseq (p # q # ps) = SSeq p (sseq (q # ps))"

fun salt :: "'a sp list \<Rightarrow> 'a sp" where
  "salt [] = SStr []"
| "salt [p] = p"
| "salt (p # q # ps) = SAlt p (salt (q # ps))"

definition open_p :: "loc_action sp" where "open_p = SCh (CHR ''('')"
definition close_p :: "loc_action sp" where "close_p = SCh (CHR '')'')"
definition comma_p :: "loc_action sp" where "comma_p = SCh (CHR '','')"

definition interpolation_p :: "loc_action sp" where
  "interpolation_p = SAct AssignInterpolation (SOpt (salt
     [SAct (AssignType Exact) (SStr ''exact''),
      SAct (AssignType Nearest) (SStr ''nearest''),
      SAct (AssignType Surround) (SSeq (SStr ''surround'')
        (SOpt (sseq [open_p, SAct AssignParameter SInt, close_p]))),
      SAct (AssignType Bilinear) (SStr ''bilinear'')]))"

definition more_points_p :: "loc_action sp" where
  "more_points_p = SStar (sseq [comma_p, SReal, SReal])"

definition ring_p :: "loc_action sp" where
  "ring_p = sseq [open_p, SReal, SReal, more_points_p, close_p]"

definition rings_p :: "loc_action sp list" where
  "rings_p = [ring_p, SStar (SSeq comma_p ring_p)]"

definition point_p :: "loc_action sp" where
  "point_p = sseq [SStr ''POINT'', open_p, SReal, SReal, close_p]"

definition polygon_p :: "loc_action sp" where
  "polygon_p = sseq ([SStr ''POLYGON'', open_p] @ rings_p @ [close_p])"

definition multipolygon_p :: "loc_action sp" where
  "multipolygon_p = sseq ([SStr ''MULTIPOLYGON'', open_p, open_p] @ rings_p @ [close_p,
     SStar (sseq ([comma_p, open_p] @ rings_p @ [close_p])), close_p])"

definition geometry_p :: "loc_action sp" where
  "geometry_p = SAct AssignGeometry (salt
     [SAct (AssignGeomType GEOM_POINT) point_p,
      SAct (AssignGeomType GEOM_POLYGON) polygon_p,
      SAct (AssignGeomType GEOM_MPOLYGON) multipolygon_p])"

definition place_p :: "loc_action sp" where
  "place_p = SAct AssignPlaceName (SDiff (SPlus SAny) (sseq
     [SStar (salt [SLower, open_p, close_p]),
      salt (map SStr [''POINT'', ''POLYGON'', ''MULTIPOINT'', ''MULTIPOLYGON'']),
      SStar SAny]))"

definition location_p :: "loc_action sp" where
  "location_p = SSeq (SNoCase interpolation_p) (SAlt geometry_p place_p)"

definition Location_default :: Location where
  "Location_default = \<lparr>interpolation = [], interpolationType = Exact, interpolationParameter = 1,
     geometry = [], placeName = [], geomType = GEOM_UNKNOWN\<rparr>"

definition Location_new :: "loc_action boost \<Rightarrow> string \<Rightarrow> Location res" where
  "Location_new E location = (let (fullMatch, events) = spirit_parse E location_p location;
       l = fold assign events Location_default
     in if fullMatch
        then Inr (l\<lparr>interpolation := lowercase (interpolation l), placeName := lowercase (placeName l)\<rparr>)
        else Inl (InvalidSpecification (''Invalid place specification: '' @ location)))"

section \<open>The clauses of a location\<close>

definition sq :: string where "sq = [CHR 0x27]"

definition queryReturnGrid :: "string \<Rightarrow> Location \<Rightarrow> string" where
  "queryReturnGrid wci l =
     (if hasGeometry l then
        (case interpolationType l of
           Exact \<Rightarrow> ''( equals ( st_geomfromtext( '' @ sq @ geometry l @ sq @ '', 4030 ), v.placegeometry ) )''
         | _ \<Rightarrow> ''st_dwithin( st_transform( st_geomfromtext( '' @ sq @ geometry l @ sq
             @ '', 4030), v.originalsrid ), st_transform( v.placegeometry, v.originalsrid ), 1 )'')
      else ''placeid = (SELECT placeid FROM '' @ wci @ ''.placename_v p, '' @ wci
             @ ''.getSessionData() s WHERE p.placenamespaceid = s.placenamespaceid AND placename = ''
             @ sq @ placeName l @ sq @ '')'')"

definition exact_geometry_text :: "Location \<Rightarrow> string" where
  "exact_geometry_text l = ''('' @
     (case geomType l of
        GEOM_POINT \<Rightarrow> ''equals( st_geomfromtext('' @ sq @ geometry l @ sq @ '', 4030 ), v.placegeometry )''
      | GEOM_UNKNOWN \<Rightarrow> []
      | _ \<Rightarrow> ''st_dwithin( st_transform( v.placegeometry, v.originalsrid ), st_transform( st_geomfromtext( ''
          @ sq @ geometry l @ sq @ '', 4030), v.originalsrid ), 1 )'') @ '')''"

definition addToReturnExactFloatQuery :: "string \<Rightarrow> Location \<Rightarrow> Builder \<Rightarrow> Builder res" where
  "addToReturnExactFloatQuery wci l b =
     (let b1 = (if hasGeometry l then add_where (exact_geometry_text l) b else b)
      in if hasPlaceName l then
           (let sub = add_where (''placename = '' @ sq @ placeName l @ sq)
                (add_where ''p.placenamespaceid = s.placenamespaceid''
                (add_from (wci @ ''.getSessionData() s'')
                (add_from (wci @ ''.placedefinition_mv p'')
                (add_what ''placenamevalidto''
                (add_what ''placenamevalidfrom''
                (add_what ''placegeometry AS geometry_for_name'' Builder_new))))))
            in mapE (\<lambda>b2.
                 add_where ''referencetime < g.placenamevalidto''
                (add_where ''referencetime >= g.placenamevalidfrom''
                (add_where ''_ST_Intersects(g.geometry_for_name, v.placegeometry)''
                (add_where ''g.geometry_for_name && v.placegeometry''
                (add_from ''geometries g'' b2))))) (add_with sub ''geometries'' b1))
         else Inr b1)"

definition addToReturnSurroundFloatQuery :: "Location \<Rightarrow> Builder \<Rightarrow> Builder res" where
  "addToReturnSurroundFloatQuery l b =
     (let original = add_what ''placegeometry'' (add_what ''placeid'' b)
      in bindE (add_with original ''floatvalue'' Builder_new) (\<lambda>b1.
         let b2 = add_from ''floatvalue v'' b1
         in if hasGeometry l then
              Inr (add_where (''placeid = (SELECT placeid FROM floatvalue v ORDER BY v.placegeometry <-> st_geomfromtext(''
                @ sq @ geometry l @ sq @ '', 4030) LIMIT '' @ show_int (interpolationParameter l) @ '')'') b2)
            else
              (let locationQuery = add_where (''placename='' @ sq @ placeName l @ sq)
                   (add_where ''s.placenamespaceid=p.placenamespaceid''
                   (add_what ''placenamevalidto''
                   (add_what ''placenamevalidfrom''
                   (add_what ''placegeometry''
                   (add_from ''wci_int.getsessiondata() s'' (Builder_of ''wci_int.placedefinition_mv p''))))))
               in mapE (\<lambda>b3.
                    add_where (''placeid in (SELECT placeid FROM floatvalue v ORDER BY v.placegeometry <-> l.placegeometry LIMIT ''
                       @ show_int (interpolationParameter l) @ '')'')
                   (add_where ''v.referencetime < l.placenamevalidto''
                   (add_where ''v.referencetime >= l.placenamevalidfrom''
                   (add_from ''wanted_location l'' b3)))) (add_with locationQuery ''wanted_location'' b2))))"

definition addToReturnNearestFloatQuery :: "Location \<Rightarrow> Builder \<Rightarrow> Builder res" where
  "addToReturnNearestFloatQuery l b = addToReturnSurroundFloatQuery l b"

definition addToReturnBilinearFloatQuery :: "Builder \<Rightarrow> Builder" where
  "addToReturnBilinearFloatQuery b = add_where ''FALSE'' b"

text \<open>The \<open>Bilinear\<close> case has no \<open>break\<close> and runs on into the default case.\<close>

definition addFloatTableQuery :: "string \<Rightarrow> Location \<Rightarrow> Builder \<Rightarrow> Builder res" where
  "addFloatTableQuery wci l b = (case interpolationType l of
     Exact \<Rightarrow> addToReturnExactFloatQuery wci l b
   | Nearest \<Rightarrow> addToReturnNearestFloatQuery l b
   | Surround \<Rightarrow> addToReturnSurroundFloatQuery l b
   | Bilinear \<Rightarrow> Inr (add_where ''FALSE'' (addToReturnBilinearFloatQuery b)))"

definition addGridTableQuery :: "string \<Rightarrow> Location \<Rightarrow> Builder \<Rightarrow> Builder" where
  "addGridTableQuery wci l b = add_where (queryReturnGrid wci l) b"

text \<open>The SQL function \<open>getWciLocation\<close> (\<open>wciLocation.cpp\<close>): interpolation, place and whether
  the place is a geometry.\<close>

definition getWciLocation :: "loc_action boost \<Rightarrow> string \<Rightarrow> (string \<times> string \<times> bool) res" where
  "getWciLocation E location = report_std ERRCODE_INVALID_TEXT_REPRESENTATION
     (mapE (\<lambda>l. (interpolation l, if hasGeometry l then geometry l else placeName l, hasGeometry l))
       (Location_new E location))"

section \<open>Lemmas on parsing\<close>

text \<open>A parser without actions under one action: it fails silently or runs that action on a text at
  least as long as what it matched.\<close>

lemma sp_act_cases:
  assumes "set_sp p = {}"
  shows "sp_run (SAct a p) nc s = (None, []) \<or>
    (\<exists>s' m v t. sp_run (SAct a p) nc s = (Some (s', m, v), [(a, t, v)]) \<and> m \<le> length t
        \<and> (\<exists>s0. sp_run p nc s0 = (Some (s', m, v), [])))"
proof -
  obtain r ev where run: "sp_run p nc (skip_space s) = (r, ev)" by fastforce
  then have ev: "ev = []" using assms sp_run_no_actions by blast
  show ?thesis
  proof (cases r)
    case None
    with run ev show ?thesis by simp
  next
    case (Some x)
    obtain s' m v where x: "x = (s', m, v)" by (cases x)
    have "length s' + m \<le> length (skip_space s)"
      using sp_fits_length [OF sp_run_fits] run Some x by blast
    with run ev Some x show ?thesis
      by (auto simp: Let_def intro: exI [of _ "skip_space s"])
  qed
qed

lemma sp_seq_str_min: "sp_run (SSeq (SStr w) q) nc s = (Some (s', m, v), ev) \<Longrightarrow> length w \<le> m"
  by (auto split: option.splits prod.splits dest: sp_prefix_length)

lemma no_actions:
  "set_sp point_p = {}" "set_sp polygon_p = {}" "set_sp multipolygon_p = {}"
  by (simp_all add: point_p_def polygon_p_def multipolygon_p_def rings_p_def ring_p_def more_points_p_def
      open_p_def close_p_def comma_p_def)

lemma point_min: "sp_run point_p nc s = (Some (s', m, v), ev) \<Longrightarrow> 5 \<le> m"
  using sp_seq_str_min [of "''POINT''"] unfolding point_p_def sseq.simps by fastforce

lemma polygon_min: "sp_run polygon_p nc s = (Some (s', m, v), ev) \<Longrightarrow> 5 \<le> m"
  using sp_seq_str_min [of "''POLYGON''"] unfolding polygon_p_def append.simps sseq.simps by fastforce

lemma multipolygon_min: "sp_run multipolygon_p nc s = (Some (s', m, v), ev) \<Longrightarrow> 5 \<le> m"
  using sp_seq_str_min [of "''MULTIPOLYGON''"] unfolding multipolygon_p_def append.simps sseq.simps by fastforce

definition geometry_alt :: "loc_action sp" where
  "geometry_alt = salt
     [SAct (AssignGeomType GEOM_POINT) point_p,
      SAct (AssignGeomType GEOM_POLYGON) polygon_p,
      SAct (AssignGeomType GEOM_MPOLYGON) multipolygon_p]"

lemma geometry_alt_cases:
  "sp_run geometry_alt nc s = (None, []) \<or>
   (\<exists>s' m v g t. sp_run geometry_alt nc s = (Some (s', m, v), [(AssignGeomType g, t, v)])
      \<and> 5 \<le> m \<and> g \<noteq> GEOM_UNKNOWN)"
proof -
  note 1 = sp_act_cases [OF no_actions(1), of "AssignGeomType GEOM_POINT" nc s]
  note 2 = sp_act_cases [OF no_actions(2), of "AssignGeomType GEOM_POLYGON" nc s]
  note 3 = sp_act_cases [OF no_actions(3), of "AssignGeomType GEOM_MPOLYGON" nc s]
  have run: "sp_run geometry_alt nc s = (case sp_run (SAct (AssignGeomType GEOM_POINT) point_p) nc s of
      (Some r, ev) \<Rightarrow> (Some r, ev)
    | (None, ev) \<Rightarrow> (let (r, ev') = (case sp_run (SAct (AssignGeomType GEOM_POLYGON) polygon_p) nc s of
         (Some r, ev) \<Rightarrow> (Some r, ev)
       | (None, ev) \<Rightarrow> (let (r, ev') = sp_run (SAct (AssignGeomType GEOM_MPOLYGON) multipolygon_p) nc s
           in (r, ev @ ev'))) in (r, ev @ ev')))"
    unfolding geometry_alt_def salt.simps sp_run.simps(8) ..
  show ?thesis
    unfolding run using 1 2 3
    by (elim disjE exE conjE) (simp_all del: sp_run.simps, (blast dest: point_min polygon_min multipolygon_min)+)
qed

lemma geometry_p_cases:
  "sp_run geometry_p nc s = (None, []) \<or>
   (\<exists>s' m v g t t'. sp_run geometry_p nc s = (Some (s', m, v), [(AssignGeomType g, t', v), (AssignGeometry, t, v)])
      \<and> t \<noteq> [] \<and> g \<noteq> GEOM_UNKNOWN)"
proof -
  have p: "geometry_p = SAct AssignGeometry geometry_alt"
    by (simp only: geometry_p_def geometry_alt_def)
  from geometry_alt_cases [of nc "skip_space s"] show ?thesis
  proof (elim disjE exE conjE)
    assume "sp_run geometry_alt nc (skip_space s) = (None, [])"
    then show ?thesis by (simp add: p)
  next
    fix s' m v g t
    assume run: "sp_run geometry_alt nc (skip_space s) = (Some (s', m, v), [(AssignGeomType g, t, v)])"
      and m: "5 \<le> m" and g: "g \<noteq> GEOM_UNKNOWN"
    have "length s' + m \<le> length (skip_space s)" by (rule sp_fits_length [OF sp_run_fits run])
    with m have "length (take (length (skip_space s) - length s') (skip_space s)) \<noteq> 0" by simp
    then have "take (length (skip_space s) - length s') (skip_space s) \<noteq> []" by (metis length_0_conv)
    with run g show ?thesis by (simp add: p Let_def)
  qed
qed

lemma place_p_cases:
  "sp_run place_p nc s = (None, []) \<or>
   (\<exists>s' m v t. sp_run place_p nc s = (Some (s', m, v), [(AssignPlaceName, t, v)]) \<and> t \<noteq> [])"
proof -
  define q :: "loc_action sp" where "q = sseq
     [SStar (salt [SLower, open_p, close_p]),
      salt (map SStr [''POINT'', ''POLYGON'', ''MULTIPOINT'', ''MULTIPOLYGON'']), SStar SAny]"
  have p: "place_p = SAct AssignPlaceName (SDiff (SPlus SAny) q)"
    by (simp only: place_p_def q_def)
  have none: "set_sp (SDiff (SPlus SAny) q) = {}"
    by (simp add: q_def open_p_def close_p_def)
  have min: "1 \<le> m" if "sp_run (SDiff (SPlus SAny) q) nc s0 = (Some (s', m, v), [])" for s0 s' m v
  proof -
    have "\<exists>ev. sp_run (SPlus SAny :: loc_action sp) nc s0 = (Some (s', m, v), ev)"
      using that by (auto split: option.splits prod.splits if_splits)
    then obtain ev where plus: "sp_run (SPlus SAny :: loc_action sp) nc s0 = (Some (s', m, v), ev)" ..
    from plus obtain s1 m1 v1 where 1: "sp_char nc (\<lambda>x. True) s0 = Some (s1, m1, v1)"
      by (auto split: option.splits)
    obtain r ev' where loop: "sp_loop (length s1) (sp_run (SAny :: loc_action sp) nc) s1 m1 = (r, ev')" by fastforce
    with plus 1 have "r = Some (s', m, v)" by auto
    with sp_loop_fits [OF sp_run_fits loop] sp_char_length [OF 1] show ?thesis by auto
  qed
  show ?thesis
    using sp_act_cases [OF none, of AssignPlaceName nc s] unfolding p [symmetric]
    by (elim disjE exE conjE) (auto dest!: min simp del: sp_run.simps)
qed

definition is_interpolation_action :: "loc_action \<Rightarrow> bool" where
  "is_interpolation_action a \<longleftrightarrow> a = AssignInterpolation \<or> a = AssignParameter \<or> (\<exists>t. a = AssignType t)"

lemma interpolation_p_actions: "a \<in> set_sp interpolation_p \<Longrightarrow> is_interpolation_action a"
  by (auto simp: interpolation_p_def is_interpolation_action_def open_p_def close_p_def)

lemma location_events:
  assumes "sp_parse location_p s = (True, ev)"
  shows "\<exists>pre tail. ev = pre @ tail \<and> (\<forall>e \<in> set pre. is_interpolation_action (fst e)) \<and>
    ((\<exists>g t t' v. tail = [(AssignGeomType g, t', v), (AssignGeometry, t, v)] \<and> t \<noteq> [] \<and> g \<noteq> GEOM_UNKNOWN)
      \<or> (\<exists>t v. tail = [(AssignPlaceName, t, v)] \<and> t \<noteq> []))"
proof -
  obtain r1 ev1 where 1: "sp_run interpolation_p True s = (r1, ev1)" by fastforce
  have pre: "\<forall>e \<in> set ev1. is_interpolation_action (fst e)"
    using sp_fits_events [OF sp_run_fits 1] interpolation_p_actions by blast
  from assms 1 obtain s1 m1 v1 where r1: "r1 = Some (s1, m1, v1)"
    by (auto simp: sp_parse_def location_p_def split: option.splits)
  obtain r2 ev2 where 2: "sp_run (SAlt geometry_p place_p) False s1 = (r2, ev2)" by fastforce
  with assms 1 r1 have ev: "ev = ev1 @ ev2" and "r2 \<noteq> None"
    by (auto simp: sp_parse_def location_p_def simp del: sp_run.simps(8) split: option.splits)
  have "(\<exists>g t t' v. ev2 = [(AssignGeomType g, t', v), (AssignGeometry, t, v)] \<and> t \<noteq> [] \<and> g \<noteq> GEOM_UNKNOWN)
      \<or> (\<exists>t v. ev2 = [(AssignPlaceName, t, v)] \<and> t \<noteq> [])"
    using geometry_p_cases [of False s1]
  proof (elim disjE exE conjE)
    assume none: "sp_run geometry_p False s1 = (None, [])"
    obtain r3 ev3 where 3: "sp_run place_p False s1 = (r3, ev3)" by fastforce
    with 2 none \<open>r2 \<noteq> None\<close> have "r3 \<noteq> None" "ev2 = ev3" by (auto simp: Let_def)
    with place_p_cases [of False s1] 3 show ?thesis by auto
  next
    fix s' m v g t t'
    assume "sp_run geometry_p False s1 = (Some (s', m, v), [(AssignGeomType g, t', v), (AssignGeometry, t, v)])"
      "t \<noteq> []" "g \<noteq> GEOM_UNKNOWN"
    with 2 show ?thesis by auto
  qed
  with ev pre show ?thesis by blast
qed

lemma assign_interpolation:
  "is_interpolation_action (fst e) \<Longrightarrow> geometry (assign e l) = geometry l \<and>
     placeName (assign e l) = placeName l \<and> geomType (assign e l) = geomType l"
  by (cases e) (auto simp: is_interpolation_action_def)

lemma fold_assign_interpolation:
  "\<forall>e \<in> set es. is_interpolation_action (fst e) \<Longrightarrow> geometry (fold assign es l) = geometry l \<and>
     placeName (fold assign es l) = placeName l \<and> geomType (fold assign es l) = geomType l"
  by (induction es arbitrary: l) (auto simp: assign_interpolation)

section \<open>Properties\<close>

text \<open>C3: a location that parses names its place in exactly one way: a geometry (then its geometry
  type is known) or a place name in lower case, never both and never neither.\<close>

theorem location_geometry_xor_name:
  assumes "documented E" and "Location_new E s = Inr l"
  shows "hasGeometry l \<noteq> hasPlaceName l \<and> (hasGeometry l \<longleftrightarrow> geomType l \<noteq> GEOM_UNKNOWN)
    \<and> lowercase (placeName l) = placeName l"
proof -
  obtain full ev where parse: "sp_parse location_p s = (full, ev)" by fastforce
  define l1 where "l1 = fold assign ev Location_default"
  have new: "Location_new E s = (if full
      then Inr (l1\<lparr>interpolation := lowercase (interpolation l1), placeName := lowercase (placeName l1)\<rparr>)
      else Inl (InvalidSpecification (''Invalid place specification: '' @ s)))"
    by (simp only: Location_new_def documented_simps(3) [OF assms(1)] parse Let_def prod.case l1_def)
  have full: "full"
    using assms(2) unfolding new by (cases full) simp_all
  have l: "l = l1\<lparr>interpolation := lowercase (interpolation l1), placeName := lowercase (placeName l1)\<rparr>"
    using assms(2) unfolding new by (simp only: full if_True sum.inject)
  from parse full have "sp_parse location_p s = (True, ev)" by simp
  from location_events [OF this] obtain pre tail where ev: "ev = pre @ tail"
    and pre: "\<forall>e \<in> set pre. is_interpolation_action (fst e)"
    and tail: "(\<exists>g t t' v. tail = [(AssignGeomType g, t', v), (AssignGeometry, t, v)] \<and> t \<noteq> [] \<and> g \<noteq> GEOM_UNKNOWN)
      \<or> (\<exists>t v. tail = [(AssignPlaceName, t, v)] \<and> t \<noteq> [])" by (elim exE conjE)
  define l0 where "l0 = fold assign pre Location_default"
  have l0: "geometry l0 = []" "placeName l0 = []" "geomType l0 = GEOM_UNKNOWN"
    using fold_assign_interpolation [OF pre, of Location_default] by (simp_all add: l0_def Location_default_def)
  have l1: "l1 = fold assign tail l0" by (simp add: l1_def l0_def ev)
  show ?thesis
    using tail
  proof (elim disjE exE conjE)
    fix g t t' v
    assume "tail = [(AssignGeomType g, t', v), (AssignGeometry, t, v)]" "t \<noteq> []" "g \<noteq> GEOM_UNKNOWN"
    with l0 show ?thesis by (simp add: l l1 hasGeometry_def hasPlaceName_def)
  next
    fix t v
    assume "tail = [(AssignPlaceName, t, v)]" "t \<noteq> []"
    with l0 show ?thesis by (simp add: l l1 hasGeometry_def hasPlaceName_def)
  qed
qed

lemma location_example:
  "Location_new boost_ref ''surround(4) POINT(1 2)'' = Inr \<lparr>interpolation = ''surround(4)'',
     interpolationType = Surround, interpolationParameter = 4, geometry = ''POINT(1 2)'', placeName = [],
     geomType = GEOM_POINT\<rparr>"
  by code_simp

theorem location_geometry_xor_name_witness:
  "hasGeometry \<lparr>interpolation = ''surround(4)'', interpolationType = Surround, interpolationParameter = 4,
     geometry = ''POINT(1 2)'', placeName = [], geomType = GEOM_POINT\<rparr>"
  using location_geometry_xor_name [OF documented_ref location_example] by (simp add: hasGeometry_def)

end
