(* ===== verification/BuildQuery.thy ===== *)
theory BuildQuery
  imports ReadParameters Specifications Location
begin

text \<open>
  The construction of the SQL text of a read call
  (\<open>src/callInterface/core/wciRead/query/\<close>: \<open>timeQuery.cpp\<close>, \<open>parameterQuery.cpp\<close>,
  \<open>levelQuery.cpp\<close>, \<open>dataversionQuery.cpp\<close>, \<open>buildQuery.cpp\<close>). Every argument of
  \<open>wci.read\<close> that is not NULL adds its clauses to a \<open>Builder\<close>; \<open>build_query\<close> turns the
  exceptions of the parts into PostgreSQL errors. \<open>wci\<close> is the macro \<open>WCI_SCHEMA\<close>.
\<close>

datatype DataSource = FloatTable | GridTable

datatype OutputType = OutputFloat | OutputGid

section \<open>Times\<close>

definition quoted :: "string \<Rightarrow> string" where
  "quoted s = sq @ s @ sq"

definition reference_condition :: "TimeSpecification \<Rightarrow> string" where
  "reference_condition ts =
     (let timeFrom = ts_from ts;
          timeTo = (if ts_durationInsteadOfTo ts
            then timeFrom @ sq @ ''::timestamp with time zone+'' @ sq @ ts_interval ts else ts_to ts);
          ind = ts_indeterminate ts
      in if ind = ''exact'' then
           (if timeFrom = timeTo then ''referencetime = '' @ quoted timeFrom
            else ''referencetime = '' @ quoted timeFrom @ '' AND referencetime = '' @ quoted timeTo)
         else if ind = ''inside'' then
           ''referencetime >= '' @ quoted timeFrom @ '' AND referencetime <= '' @ quoted timeTo
         else if ind = ''contains'' then
           ''referencetime = '' @ quoted timeFrom @ '' AND referencetime = '' @ quoted timeTo
         else if ind = ''before'' then ''referencetime < '' @ quoted timeFrom
         else if ind = ''after'' then ''referencetime > '' @ quoted timeTo
         else if ind = ''any'' then ''TRUE''
         else ind)"

definition addReferenceTimeQuery ::
    "'a boost \<Rightarrow> string option \<Rightarrow> Builder \<Rightarrow> Builder res" where
  "addReferenceTimeQuery E spec_arg b = (case spec_arg of
     None \<Rightarrow> Inr b
   | Some spec \<Rightarrow> mapE (\<lambda>ts. add_where (''('' @ reference_condition ts @ '') '') b)
       (TimeSpecification_new E spec))"

definition isSpecialValue :: "string \<Rightarrow> bool" where
  "isSpecialValue t \<longleftrightarrow> t = ''referencetime'' \<or> t = ''NULL''"

definition quote_time :: "string \<Rightarrow> string" where
  "quote_time t = (if isSpecialValue t then t else quoted t)"

definition valid_condition :: "TimeSpecification \<Rightarrow> string res" where
  "valid_condition ts =
     (let timeFrom = quote_time (ts_from ts);
          timeTo = (if ts_durationInsteadOfTo ts
            then timeFrom @ ''::timestamp with time zone+'' @ quoted (ts_interval ts)
            else quote_time (ts_to ts));
          ind = ts_indeterminate ts
      in if ind = ''exact'' then Inr (''validtimefrom = '' @ timeFrom @ '' AND validtimeto = '' @ timeTo)
         else if ind = ''inside'' then Inr (''validtimefrom >= '' @ timeFrom @ '' AND validtimeto <= '' @ timeTo)
         else if ind = ''contains'' then Inr (''validtimefrom <= '' @ timeFrom @ '' AND validtimeto >= '' @ timeTo)
         else if ind = ''before'' then Inr (''validtimefrom < '' @ timeFrom)
         else if ind = ''after'' then Inr (''validtimeto > '' @ timeTo)
         else if ind = ''any'' then Inr ''TRUE''
         else Inl (Ereport ERRCODE_DATA_EXCEPTION ''Invalid time indeterminate code''))"

definition addValidTimeQuery ::
    "'a boost \<Rightarrow> string option \<Rightarrow> Builder \<Rightarrow> Builder res" where
  "addValidTimeQuery E spec_arg b = (case spec_arg of
     None \<Rightarrow> Inr b
   | Some spec \<Rightarrow> bindE (TimeSpecification_new E spec) (\<lambda>ts.
       mapE (\<lambda>q. add_where (''('' @ q @ '')'') b) (valid_condition ts)))"

section \<open>Parameters and levels\<close>

definition prepParameter :: "'a boost \<Rightarrow> string \<Rightarrow> string res" where
  "prepParameter E p = (if p = [] then Inl (Logic_error ''empty parameters are not allowed'')
     else Inr (lquote E p))"

fun prepParameters :: "'a boost \<Rightarrow> string list \<Rightarrow> string list res" where
  "prepParameters E [] = Inr []"
| "prepParameters E (p # ps) = bindE (prepParameter E p) (\<lambda>q.
     mapE (\<lambda>qs. (''valueparametername LIKE '' @ q) # qs) (prepParameters E ps))"

definition addParameterQuery ::
    "'a boost \<Rightarrow> string list option \<Rightarrow> Builder \<Rightarrow> Builder res" where
  "addParameterQuery E parameters b = (case parameters of
     None \<Rightarrow> Inr b
   | Some [] \<Rightarrow> Inr (add_where ''FALSE'' b)
   | Some ps \<Rightarrow> mapE (\<lambda>qs. add_where (''('' @ join '' OR '' qs @ '')'') b) (prepParameters E ps))"

definition level_condition :: "LevelSpecification \<Rightarrow> string" where
  "level_condition lvl =
     (let ind = ls_indeterminate lvl; f = show_g (ls_from lvl); t = show_g (ls_to lvl)
      in if ind = ''exact'' then '' AND levelfrom = '' @ f @ '' AND levelto = '' @ t
         else if ind = ''inside'' then '' AND levelfrom >= '' @ f @ '' AND levelto <= '' @ t
         else if ind = ''below'' then '' AND levelfrom < '' @ f
         else if ind = ''above'' then '' AND levelto > '' @ t
         else if ind = ''any'' then []
         else ind)"

definition addLevelQuery :: "'a boost \<Rightarrow> string option \<Rightarrow> Builder \<Rightarrow> Builder res" where
  "addLevelQuery E spec_arg b = (case spec_arg of
     None \<Rightarrow> Inr b
   | Some spec \<Rightarrow> mapE (\<lambda>lvl. add_where (''(levelparametername LIKE '' @ lquote E (ls_parameter lvl)
        @ level_condition lvl @ '')'') b) (LevelSpecification_new E spec))"

section \<open>Data versions\<close>

text \<open>The negation of the smallest \<open>int\<close> is undefined.\<close>

fun negated_versions :: "int list \<Rightarrow> string list res" where
  "negated_versions [] = Inr []"
| "negated_versions (v # vs) = (if v = INT_MIN then Inl (Undefined ''negation of INT_MIN'')
     else mapE (\<lambda>xs. (''(maxdataversion +1 -'' @ show_int (- v) @ '')'') # xs) (negated_versions vs))"

definition addDataVersionQuery :: "int list option \<Rightarrow> Builder \<Rightarrow> Builder res" where
  "addDataVersionQuery dataVersions b = (case dataVersions of
     None \<Rightarrow> Inr b
   | Some [] \<Rightarrow> Inr (add_where ''FALSE'' b)
   | Some vs \<Rightarrow>
       (let negativeVersion = filter (\<lambda>v. v < 0) vs; positiveVersion = filter (\<lambda>v. \<not> v < 0) vs
        in mapE (\<lambda>negs. add_where (''(''
              @ (if positiveVersion \<noteq> [] then ''dataversion IN ('' @ join '', '' (map show_int positiveVersion) @ '') ''
                 else [])
              @ (if positiveVersion \<noteq> [] \<and> negativeVersion \<noteq> [] then ''OR '' else [])
              @ (if negativeVersion \<noteq> [] then ''dataversion IN ('' @ join '', '' negs @ '') '' else [])
              @ '') '') b) (negated_versions negativeVersion)))"

section \<open>Data provider and location\<close>

definition dataprovider_query :: "'a boost \<Rightarrow> string \<Rightarrow> string list \<Rightarrow> Builder" where
  "dataprovider_query E wci names =
     add_where ''source.dataprovidernamerightset >= d.dataprovidernamerightset''
    (add_where ''source.dataprovidernameleftset <= d.dataprovidernameleftset''
    (add_where (''('' @ join '' OR '' (map (\<lambda>n. ''source.dataprovidername = '' @ quote E (lower E n)) names) @ '')'')
    (add_from (wci @ ''.dataprovider_mv source'')
    (add_from (wci @ ''.dataprovider_mv d'')
    (add_what ''d.dataproviderid AS id'' Builder_new)))))"

definition addDataProviderQuery ::
    "'a boost \<Rightarrow> string \<Rightarrow> string list option \<Rightarrow> Builder \<Rightarrow> Builder res" where
  "addDataProviderQuery E wci dp b = (case dp of
     None \<Rightarrow> Inr b
   | Some [] \<Rightarrow> Inr (add_where ''FALSE '' b)
   | Some names \<Rightarrow> mapE (\<lambda>b1. add_where ''v.dataproviderid IN (dataprovider.id)'' (add_from ''dataprovider'' b1))
       (add_with (dataprovider_query E wci names) ''dataprovider'' b))"

definition report_InvalidSpecification :: "'a res \<Rightarrow> 'a res" where
  "report_InvalidSpecification m = (case m of
     Inl (InvalidSpecification t) \<Rightarrow> Inl (Ereport ERRCODE_DATA_EXCEPTION t) | _ \<Rightarrow> m)"

definition addLocationQuery ::
    "loc_action boost \<Rightarrow> string \<Rightarrow> string option \<Rightarrow> DataSource \<Rightarrow> OutputType \<Rightarrow> Builder \<Rightarrow> Builder res" where
  "addLocationQuery E wci loc sourceTable output b = (case loc of
     None \<Rightarrow> Inr b
   | Some s \<Rightarrow> report_InvalidSpecification (bindE (Location_new E s) (\<lambda>l.
       if sourceTable = FloatTable then addFloatTableQuery wci l b
       else if output = OutputGid then Inr (addGridTableQuery wci l b)
       else Inr b)))"

section \<open>The whole query\<close>

definition add_parameters :: "loc_action boost \<Rightarrow> string \<Rightarrow> WciReadParameterCollection \<Rightarrow> DataSource \<Rightarrow>
    OutputType \<Rightarrow> Builder \<Rightarrow> Builder res" where
  "add_parameters E wci p src out b =
     bindE (addDataProviderQuery E wci (dataProvider p) b) (\<lambda>b.
     bindE (addReferenceTimeQuery E (referenceTime p) b) (\<lambda>b.
     bindE (addValidTimeQuery E (validTime p) b) (\<lambda>b.
     bindE (addParameterQuery E (parameter p) b) (\<lambda>b.
     bindE (addLevelQuery E (level p) b) (\<lambda>b.
     bindE (addDataVersionQuery (dataVersion p) b) (\<lambda>b.
     addLocationQuery E wci (location p) src out b))))))"

definition report_all :: "errcode \<Rightarrow> 'a res \<Rightarrow> 'a res" where
  "report_all c m = (case m of
     Inl NoSuchGeometryName \<Rightarrow> Inl (Ereport ERRCODE_RAISE_EXCEPTION ''Unrecognized error'')
   | _ \<Rightarrow> report_std c m)"

definition base_query :: "string \<Rightarrow> DataSource \<Rightarrow> string \<Rightarrow> Builder" where
  "base_query wci src selectWhat = add_what selectWhat
     (add_from (wci @ (if src = FloatTable then ''.floatvalue_v v'' else ''.gridvalue_v v'')) Builder_new)"

definition build_query :: "loc_action boost \<Rightarrow> string \<Rightarrow> WciReadParameterCollection option \<Rightarrow> DataSource \<Rightarrow>
    OutputType \<Rightarrow> string \<Rightarrow> string option \<Rightarrow> string option \<Rightarrow> string res" where
  "build_query E wci parameters src out selectWhat order_by group_by =
     report_all ERRCODE_DATA_EXCEPTION
       (bindE (case parameters of
            None \<Rightarrow> Inr (base_query wci src selectWhat)
          | Some p \<Rightarrow> add_parameters E wci p src out (base_query wci src selectWhat)) (\<lambda>b.
        let b1 = (case order_by of None \<Rightarrow> b | Some o' \<Rightarrow> add_orderBy o' b);
            b2 = (case group_by of None \<Rightarrow> b1 | Some g \<Rightarrow> add_groupBy g b1)
        in str b2))"

definition build_placeSpecQuery :: "string \<Rightarrow> int \<Rightarrow> string" where
  "build_placeSpecQuery wci placeid =
     ''SELECT startx, starty, numberx, numbery, incrementx, incrementy, originalsrid, projdefinition FROM ''
     @ wci @ ''.placeregulargrid_mv WHERE placeid='' @ show_int placeid"

definition build_placeNameQuery :: "string \<Rightarrow> string \<Rightarrow> string" where
  "build_placeNameQuery wci name =
     ''SELECT st_astext(placegeometry) FROM '' @ wci @ ''.placedefinition_mv p, '' @ wci
     @ ''.getSessionData() s WHERE p.placenamespaceid = s.placenamespaceid AND placename ILIKE ''
     @ quoted name"

section \<open>When the parts succeed\<close>

definition time_ok :: "'a boost \<Rightarrow> string option \<Rightarrow> bool" where
  "time_ok E s \<longleftrightarrow> (\<forall>t. s = Some t \<longrightarrow> (\<exists>ts. TimeSpecification_new E t = Inr ts))"

definition valid_ok :: "'a boost \<Rightarrow> string option \<Rightarrow> bool" where
  "valid_ok E s \<longleftrightarrow> (\<forall>t. s = Some t \<longrightarrow>
     (\<exists>ts. TimeSpecification_new E t = Inr ts \<and> ts_indeterminate ts \<in> set time_words))"

definition level_ok :: "string option \<Rightarrow> bool" where
  "level_ok s \<longleftrightarrow> (\<forall>t. s = Some t \<longrightarrow> level_accepted t)"

definition names_ok :: "string list option \<Rightarrow> bool" where
  "names_ok s \<longleftrightarrow> (\<forall>ps. s = Some ps \<longrightarrow> [] \<notin> set ps)"

definition versions_ok :: "int list option \<Rightarrow> bool" where
  "versions_ok s \<longleftrightarrow> (\<forall>vs. s = Some vs \<longrightarrow> INT_MIN \<notin> set vs)"

definition location_ok :: "loc_action boost \<Rightarrow> string option \<Rightarrow> bool" where
  "location_ok E s \<longleftrightarrow> (\<forall>t. s = Some t \<longrightarrow> (\<exists>l. Location_new E t = Inr l))"

text \<open>An operation that fails only with what it says and keeps a complete query complete: a result
  exactly under \<open>P\<close>, every error is in \<open>errs\<close>.\<close>

definition query_step :: "bool \<Rightarrow> err set \<Rightarrow> (Builder \<Rightarrow> Builder res) \<Rightarrow> bool" where
  "query_step P errs f \<longleftrightarrow> (\<forall>b. from_list b \<noteq> [] \<longrightarrow>
     (case f b of Inr b' \<Rightarrow> P \<and> from_list b' \<noteq> [] | Inl e \<Rightarrow> \<not> P \<and> e \<in> errs))"

lemma query_stepI:
  "(\<And>b. from_list b \<noteq> [] \<Longrightarrow> case f b of Inr b' \<Rightarrow> P \<and> from_list b' \<noteq> [] | Inl e \<Rightarrow> \<not> P \<and> e \<in> errs)
    \<Longrightarrow> query_step P errs f"
  by (simp add: query_step_def)

lemma query_stepD:
  "query_step P errs f \<Longrightarrow> from_list b \<noteq> [] \<Longrightarrow>
    case f b of Inr b' \<Rightarrow> P \<and> from_list b' \<noteq> [] | Inl e \<Rightarrow> \<not> P \<and> e \<in> errs"
  by (simp add: query_step_def)

lemma query_step_bind:
  assumes f: "query_step P errs f" and g: "query_step Q errs g"
  shows "query_step (P \<and> Q) errs (\<lambda>b. bindE (f b) g)"
proof (rule query_stepI)
  fix b :: Builder assume b: "from_list b \<noteq> []"
  show "case bindE (f b) g of Inr b' \<Rightarrow> (P \<and> Q) \<and> from_list b' \<noteq> [] | Inl e \<Rightarrow> \<not> (P \<and> Q) \<and> e \<in> errs"
  proof (cases "f b")
    case (Inl e)
    with query_stepD [OF f b] show ?thesis by simp
  next
    case (Inr b1)
    with query_stepD [OF f b] have "P" "from_list b1 \<noteq> []" by simp_all
    with query_stepD [OF g, of b1] Inr show ?thesis by (auto split: sum.splits)
  qed
qed

text \<open>The errors of the parts; the undefined step needs a data version that has no negation.\<close>

definition query_errors :: "bool \<Rightarrow> err set" where
  "query_errors versions = {Logic_error t |t. True} \<union> {Ereport ERRCODE_DATA_EXCEPTION t |t. True}
     \<union> (if versions then {} else {Undefined ''negation of INT_MIN''})"

lemma time_error: "TimeSpecification_new E t = Inl e \<Longrightarrow> e \<in> (query_errors v)"
  by (auto simp: TimeSpecification_new_def query_errors_def Let_def split: option.splits if_splits)

lemma level_error: "LevelSpecification_new E t = Inl e \<Longrightarrow> e \<in> (query_errors v)"
  by (auto simp: LevelSpecification_new_def query_errors_def Let_def split: option.splits if_splits)

lemma reference_step: "query_step (time_ok E s) (query_errors v) (addReferenceTimeQuery E s)"
  by (rule query_stepI)
    (auto simp: addReferenceTimeQuery_def time_ok_def mapE_def add_where_def time_error
      split: option.splits sum.splits)

lemma lowercase_word: "lowercase w \<in> set time_words \<Longrightarrow> w \<noteq> ''any''"
  by (auto simp: time_words_def tolower_def code_def)

lemma valid_condition_cases:
  assumes "lowercase (ts_indeterminate ts) \<in> set time_words"
  shows "valid_condition ts = Inl e \<longleftrightarrow> ts_indeterminate ts \<notin> set time_words
      \<and> e = Ereport ERRCODE_DATA_EXCEPTION ''Invalid time indeterminate code''"
  using lowercase_word [OF assms] by (auto simp: valid_condition_def Let_def time_words_def)

lemma valid_step: "documented E \<Longrightarrow> query_step (valid_ok E s) (query_errors v) (addValidTimeQuery E s)"
proof (rule query_stepI)
  fix b :: Builder assume E: "documented E" and b: "from_list b \<noteq> []"
  show "case addValidTimeQuery E s b of Inr b' \<Rightarrow> valid_ok E s \<and> from_list b' \<noteq> []
    | Inl e \<Rightarrow> \<not> valid_ok E s \<and> e \<in> (query_errors v)"
  proof (cases s)
    case None
    with b show ?thesis by (simp add: addValidTimeQuery_def valid_ok_def)
  next
    case (Some t)
    show ?thesis
    proof (cases "TimeSpecification_new E t")
      case (Inl e)
      with Some time_error show ?thesis by (auto simp: addValidTimeQuery_def valid_ok_def)
    next
      case (Inr ts)
      from TimeSpecification_ok [OF E Inr] have w: "lowercase (ts_indeterminate ts) \<in> set time_words" ..
      show ?thesis
      proof (cases "valid_condition ts")
        case (Inl e)
        with Some Inr valid_condition_cases [OF w, of e] show ?thesis
          by (auto simp: addValidTimeQuery_def valid_ok_def query_errors_def)
      next
        case (Inr q)
        with valid_condition_cases [OF w] have "ts_indeterminate ts \<in> set time_words" by auto
        with Some \<open>TimeSpecification_new E t = Inr ts\<close> Inr b show ?thesis
          by (auto simp: addValidTimeQuery_def valid_ok_def add_where_def)
      qed
    qed
  qed
qed

lemma prepParameters_cases:
  "case prepParameters E ps of Inr qs \<Rightarrow> [] \<notin> set ps
     \<and> qs = map (\<lambda>p. ''valueparametername LIKE '' @ lquote E p) ps
   | Inl e \<Rightarrow> [] \<in> set ps \<and> e = Logic_error ''empty parameters are not allowed''"
  by (induction ps) (auto simp: prepParameter_def split: sum.splits)

lemma parameter_step: "query_step (names_ok s) (query_errors v) (addParameterQuery E s)"
proof (rule query_stepI)
  fix b :: Builder assume b: "from_list b \<noteq> []"
  show "case addParameterQuery E s b of Inr b' \<Rightarrow> names_ok s \<and> from_list b' \<noteq> []
    | Inl e \<Rightarrow> \<not> names_ok s \<and> e \<in> (query_errors v)"
  proof (cases s)
    case None
    with b show ?thesis by (simp add: addParameterQuery_def names_ok_def)
  next
    case (Some ps)
    show ?thesis
    proof (cases ps)
      case Nil
      with Some b show ?thesis by (simp add: addParameterQuery_def names_ok_def add_where_def)
    next
      case (Cons p ps')
      with Some b prepParameters_cases [of ps E] show ?thesis
        by (auto simp: addParameterQuery_def names_ok_def add_where_def query_errors_def mapE_def
            simp del: prepParameters.simps split: sum.splits)
    qed
  qed
qed

lemma level_step: "documented E \<Longrightarrow> query_step (level_ok s) (query_errors v) (addLevelQuery E s)"
proof (rule query_stepI)
  fix b :: Builder assume E: "documented E" and b: "from_list b \<noteq> []"
  show "case addLevelQuery E s b of Inr b' \<Rightarrow> level_ok s \<and> from_list b' \<noteq> []
    | Inl e \<Rightarrow> \<not> level_ok s \<and> e \<in> (query_errors v)"
    using b LevelSpecification_accepts [OF E] level_error [of E]
    by (auto simp: addLevelQuery_def level_ok_def mapE_def add_where_def split: option.splits sum.splits)
      (metis Inr_Inl_False)+
qed

lemma negated_versions_cases:
  "case negated_versions vs of Inr xs \<Rightarrow> INT_MIN \<notin> set vs \<and> length xs = length vs
   | Inl e \<Rightarrow> INT_MIN \<in> set vs \<and> e = Undefined ''negation of INT_MIN''"
  by (induction vs) (auto split: sum.splits)

lemma version_step: "query_step (versions_ok s) (query_errors (versions_ok s)) (addDataVersionQuery s)"
proof (rule query_stepI)
  fix b :: Builder assume b: "from_list b \<noteq> []"
  show "case addDataVersionQuery s b of Inr b' \<Rightarrow> versions_ok s \<and> from_list b' \<noteq> []
    | Inl e \<Rightarrow> \<not> versions_ok s \<and> e \<in> (query_errors (versions_ok s))"
  proof (cases s)
    case None
    with b show ?thesis by (simp add: addDataVersionQuery_def versions_ok_def)
  next
    case (Some vs)
    have "INT_MIN \<in> set (filter (\<lambda>v. v < 0) vs) \<longleftrightarrow> INT_MIN \<in> set vs" by (auto simp: INT_MIN_def)
    with Some b negated_versions_cases [of "filter (\<lambda>v. v < 0) vs"] show ?thesis
      by (cases vs) (auto simp: addDataVersionQuery_def versions_ok_def add_where_def query_errors_def mapE_def
          Let_def simp del: negated_versions.simps filter.simps split: sum.splits)
  qed
qed

lemma add_with_step: "from_list st \<noteq> [] \<Longrightarrow> \<exists>b'. add_with st alias b = Inr b' \<and> from_list b' = from_list b"
  by (auto simp: add_with_def str_def)

lemma provider_step: "query_step True (query_errors v) (addDataProviderQuery E wci s)"
proof (rule query_stepI)
  fix b :: Builder assume b: "from_list b \<noteq> []"
  consider "s = None" | "s = Some []" | n ns where "s = Some (n # ns)"
    by (metis neq_Nil_conv option.exhaust)
  then show "case addDataProviderQuery E wci s b of Inr b' \<Rightarrow> True \<and> from_list b' \<noteq> []
    | Inl e \<Rightarrow> \<not> True \<and> e \<in> (query_errors v)"
  proof cases
    case 3
    have "from_list (dataprovider_query E wci (n # ns)) \<noteq> []"
      by (simp add: dataprovider_query_def adders)
    from add_with_step [OF this, of "''dataprovider''" b] obtain b' where
      "add_with (dataprovider_query E wci (n # ns)) ''dataprovider'' b = Inr b'" "from_list b' = from_list b" by blast
    with 3 b show ?thesis by (simp add: addDataProviderQuery_def adders)
  qed (simp_all add: addDataProviderQuery_def adders b)
qed

lemma surround_step:
  assumes "from_list b \<noteq> []"
  shows "\<exists>b'. addToReturnSurroundFloatQuery l b = Inr b' \<and> from_list b' \<noteq> []"
proof -
  have "from_list (add_what ''placegeometry'' (add_what ''placeid'' b)) \<noteq> []"
    using assms by (simp add: adders)
  from add_with_step [OF this, of "''floatvalue''" Builder_new] obtain b1
    where b1: "add_with (add_what ''placegeometry'' (add_what ''placeid'' b)) ''floatvalue'' Builder_new = Inr b1"
    by blast
  let ?b2 = "add_from ''floatvalue v'' b1"
  let ?q = "add_where (''placename='' @ sq @ placeName l @ sq)
                   (add_where ''s.placenamespaceid=p.placenamespaceid''
                   (add_what ''placenamevalidto''
                   (add_what ''placenamevalidfrom''
                   (add_what ''placegeometry''
                   (add_from ''wci_int.getsessiondata() s'' (Builder_of ''wci_int.placedefinition_mv p''))))))"
  have "from_list ?q \<noteq> []" by (simp add: adders Builder_of_def)
  from add_with_step [OF this, of "''wanted_location''" ?b2] obtain b3
    where b3: "add_with ?q ''wanted_location'' ?b2 = Inr b3" by blast
  show ?thesis
    unfolding addToReturnSurroundFloatQuery_def Let_def b1 bindE_Inr b3 mapE_Inr
    by (simp add: add_where_def add_from_def)
qed

lemma exact_step:
  assumes "from_list b \<noteq> []"
  shows "\<exists>b'. addToReturnExactFloatQuery wci l b = Inr b' \<and> from_list b' \<noteq> []"
proof -
  let ?q = "add_where (''placename = '' @ sq @ placeName l @ sq)
                (add_where ''p.placenamespaceid = s.placenamespaceid''
                (add_from (wci @ ''.getSessionData() s'')
                (add_from (wci @ ''.placedefinition_mv p'')
                (add_what ''placenamevalidto''
                (add_what ''placenamevalidfrom''
                (add_what ''placegeometry AS geometry_for_name'' Builder_new))))))"
  let ?b1 = "if hasGeometry l then add_where (exact_geometry_text l) b else b"
  have "from_list ?q \<noteq> []" by (simp add: adders)
  from add_with_step [OF this, of "''geometries''" ?b1] obtain b2
    where b2: "add_with ?q ''geometries'' ?b1 = Inr b2" by blast
  have b1: "from_list ?b1 \<noteq> []" using assms by (simp add: adders)
  show ?thesis
    unfolding addToReturnExactFloatQuery_def Let_def b2 mapE_Inr
    using b1 by (simp add: add_where_def add_from_def)
qed

lemma float_step:
  assumes "from_list b \<noteq> []"
  shows "\<exists>b'. addFloatTableQuery wci l b = Inr b' \<and> from_list b' \<noteq> []"
  using exact_step [OF assms] surround_step [OF assms] assms
  by (cases "interpolationType l")
    (simp_all add: addFloatTableQuery_def addToReturnNearestFloatQuery_def addToReturnBilinearFloatQuery_def
      add_where_def)

lemma location_step: "query_step (location_ok E s) (query_errors v) (addLocationQuery E wci s src out)"
proof (rule query_stepI)
  fix b :: Builder assume b: "from_list b \<noteq> []"
  show "case addLocationQuery E wci s src out b of Inr b' \<Rightarrow> location_ok E s \<and> from_list b' \<noteq> []
    | Inl e \<Rightarrow> \<not> location_ok E s \<and> e \<in> (query_errors v)"
  proof (cases s)
    case None
    with b show ?thesis by (simp add: addLocationQuery_def location_ok_def)
  next
    case (Some t)
    show ?thesis
    proof (cases "Location_new E t")
      case (Inl e)
      then obtain u where "e = InvalidSpecification u"
        by (auto simp: Location_new_def Let_def split: prod.splits if_splits)
      with Some Inl show ?thesis
        by (simp add: addLocationQuery_def location_ok_def report_InvalidSpecification_def query_errors_def)
    next
      case (Inr l)
      with Some b float_step [OF b, of wci l] show ?thesis
        by (auto simp: addLocationQuery_def location_ok_def report_InvalidSpecification_def addGridTableQuery_def
            add_where_def)
    qed
  qed
qed

definition parameters_ok :: "loc_action boost \<Rightarrow> WciReadParameterCollection \<Rightarrow> bool" where
  "parameters_ok E p \<longleftrightarrow> time_ok E (referenceTime p) \<and> valid_ok E (validTime p)
     \<and> names_ok (parameter p) \<and> level_ok (level p) \<and> versions_ok (dataVersion p)
     \<and> location_ok E (location p)"

lemma add_parameters_step:
  assumes "documented E"
  shows "query_step (parameters_ok E p) (query_errors (versions_ok (dataVersion p))) (add_parameters E wci p src out)"
proof -
  have "query_step (True \<and> time_ok E (referenceTime p) \<and> valid_ok E (validTime p) \<and> names_ok (parameter p)
      \<and> level_ok (level p) \<and> versions_ok (dataVersion p) \<and> location_ok E (location p)) (query_errors (versions_ok (dataVersion p)))
      (add_parameters E wci p src out)"
    unfolding add_parameters_def
    by (intro query_step_bind provider_step reference_step valid_step parameter_step level_step version_step
        location_step assms)
  then show ?thesis by (simp add: parameters_ok_def)
qed

lemma base_query_from [simp]: "from_list (base_query wci src w) \<noteq> []"
  by (simp add: base_query_def adders)

lemma build_query_cases:
  assumes "documented E"
  shows "case build_query E wci (Some p) src out w o' g of
      Inr q \<Rightarrow> parameters_ok E p
    | Inl e \<Rightarrow> \<not> parameters_ok E p \<and>
        ((\<exists>t. e = Ereport ERRCODE_DATA_EXCEPTION t)
         \<or> e = Undefined ''negation of INT_MIN'' \<and> \<not> versions_ok (dataVersion p))"
proof (cases "add_parameters E wci p src out (base_query wci src w)")
  case (Inl e)
  with query_stepD [OF add_parameters_step [OF assms, of p wci src out] base_query_from [of wci src w]]
  have "\<not> parameters_ok E p" "e \<in> (query_errors (versions_ok (dataVersion p)))" by simp_all
  with Inl show ?thesis
    by (auto simp: build_query_def report_all_def report_std_def query_errors_def split: if_splits)
next
  case (Inr b)
  with query_stepD [OF add_parameters_step [OF assms, of p wci src out] base_query_from [of wci src w]]
  have ok: "parameters_ok E p" and b: "from_list b \<noteq> []" by simp_all
  define b1 where "b1 = (case o' of None \<Rightarrow> b | Some o'' \<Rightarrow> add_orderBy o'' b)"
  define b2 where "b2 = (case g of None \<Rightarrow> b1 | Some g' \<Rightarrow> add_groupBy g' b1)"
  have "from_list b2 = from_list b"
    by (simp add: b1_def b2_def adders split: option.splits)
  with b obtain q where q: "str b2 = Inr q" by (metis str_ok_iff)
  have "build_query E wci (Some p) src out w o' g = report_all ERRCODE_DATA_EXCEPTION (str b2)"
    unfolding b2_def b1_def by (simp add: build_query_def Inr Let_def)
  with ok q show ?thesis by (simp add: report_all_def)
qed

lemma build_query_ok:
  assumes "documented E" and "parameters_ok E p"
  shows "\<exists>q. build_query E wci (Some p) src out w o' g = Inr q"
  using build_query_cases [OF assms(1), where wci = wci and p = p and src = src and out = out and w = w
      and o' = o' and g = g] assms(2) by (auto split: sum.splits)

text \<open>C1: \<open>build_query\<close> returns a statement exactly when every argument that is given is valid: the
  times are accepted and the valid time's qualifier is in lower case, no parameter name is empty, the
  level matches its pattern and its numbers are in the range of a \<open>float\<close>, no data version is the smallest \<open>int\<close>,
  and the location parses. Every other call exits with a data exception, or, only if some data version is the smallest
  \<open>int\<close>, its negation is undefined; no exception of the parts escapes, and the query is never incomplete.\<close>

theorem build_query_succeeds_iff:
  assumes "documented E"
  shows "((\<exists>q. build_query E wci (Some p) src out w o' g = Inr q) \<longleftrightarrow> parameters_ok E p)
    \<and> (\<forall>e. build_query E wci (Some p) src out w o' g \<noteq> Inl e
        \<or> (\<exists>t. e = Ereport ERRCODE_DATA_EXCEPTION t)
        \<or> e = Undefined ''negation of INT_MIN'' \<and> \<not> versions_ok (dataVersion p))"
  using build_query_cases [OF assms, where wci = wci and p = p and src = src and out = out and w = w
      and o' = o' and g = g] by (auto split: sum.splits)

definition sample_parameters :: WciReadParameterCollection where
  "sample_parameters = \<lparr>dataProvider = Some [''met''], location = None, referenceTime = None,
     validTime = None, parameter = Some [''air''], level = None, dataVersion = Some [1, - 1]\<rparr>"

text \<open>A level in range, and one that no \<open>float\<close> can hold.\<close>

lemma sample_levels:
  "level_accepted ''above 2 m''" "\<not> level_accepted (replicate 40 (CHR ''9'') @ '' m'')"
  by code_simp+

theorem build_query_succeeds_iff_witness:
  "(\<exists>q. build_query boost_ref ''wci_int'' (Some (sample_parameters\<lparr>level := Some ''above 2 m''\<rparr>)) FloatTable OutputFloat
      ''*'' None None = Inr q)
   \<and> (\<nexists>q. build_query boost_ref ''wci_int'' (Some (sample_parameters\<lparr>level := Some (replicate 40 (CHR ''9'') @ '' m'')\<rparr>))
      FloatTable OutputFloat ''*'' None None = Inr q)"
  using build_query_succeeds_iff [OF documented_ref, where wci = "''wci_int''" and p = "sample_parameters\<lparr>level := Some ''above 2 m''\<rparr>"]
    build_query_succeeds_iff [OF documented_ref, where wci = "''wci_int''"
      and p = "sample_parameters\<lparr>level := Some (replicate 40 (CHR ''9'') @ '' m'')\<rparr>"] sample_levels
  by (simp add: parameters_ok_def sample_parameters_def time_ok_def valid_ok_def names_ok_def level_ok_def
      versions_ok_def location_ok_def INT_MIN_def)

end
