(* ===== verification/QuerySkeleton.thy ===== *)
theory QuerySkeleton
  imports BuildQuery Captures
begin

text \<open>
  What the texts of a call can do to the structure of its statement. The statement is read with
  \<open>standard_conforming_strings\<close> on (\<open>skeleton\<close> in \<open>Quoting\<close>). The names of data providers and parameters go through
  \<open>quote\<close> and \<open>lquote\<close> and stay inside their literals whatever they are. The texts of times and of a location are put
  between apostrophes as they are, so here they must not contain any.
\<close>

section \<open>The skeleton of a query\<close>

text \<open>Fragments with one literal each, joined.\<close>

lemma both_seal_append:
  "quote_char \<notin> set a \<Longrightarrow> both_seal x y \<Longrightarrow> both_seal (a @ x) (a @ y)"
  unfolding both_seal_def using seals_any_append [OF seals_any_plain] by blast

lemma both_seal_then:
  "both_seal x y \<Longrightarrow> quote_char \<notin> set a \<Longrightarrow> both_seal (x @ a) (y @ a)"
  unfolding both_seal_def using seals_append seals_plain
  by (metis no_quote_first_def list.set_sel(1))

lemma both_seal_join:
  assumes sep: "quote_char \<notin> set sep" "sep \<noteq> []" and len: "length xs = length ys"
    and item: "\<And>x. x \<in> set xs \<union> set ys \<Longrightarrow> seals x k"
  shows "both_seal (join sep xs) (join sep ys)"
proof -
  have "list_all2 seals xs (replicate (length xs) k)" "list_all2 seals ys (replicate (length xs) k)"
    using item len by (auto simp: list_all2_conv_all_nth)
  with seals_join [OF sep] show ?thesis unfolding both_seal_def by blast
qed

lemma both_seal_names:
  assumes "length xs = length ys" and "quote_char \<notin> set a"
    and "\<And>n. seals (f n) [quote_char, quote_char]"
  shows "both_seal (''('' @ join '' OR '' (map (\<lambda>n. a @ f n) xs) @ '')'')
    (''('' @ join '' OR '' (map (\<lambda>n. a @ f n) ys) @ '')'')"
proof -
  have "both_seal (join '' OR '' (map (\<lambda>n. a @ f n) xs)) (join '' OR '' (map (\<lambda>n. a @ f n) ys))"
    by (rule both_seal_join [where k = "a @ [quote_char, quote_char]"])
      (use assms in \<open>auto simp: quote_char_def intro!: seals_any_append seals_any_plain\<close>)
  then show ?thesis
    by (intro both_seal_append both_seal_then) (simp_all add: quote_char_def)
qed

lemma provider_skeleton:
  assumes E: "documented E" and wci: "quote_char \<notin> set wci"
    and len: "map_option length s = map_option length t"
    and rel: "same_skeleton b c" and ok: "addDataProviderQuery E wci s b = Inr b'"
      "addDataProviderQuery E wci t c = Inr c'"
  shows "same_skeleton b' c'"
proof -
  consider "s = None" "t = None" | "s = Some []" "t = Some []" | n ns m ms where "s = Some (n # ns)"
    "t = Some (m # ms)" "length ns = length ms"
    using len by (cases s; cases t) (auto simp: length_Suc_conv Suc_length_conv, metis length_Suc_conv neq_Nil_conv)
  then show ?thesis
  proof cases
    case 1
    with rel ok show ?thesis by (simp add: addDataProviderQuery_def)
  next
    case 2
    with rel ok show ?thesis
      by (auto simp: addDataProviderQuery_def quote_char_def intro!: same_skeleton_add both_seal_plain)
  next
    case 3
    have names: "both_seal
        (''('' @ join '' OR '' (map (\<lambda>n. ''source.dataprovidername = '' @ quote E (lower E n)) (n # ns)) @ '')'')
        (''('' @ join '' OR '' (map (\<lambda>n. ''source.dataprovidername = '' @ quote E (lower E n)) (m # ms)) @ '')'')"
      by (rule both_seal_names) (use 3 seals_quote [OF E] in \<open>simp_all add: quote_char_def\<close>)
    have st: "same_skeleton (dataprovider_query E wci (n # ns)) (dataprovider_query E wci (m # ms))"
      unfolding dataprovider_query_def
      by (intro same_skeleton_add same_skeleton_new names both_seal_plain)
        (use wci in \<open>simp_all add: quote_char_def\<close>)
    from ok 3 obtain b1 c1 where b1: "add_with (dataprovider_query E wci (n # ns)) ''dataprovider'' b = Inr b1"
      "b' = add_where ''v.dataproviderid IN (dataprovider.id)'' (add_from ''dataprovider'' b1)"
      and c1: "add_with (dataprovider_query E wci (m # ms)) ''dataprovider'' c = Inr c1"
      "c' = add_where ''v.dataproviderid IN (dataprovider.id)'' (add_from ''dataprovider'' c1)"
      by (auto simp: addDataProviderQuery_def mapE_eq_Inr)
    have "same_skeleton b1 c1"
      by (rule same_skeleton_with [OF st rel _ b1(1) c1(1)]) (simp add: quote_char_def)
    then show ?thesis
      unfolding b1(2) c1(2) by (intro same_skeleton_add both_seal_plain) (simp_all add: quote_char_def)
  qed
qed

lemma parameter_skeleton:
  assumes E: "documented E" and len: "map_option length s = map_option length t"
    and rel: "same_skeleton b c" and ok: "addParameterQuery E s b = Inr b'" "addParameterQuery E t c = Inr c'"
  shows "same_skeleton b' c'"
proof -
  consider "s = None" "t = None" | "s = Some []" "t = Some []" | n ns m ms where "s = Some (n # ns)"
    "t = Some (m # ms)" "length ns = length ms"
    using len by (cases s; cases t) (auto simp: length_Suc_conv Suc_length_conv, metis length_Suc_conv neq_Nil_conv)
  then show ?thesis
  proof cases
    case 1
    with rel ok show ?thesis by (simp add: addParameterQuery_def)
  next
    case 2
    with rel ok show ?thesis
      by (auto simp: addParameterQuery_def quote_char_def intro!: same_skeleton_add both_seal_plain)
  next
    case 3
    let ?f = "\<lambda>p. ''valueparametername LIKE '' @ lquote E p"
    have names: "both_seal (''('' @ join '' OR '' (map ?f (n # ns)) @ '')'') (''('' @ join '' OR '' (map ?f (m # ms)) @ '')'')"
      by (rule both_seal_names) (use 3 seals_lquote [OF E] in \<open>simp_all add: quote_char_def\<close>)
    from ok 3 prepParameters_cases [of "n # ns" E] prepParameters_cases [of "m # ms" E]
    have "b' = add_where (''('' @ join '' OR '' (map ?f (n # ns)) @ '')'') b"
      "c' = add_where (''('' @ join '' OR '' (map ?f (m # ms)) @ '')'') c"
      by (auto simp: addParameterQuery_def mapE_eq_Inr simp del: prepParameters.simps)
    with names rel show ?thesis by (simp only: same_skeleton_add(1))
  qed
qed

lemma show_int_quote: "quote_char \<notin> set (show_int v)"
proof
  assume "quote_char \<in> set (show_int v)"
  from show_int_chars [OF this] show False by (auto simp: quote_char_def isdigit_def code_def)
qed

lemma join_plain: "quote_char \<notin> set sep \<Longrightarrow> \<forall>x \<in> set xs. quote_char \<notin> set x \<Longrightarrow> quote_char \<notin> set (join sep xs)"
  by (induction sep xs rule: join.induct) auto

lemma negated_plain:
  "negated_versions vs = Inr xs \<Longrightarrow> \<forall>x \<in> set xs. quote_char \<notin> set x"
proof (induction vs arbitrary: xs)
  case (Cons v vs)
  then obtain ys where "negated_versions vs = Inr ys"
    and xs: "xs = (''(maxdataversion +1 -'' @ show_int (- v) @ '')'') # ys"
    by (auto simp: mapE_eq_Inr split: if_splits)
  with Cons.IH show_int_quote [of "- v"] show ?case by (auto simp: quote_char_def)
qed simp

lemma version_skeleton:
  assumes rel: "same_skeleton b c" and ok: "addDataVersionQuery s b = Inr b'" "addDataVersionQuery s c = Inr c'"
  shows "same_skeleton b' c'"
proof (cases s)
  case None
  with rel ok show ?thesis by (simp add: addDataVersionQuery_def)
next
  case (Some vs)
  show ?thesis
  proof (cases vs)
    case Nil
    with Some rel ok show ?thesis
      by (auto simp: addDataVersionQuery_def quote_char_def intro!: same_skeleton_add both_seal_plain)
  next
    case (Cons v vs')
    from ok Some Cons obtain negs where negs: "negated_versions (filter (\<lambda>v. v < 0) vs) = Inr negs"
      by (auto simp: addDataVersionQuery_def mapE_eq_Inr Let_def simp del: negated_versions.simps filter.simps)
    have plain: "quote_char \<notin> set (join '', '' negs)"
      "quote_char \<notin> set (join '', '' (map show_int (filter (\<lambda>v. \<not> v < 0) vs)))"
      using join_plain [of "'', ''" negs] join_plain [of "'', ''" "map show_int (filter (\<lambda>v. \<not> v < 0) vs)"]
        negated_plain [OF negs] show_int_quote by (simp_all add: quote_char_def)
    from ok Some Cons negs obtain x where x: "b' = add_where x b" "c' = add_where x c" "quote_char \<notin> set x"
      using plain by (auto simp: addDataVersionQuery_def Let_def quote_char_def
        simp del: negated_versions.simps filter.simps)
    show ?thesis
      unfolding x(1,2) by (intro same_skeleton_add both_seal_plain rel x(3))
  qed
qed

lemma digit_no_quote: "isdigit c \<Longrightarrow> c \<noteq> quote_char"
  by (auto simp: quote_char_def isdigit_def code_def)

lemma show_base_no_quote: "0 \<le> n \<Longrightarrow> quote_char \<notin> set (show_base 10 n)"
  using show_base10_digits digit_no_quote by blast

lemma with_fraction_set: "set (with_fraction i f) \<subseteq> set i \<union> set f \<union> {CHR ''.''}"
proof -
  have "set (strip0 f) \<subseteq> set f"
    by (auto simp: strip0_def dest: set_dropWhileD)
  then show ?thesis by (auto simp: with_fraction_def Let_def)
qed

lemma round_half_even_nonneg: "0 \<le> x \<Longrightarrow> 0 \<le> round_half_even x"
  by (auto simp: round_half_even_def Let_def)

lemma show_pos_no_quote:
  assumes "0 < x"
  shows "quote_char \<notin> set (show_pos x)"
proof -
  define e0 m0 where "e0 = ilog10 x" and "m0 = round_half_even (x / pow10 (e0 - 5))"
  define m e where "m = (if m0 = 1000000 then 100000 else m0)" and "e = (if m0 = 1000000 then e0 + 1 else e0)"
  have "0 < pow10 (e0 - 5)" by (simp add: pow10_def)
  with assms have "0 \<le> m0" by (simp add: m0_def round_half_even_nonneg)
  then have "0 \<le> m" by (simp add: m_def)
  then have d: "quote_char \<notin> set (show_base 10 m)" by (rule show_base_no_quote)
  have ex: "quote_char \<notin> set (show_exponent e)"
    using show_base_no_quote [of "\<bar>e\<bar>"] by (simp add: show_exponent_def quote_char_def)
  have pair: "(if m0 = 1000000 then (100000, e0 + 1) else (m0, e0)) = (m, e)" by (simp add: m_def e_def)
  have pos: "show_pos x = (if e < -4 \<or> 6 \<le> e
      then with_fraction (take 1 (show_base 10 m)) (drop 1 (show_base 10 m)) @ show_exponent e
      else if 0 \<le> e then with_fraction (take (nat e + 1) (show_base 10 m)) (drop (nat e + 1) (show_base 10 m))
      else with_fraction ''0'' (replicate (nat (- e) - 1) (CHR ''0'') @ show_base 10 m))"
    by (simp only: show_pos_def Let_def e0_def [symmetric] m0_def [symmetric] pair prod.case)
  have "quote_char \<notin> set (with_fraction i f)"
    if "set i \<union> set f \<subseteq> set (show_base 10 m) \<union> {CHR ''0''}" for i f
    using with_fraction_set [of i f] that d by (auto simp: quote_char_def)
  note frac = this
  have "quote_char \<notin> set (with_fraction (take k (show_base 10 m)) (drop k (show_base 10 m)))" for k
    by (rule frac) (auto dest: in_set_takeD in_set_dropD)
  moreover have "quote_char \<notin> set (with_fraction ''0'' (replicate k (CHR ''0'') @ show_base 10 m))" for k
    by (rule frac) auto
  ultimately show ?thesis
    unfolding pos using ex by (simp del: One_nat_def)
qed

lemma show_g_no_quote: "quote_char \<notin> set (show_g x)"
  using show_pos_no_quote by (cases x) (auto simp: quote_char_def)

lemma level_skeleton:
  assumes E: "documented E" and rel: "same_skeleton b c"
    and ok: "addLevelQuery E s b = Inr b'" "addLevelQuery E s c = Inr c'"
  shows "same_skeleton b' c'"
proof (cases s)
  case None
  with rel ok show ?thesis by (simp add: addLevelQuery_def)
next
  case (Some t)
  with ok obtain l where new: "LevelSpecification_new E t = Inr l"
    and x: "b' = add_where (''(levelparametername LIKE '' @ lquote E (ls_parameter l) @ level_condition l @ '')'') b"
      "c' = add_where (''(levelparametername LIKE '' @ lquote E (ls_parameter l) @ level_condition l @ '')'') c"
    by (auto simp: addLevelQuery_def mapE_eq_Inr)
  from new E obtain m where m: "rx_match True level_rx t = Some m"
    by (auto simp: LevelSpecification_new_def split: option.splits)
  from LevelSpecification_new_eq [OF E m] new have "l = \<lparr>ls_from = level_value (m 3),
      ls_to = level_value (level_end m), ls_parameter = lowercase (m 6), ls_indeterminate = level_word m\<rparr>"
    by (simp split: if_splits)
  with level_word_known [OF m] have "ls_indeterminate l \<in> set level_words" by simp
  then have cond: "quote_char \<notin> set (level_condition l)"
    using show_g_no_quote by (auto simp: level_condition_def Let_def level_words_def quote_char_def)
  have lit: "seals (lquote E (ls_parameter l)) [quote_char, quote_char]" by (rule seals_lquote [OF E])
  have "both_seal (''(levelparametername LIKE '' @ lquote E (ls_parameter l) @ level_condition l @ '')'')
      (''(levelparametername LIKE '' @ lquote E (ls_parameter l) @ level_condition l @ '')'')"
    by (intro both_seal_append both_seal_then) (use lit cond in \<open>auto simp: both_seal_def quote_char_def\<close>)
  then show ?thesis
    unfolding x by (intro same_skeleton_add rel)
qed

section \<open>Times and places\<close>

text \<open>Their texts go into the statement as they are: without an apostrophe each clause is closed.\<close>

definition plain_option :: "string option \<Rightarrow> bool" where
  "plain_option s \<longleftrightarrow> (case s of None \<Rightarrow> True | Some t \<Rightarrow> quote_char \<notin> set t)"

lemma both_seal_closed: "closed x \<Longrightarrow> both_seal x x"
  unfolding both_seal_def using seals_closed by blast

lemma closed_simps:
  "closed []" "closed (c # s) \<longleftrightarrow> (closed s \<noteq> (c = CHR 0x27))" "closed (a @ b) \<longleftrightarrow> (closed a \<longleftrightarrow> closed b)"
  "\<not> closed sq" "closed (quoted s) \<longleftrightarrow> closed s"
  by (auto simp: closed_def quoted_def sq_def quote_char_def)

lemma time_pieces:
  assumes "documented E" and "quote_char \<notin> set spec" and "TimeSpecification_new E spec = Inr ts"
  shows "quote_char \<notin> set (ts_from ts)" "quote_char \<notin> set (ts_other ts)" "quote_char \<notin> set (ts_indeterminate ts)"
proof -
  from assms(1,3) obtain m where m: "rx_match True time_rx spec = Some m"
    and t: "ts_indeterminate ts = (if m 1 = [] then ''exact'' else m 1)" "ts_from ts = m 2"
      "ts_other ts = (if m 5 = [] then m 2 else m 5)"
    by (auto simp: TimeSpecification_new_def Let_def split: option.splits if_splits)
  have "quote_char \<notin> set (m i)" for i
    using set_mono_sublist [OF rx_match_piece [OF m, of i]] assms(2) by blast
  then show "quote_char \<notin> set (ts_from ts)" "quote_char \<notin> set (ts_other ts)" "quote_char \<notin> set (ts_indeterminate ts)"
    by (auto simp: t quote_char_def)
qed

lemma to_interval_closed:
  "closed (ts_other ts) \<Longrightarrow> closed (ts_to ts) \<and> closed (ts_interval ts)"
  by (simp add: ts_to_def ts_interval_def closed_simps)

lemma reference_closed:
  assumes "closed (ts_from ts)" "closed (ts_other ts)" "closed (ts_indeterminate ts)"
  shows "closed (reference_condition ts)"
proof -
  define timeTo where "timeTo = (if ts_durationInsteadOfTo ts
    then ts_from ts @ sq @ ''::timestamp with time zone+'' @ sq @ ts_interval ts else ts_to ts)"
  have "closed timeTo"
    using assms(1) to_interval_closed [OF assms(2)] by (simp add: timeTo_def closed_simps)
  with assms show ?thesis
    unfolding reference_condition_def timeTo_def [symmetric] Let_def by (simp add: closed_simps)
qed

lemma valid_closed:
  assumes "closed (ts_from ts)" "closed (ts_other ts)" and "valid_condition ts = Inr q"
  shows "closed q"
proof -
  have q: "closed t \<Longrightarrow> closed (quote_time t)" for t by (simp add: quote_time_def closed_simps)
  define timeFrom timeTo where "timeFrom = quote_time (ts_from ts)"
    and "timeTo = (if ts_durationInsteadOfTo ts then timeFrom @ ''::timestamp with time zone+'' @ quoted (ts_interval ts)
       else quote_time (ts_to ts))"
  have "closed timeFrom" "closed timeTo"
    using q assms(1) to_interval_closed [OF assms(2)] by (simp_all add: timeFrom_def timeTo_def closed_simps)
  with assms(3) show ?thesis
    unfolding valid_condition_def timeFrom_def [symmetric] Let_def timeTo_def [symmetric]
    by (auto simp: closed_simps split: if_splits)
qed

lemma plain_closed: "quote_char \<notin> set s \<Longrightarrow> closed s"
  by (rule closed_plain)

lemma reference_skeleton:
  assumes E: "documented E" and rel: "same_skeleton b c" and plain: "plain_option s"
    and ok: "addReferenceTimeQuery E s b = Inr b'" "addReferenceTimeQuery E s c = Inr c'"
  shows "same_skeleton b' c'"
proof (cases s)
  case None
  with rel ok show ?thesis by (simp add: addReferenceTimeQuery_def)
next
  case (Some t)
  with ok obtain ts where ts: "TimeSpecification_new E t = Inr ts"
    and x: "b' = add_where (''('' @ reference_condition ts @ '') '') b"
      "c' = add_where (''('' @ reference_condition ts @ '') '') c"
    by (auto simp: addReferenceTimeQuery_def mapE_eq_Inr)
  have "quote_char \<notin> set t" using plain Some by (simp add: plain_option_def)
  from time_pieces [OF E this ts] have "closed (reference_condition ts)"
    by (intro reference_closed plain_closed)
  then have "closed (''('' @ reference_condition ts @ '') '')" by (simp add: closed_simps)
  then show ?thesis unfolding x by (intro same_skeleton_add rel both_seal_closed)
qed

lemma valid_skeleton:
  assumes E: "documented E" and rel: "same_skeleton b c" and plain: "plain_option s"
    and ok: "addValidTimeQuery E s b = Inr b'" "addValidTimeQuery E s c = Inr c'"
  shows "same_skeleton b' c'"
proof (cases s)
  case None
  with rel ok show ?thesis by (simp add: addValidTimeQuery_def)
next
  case (Some t)
  with ok obtain ts q where ts: "TimeSpecification_new E t = Inr ts" "valid_condition ts = Inr q"
    and x: "b' = add_where (''('' @ q @ '')'') b" "c' = add_where (''('' @ q @ '')'') c"
    by (auto simp: addValidTimeQuery_def mapE_eq_Inr bindE_eq_Inr)
  have "quote_char \<notin> set t" using plain Some by (simp add: plain_option_def)
  from time_pieces [OF E this ts(1)] have "closed q"
    by (intro valid_closed [OF _ _ ts(2)] plain_closed)
  then have "closed (''('' @ q @ '')'')" by (simp add: closed_simps)
  then show ?thesis unfolding x by (intro same_skeleton_add rel both_seal_closed)
qed

lemma assign_plain:
  assumes "\<forall>e \<in> set ev. c \<notin> set (fst (snd e))" and "c \<notin> set (geometry l)" "c \<notin> set (placeName l)"
  shows "c \<notin> set (geometry (fold assign ev l)) \<and> c \<notin> set (placeName (fold assign ev l))"
  using assms
proof (induction ev arbitrary: l)
  case (Cons e ev)
  obtain a s v where e: "e = (a, s, v)" by (cases e)
  have "c \<notin> set (geometry (assign e l)) \<and> c \<notin> set (placeName (assign e l))"
    using Cons.prems e by (cases a) simp_all
  with Cons show ?case by simp
qed simp

lemma location_pieces:
  assumes "documented E" and "quote_char \<notin> set t" and "Location_new E t = Inr l"
  shows "closed (geometry l)" "closed (placeName l)"
proof -
  obtain full ev where parse: "sp_parse location_p t = (full, ev)" by fastforce
  obtain r where run: "sp_run location_p False t = (r, ev)"
    using parse by (auto simp: sp_parse_def split: prod.splits option.splits)
  have "\<forall>e \<in> set ev. quote_char \<notin> set (fst (snd e))"
    using sp_withinD [OF sp_run_within run] assms(2) by auto
  from assign_plain [OF this, of Location_default]
  have "quote_char \<notin> set (geometry (fold assign ev Location_default))"
    "quote_char \<notin> set (placeName (fold assign ev Location_default))" by (simp_all add: Location_default_def)
  moreover have "quote_char \<notin> set s \<Longrightarrow> quote_char \<notin> set (lowercase s)" for s
    by (auto simp: eq_commute [of quote_char])
  ultimately show "closed (geometry l)" "closed (placeName l)"
    using assms(1,3) parse by (auto simp: Location_new_def Let_def intro!: plain_closed split: if_splits)
qed

lemma show_int_closed: "closed (show_int v)"
  by (rule closed_plain [OF show_int_quote])

lemma same_skeleton_where: "same_skeleton b c \<Longrightarrow> closed x \<Longrightarrow> same_skeleton (add_where x b) (add_where x c)"
  and same_skeleton_from: "same_skeleton b c \<Longrightarrow> closed x \<Longrightarrow> same_skeleton (add_from x b) (add_from x c)"
  and same_skeleton_what: "same_skeleton b c \<Longrightarrow> closed x \<Longrightarrow> same_skeleton (add_what x b) (add_what x c)"
  by (blast intro: same_skeleton_add both_seal_closed)+

lemmas same_skeleton_closed = same_skeleton_where same_skeleton_from same_skeleton_what

lemma same_skeleton_of: "closed table \<Longrightarrow> same_skeleton (Builder_of table) (Builder_of table)"
  using same_skeleton_from [OF same_skeleton_new, of table] by (simp add: Builder_of_def add_from_def Builder_new_def)

lemma surround_skeleton:
  assumes l: "closed (geometry l)" "closed (placeName l)" and rel: "same_skeleton b c"
    and ok: "addToReturnSurroundFloatQuery l b = Inr b'" "addToReturnSurroundFloatQuery l c = Inr c'"
  shows "same_skeleton b' c'"
proof -
  let ?o = "\<lambda>b. add_what ''placegeometry'' (add_what ''placeid'' b)"
  have st: "same_skeleton (?o b) (?o c)" by (intro same_skeleton_closed rel) (simp_all add: closed_simps)
  from ok obtain b1 c1 where 1: "add_with (?o b) ''floatvalue'' Builder_new = Inr b1" "add_with (?o c) ''floatvalue'' Builder_new = Inr c1"
    by (auto simp: addToReturnSurroundFloatQuery_def Let_def bindE_eq_Inr)
  have "same_skeleton b1 c1"
    by (rule same_skeleton_with [OF st same_skeleton_new _ 1]) (simp add: quote_char_def)
  then have 2: "same_skeleton (add_from ''floatvalue v'' b1) (add_from ''floatvalue v'' c1)"
    by (intro same_skeleton_closed) (simp_all add: closed_simps)
  show ?thesis
  proof (cases "hasGeometry l")
    case True
    let ?w = "''placeid = (SELECT placeid FROM floatvalue v ORDER BY v.placegeometry <-> st_geomfromtext(''
                @ sq @ geometry l @ sq @ '', 4030) LIMIT '' @ show_int (interpolationParameter l) @ '')''"
    from ok 1 True have x: "b' = add_where ?w (add_from ''floatvalue v'' b1)" "c' = add_where ?w (add_from ''floatvalue v'' c1)"
      by (simp_all add: addToReturnSurroundFloatQuery_def Let_def)
    have "closed ?w" using l by (simp add: closed_simps show_int_closed)
    then show ?thesis unfolding x by (intro same_skeleton_where 2)
  next
    case False
    let ?q = "add_where (''placename='' @ sq @ placeName l @ sq)
                   (add_where ''s.placenamespaceid=p.placenamespaceid''
                   (add_what ''placenamevalidto''
                   (add_what ''placenamevalidfrom''
                   (add_what ''placegeometry''
                   (add_from ''wci_int.getsessiondata() s'' (Builder_of ''wci_int.placedefinition_mv p''))))))"
    let ?fin = "\<lambda>b3. add_where (''placeid in (SELECT placeid FROM floatvalue v ORDER BY v.placegeometry <-> l.placegeometry LIMIT ''
                       @ show_int (interpolationParameter l) @ '')'')
                   (add_where ''v.referencetime < l.placenamevalidto''
                   (add_where ''v.referencetime >= l.placenamevalidfrom''
                   (add_from ''wanted_location l'' b3)))"
    from ok 1 False obtain b3 c3 where 3: "add_with ?q ''wanted_location'' (add_from ''floatvalue v'' b1) = Inr b3"
      "add_with ?q ''wanted_location'' (add_from ''floatvalue v'' c1) = Inr c3" and x: "b' = ?fin b3" "c' = ?fin c3"
      by (auto simp: addToReturnSurroundFloatQuery_def Let_def mapE_eq_Inr)
    have "same_skeleton ?q ?q"
      using l by (intro same_skeleton_closed same_skeleton_of) (simp_all add: closed_simps)
    from same_skeleton_with [OF this 2 _ 3] have "same_skeleton b3 c3" by (simp add: quote_char_def)
    then show ?thesis
      unfolding x by (intro same_skeleton_closed) (simp_all add: closed_simps show_int_closed)
  qed
qed

lemma exact_skeleton:
  assumes l: "closed (geometry l)" "closed (placeName l)" and wci: "closed wci" and rel: "same_skeleton b c"
    and ok: "addToReturnExactFloatQuery wci l b = Inr b'" "addToReturnExactFloatQuery wci l c = Inr c'"
  shows "same_skeleton b' c'"
proof -
  let ?b1 = "\<lambda>b. if hasGeometry l then add_where (exact_geometry_text l) b else b"
  have "closed (exact_geometry_text l)" using l by (simp add: exact_geometry_text_def closed_simps split: GeomType.split)
  then have 1: "same_skeleton (?b1 b) (?b1 c)" using rel by (simp add: same_skeleton_where)
  show ?thesis
  proof (cases "hasPlaceName l")
    case False
    with ok 1 show ?thesis by (simp add: addToReturnExactFloatQuery_def)
  next
    case True
    let ?q = "add_where (''placename = '' @ sq @ placeName l @ sq)
                (add_where ''p.placenamespaceid = s.placenamespaceid''
                (add_from (wci @ ''.getSessionData() s'')
                (add_from (wci @ ''.placedefinition_mv p'')
                (add_what ''placenamevalidto''
                (add_what ''placenamevalidfrom''
                (add_what ''placegeometry AS geometry_for_name'' Builder_new))))))"
    let ?fin = "\<lambda>b2. add_where ''referencetime < g.placenamevalidto''
                (add_where ''referencetime >= g.placenamevalidfrom''
                (add_where ''_ST_Intersects(g.geometry_for_name, v.placegeometry)''
                (add_where ''g.geometry_for_name && v.placegeometry''
                (add_from ''geometries g'' b2))))"
    from ok True obtain b2 c2 where 2: "add_with ?q ''geometries'' (?b1 b) = Inr b2" "add_with ?q ''geometries'' (?b1 c) = Inr c2"
      and x: "b' = ?fin b2" "c' = ?fin c2"
      by (auto simp: addToReturnExactFloatQuery_def Let_def mapE_eq_Inr simp del: split_paired_Ex)
    have "same_skeleton ?q ?q"
      using l wci by (intro same_skeleton_closed same_skeleton_new) (simp_all add: closed_simps)
    from same_skeleton_with [OF this 1 _ 2] have "same_skeleton b2 c2" by (simp add: quote_char_def)
    then show ?thesis unfolding x by (intro same_skeleton_closed) (simp_all add: closed_simps)
  qed
qed

lemma grid_clause_closed:
  assumes "closed (geometry l)" "closed (placeName l)" "closed wci"
  shows "closed (queryReturnGrid wci l)"
  using assms by (simp add: queryReturnGrid_def closed_simps split: InterpolationType.split)

lemma location_skeleton:
  assumes E: "documented E" and wci: "quote_char \<notin> set wci" and rel: "same_skeleton b c" and plain: "plain_option s"
    and ok: "addLocationQuery E wci s src out b = Inr b'" "addLocationQuery E wci s src out c = Inr c'"
  shows "same_skeleton b' c'"
proof (cases s)
  case None
  with rel ok show ?thesis by (simp add: addLocationQuery_def)
next
  case (Some t)
  have report: "report_InvalidSpecification m = Inr x \<longleftrightarrow> m = Inr x" for m :: "Builder res" and x
    by (auto simp: report_InvalidSpecification_def split: sum.splits err.splits)
  from ok Some obtain l where new: "Location_new E t = Inr l"
    by (auto simp: addLocationQuery_def report bindE_eq_Inr)
  have "quote_char \<notin> set t" using plain Some by (simp add: plain_option_def)
  note l = location_pieces [OF E this new]
  have w: "closed wci" by (rule closed_plain [OF wci])
  show ?thesis
  proof (cases "src = FloatTable")
    case True
    with ok Some new have f: "addFloatTableQuery wci l b = Inr b'" "addFloatTableQuery wci l c = Inr c'"
      by (simp_all add: addLocationQuery_def report)
    show ?thesis
    proof (cases "interpolationType l")
      case Exact
      with f show ?thesis by (intro exact_skeleton [OF l w rel]) (simp_all add: addFloatTableQuery_def)
    next
      case Nearest
      with f show ?thesis
        by (intro surround_skeleton [OF l rel]) (simp_all add: addFloatTableQuery_def addToReturnNearestFloatQuery_def)
    next
      case Surround
      with f show ?thesis by (intro surround_skeleton [OF l rel]) (simp_all add: addFloatTableQuery_def)
    next
      case Bilinear
      with f have "b' = add_where ''FALSE'' (add_where ''FALSE'' b)" "c' = add_where ''FALSE'' (add_where ''FALSE'' c)"
        by (simp_all add: addFloatTableQuery_def addToReturnBilinearFloatQuery_def)
      with rel show ?thesis by (simp add: same_skeleton_where closed_simps)
    qed
  next
    case False
    with ok Some new rel show ?thesis
      by (auto simp: addLocationQuery_def report addGridTableQuery_def intro!: same_skeleton_where grid_clause_closed l w
        split: if_splits)
  qed
qed

text \<open>Two calls that differ only in the texts of their data providers and parameter names; the texts of times and
  location, which are not escaped, have no apostrophe.\<close>

definition same_shape :: "WciReadParameterCollection \<Rightarrow> WciReadParameterCollection \<Rightarrow> bool" where
  "same_shape p q \<longleftrightarrow>
     map_option length (dataProvider p) = map_option length (dataProvider q) \<and>
     map_option length (parameter p) = map_option length (parameter q) \<and>
     level p = level q \<and> dataVersion p = dataVersion q \<and>
     referenceTime p = referenceTime q \<and> plain_option (referenceTime p) \<and>
     validTime p = validTime q \<and> plain_option (validTime p) \<and>
     location p = location q \<and> plain_option (location p)"

lemma add_parameters_skeleton:
  assumes E: "documented E" and wci: "quote_char \<notin> set wci" and sh: "same_shape p q"
    and rel: "same_skeleton b c"
    and ok: "add_parameters E wci p src out b = Inr b'" "add_parameters E wci q src out c = Inr c'"
  shows "same_skeleton b' c'"
proof -
  from ok(1) obtain b1 b2 b3 b4 b5 b6 where
    b: "addDataProviderQuery E wci (dataProvider p) b = Inr b1" "addReferenceTimeQuery E (referenceTime p) b1 = Inr b2"
       "addValidTimeQuery E (validTime p) b2 = Inr b3" "addParameterQuery E (parameter p) b3 = Inr b4"
       "addLevelQuery E (level p) b4 = Inr b5" "addDataVersionQuery (dataVersion p) b5 = Inr b6"
       "addLocationQuery E wci (location p) src out b6 = Inr b'"
    by (auto simp: add_parameters_def bindE_eq_Inr)
  from ok(2) sh obtain c1 c2 c3 c4 c5 c6 where
    c: "addDataProviderQuery E wci (dataProvider q) c = Inr c1" "addReferenceTimeQuery E (referenceTime p) c1 = Inr c2"
       "addValidTimeQuery E (validTime p) c2 = Inr c3" "addParameterQuery E (parameter q) c3 = Inr c4"
       "addLevelQuery E (level p) c4 = Inr c5" "addDataVersionQuery (dataVersion p) c5 = Inr c6"
       "addLocationQuery E wci (location p) src out c6 = Inr c'"
    by (auto simp: add_parameters_def bindE_eq_Inr same_shape_def)
  have len: "map_option length (dataProvider p) = map_option length (dataProvider q)"
    "map_option length (parameter p) = map_option length (parameter q)"
    and plain: "plain_option (referenceTime p)" "plain_option (validTime p)" "plain_option (location p)"
    using sh unfolding same_shape_def by blast+
  from provider_skeleton [OF E wci len(1) rel b(1) c(1)] have "same_skeleton b1 c1" .
  from reference_skeleton [OF E this plain(1) b(2) c(2)] have "same_skeleton b2 c2" .
  from valid_skeleton [OF E this plain(2) b(3) c(3)] have "same_skeleton b3 c3" .
  from parameter_skeleton [OF E len(2) this b(4) c(4)] have "same_skeleton b4 c4" .
  from level_skeleton [OF E this b(5) c(5)] have "same_skeleton b5 c5" .
  from version_skeleton [OF this b(6) c(6)] have "same_skeleton b6 c6" .
  from location_skeleton [OF E wci this plain(3) b(7) c(7)] show ?thesis .
qed

section \<open>Properties of the skeleton\<close>

lemma build_query_Inr:
  assumes "build_query E wci (Some p) src out w o' g = Inr s"
  obtains b where "add_parameters E wci p src out (base_query wci src w) = Inr b"
    and "str (case g of None \<Rightarrow> case o' of None \<Rightarrow> b | Some x \<Rightarrow> add_orderBy x b
          | Some y \<Rightarrow> add_groupBy y (case o' of None \<Rightarrow> b | Some x \<Rightarrow> add_orderBy x b)) = Inr s"
proof -
  have "\<exists>b. add_parameters E wci p src out (base_query wci src w) = Inr b \<and>
      str (case g of None \<Rightarrow> case o' of None \<Rightarrow> b | Some x \<Rightarrow> add_orderBy x b
          | Some y \<Rightarrow> add_groupBy y (case o' of None \<Rightarrow> b | Some x \<Rightarrow> add_orderBy x b)) = Inr s"
    using assms by (auto simp: build_query_def report_all_def report_std_def Let_def bindE_def
        split: sum.splits err.splits if_splits)
  with that show ?thesis by blast
qed

text \<open>C2: the texts of the data provider and parameter names cannot change the structure of a statement. Take two calls
  that differ only in these texts, and let the texts that are not escaped (reference time, valid time, location, the columns,
  the order and the grouping, the schema) be free of apostrophes. If both calls give a statement, the two statements have the same
  skeleton, read with \<open>standard_conforming_strings\<close> on: each name stays inside a literal of its own, whatever
  characters it has. For the texts that are not escaped this would not hold (\<open>place_name_not_escaped\<close>).\<close>

theorem build_query_skeleton:
  assumes "documented E" and "quote_char \<notin> set wci" and "quote_char \<notin> set w"
    and "plain_option o'" and "plain_option g" and "same_shape p q"
    and "build_query E wci (Some p) src out w o' g = Inr s"
    and "build_query E wci (Some q) src out w o' g = Inr t"
  shows "skeleton s = skeleton t"
proof -
  let ?fin = "\<lambda>b. case g of None \<Rightarrow> case o' of None \<Rightarrow> b | Some x \<Rightarrow> add_orderBy x b
          | Some y \<Rightarrow> add_groupBy y (case o' of None \<Rightarrow> b | Some x \<Rightarrow> add_orderBy x b)"
  obtain b where b: "add_parameters E wci p src out (base_query wci src w) = Inr b" "str (?fin b) = Inr s"
    using build_query_Inr [OF assms(7)] .
  obtain c where c: "add_parameters E wci q src out (base_query wci src w) = Inr c" "str (?fin c) = Inr t"
    using build_query_Inr [OF assms(8)] .
  have "same_skeleton (base_query wci src w) (base_query wci src w)"
    unfolding base_query_def
    by (intro same_skeleton_add same_skeleton_new both_seal_plain) (use assms in \<open>auto simp: quote_char_def\<close>)
  from add_parameters_skeleton [OF assms(1,2,6) this b(1) c(1)] have "same_skeleton b c" .
  then have "same_skeleton (?fin b) (?fin c)"
    using assms(4,5) by (auto simp: plain_option_def intro!: same_skeleton_add both_seal_plain split: option.splits)
  from both_sealD [OF same_skeleton_str [OF this b(2) c(2)]] show ?thesis by simp
qed

definition sample_parameters1 :: WciReadParameterCollection where
  "sample_parameters1 = sample_parameters\<lparr>referenceTime := Some ''inside 2009 TO 2010'', location := Some ''nearest oslo''\<rparr>"

definition sample_parameters2 :: WciReadParameterCollection where
  "sample_parameters2 = sample_parameters1\<lparr>dataProvider := Some [[quote_char]], parameter := Some [''x'']\<rparr>"

lemma sample_parts:
  "\<exists>ts. TimeSpecification_new (boost_ref :: loc_action boost) ''inside 2009 TO 2010'' = Inr ts"
  "\<exists>l. Location_new boost_ref ''nearest oslo'' = Inr l"
proof -
  have "(case TimeSpecification_new (boost_ref :: loc_action boost) ''inside 2009 TO 2010'' of Inl _ \<Rightarrow> False | Inr _ \<Rightarrow> True)"
    "(case Location_new boost_ref ''nearest oslo'' of Inl _ \<Rightarrow> False | Inr _ \<Rightarrow> True)" by code_simp+
  then show "\<exists>ts. TimeSpecification_new (boost_ref :: loc_action boost) ''inside 2009 TO 2010'' = Inr ts"
    "\<exists>l. Location_new boost_ref ''nearest oslo'' = Inr l" by (simp_all split: sum.splits)
qed

theorem build_query_skeleton_witness:
  "\<exists>s t. build_query boost_ref ''wci_int'' (Some sample_parameters1) FloatTable OutputFloat ''*'' None None = Inr s
    \<and> build_query boost_ref ''wci_int'' (Some sample_parameters2) FloatTable OutputFloat ''*'' None None = Inr t
    \<and> skeleton s = skeleton t"
proof -
  have ok: "parameters_ok boost_ref sample_parameters1" "parameters_ok boost_ref sample_parameters2"
    using sample_parts by (simp_all add: parameters_ok_def sample_parameters1_def sample_parameters2_def
        sample_parameters_def time_ok_def valid_ok_def names_ok_def level_ok_def versions_ok_def location_ok_def INT_MIN_def)
  have "same_shape sample_parameters1 sample_parameters2"
    by (simp add: same_shape_def sample_parameters1_def sample_parameters2_def sample_parameters_def plain_option_def quote_char_def)
  moreover obtain s t where
    s: "build_query boost_ref ''wci_int'' (Some sample_parameters1) FloatTable OutputFloat ''*'' None None = Inr s"
    and t: "build_query boost_ref ''wci_int'' (Some sample_parameters2) FloatTable OutputFloat ''*'' None None = Inr t"
    using build_query_ok [OF documented_ref ok(1)] build_query_ok [OF documented_ref ok(2)] by blast
  ultimately show ?thesis
    using build_query_skeleton [OF documented_ref _ _ _ _ _ s t] by (simp add: quote_char_def plain_option_def)
qed

text \<open>The place name is not escaped: an apostrophe in it changes the skeleton of the clause.\<close>

lemma place_name_not_escaped:
  "skeleton (queryReturnGrid ''w'' (Location_default\<lparr>placeName := [quote_char]\<rparr>))
     \<noteq> skeleton (queryReturnGrid ''w'' (Location_default\<lparr>placeName := ''x''\<rparr>))"
  by code_simp

end
