(* ===== verification/CacheInterface.thy ===== *)
theory CacheInterface
  imports Prelude
begin

text \<open>
  The contract of the memo tables of the program (prepared plans, projections, place
  specifications, place geometries, grid corners, point values): a table of entries from which
  \<open>get\<close> answers, computing and storing what is missing. The laws say what the answer is and that
  entries stay correct; the clients' fact is that a table started empty is transparent (every
  answer is what computing afresh gives), for any sequence of requests. The second contract adds
  the size of the table and a bound.
\<close>

locale memo_table =
  fixes make :: "'k \<Rightarrow> 'v res"
    and look :: "'c \<Rightarrow> 'k \<Rightarrow> 'v option"
    and get :: "'c \<Rightarrow> 'k \<Rightarrow> 'v res \<times> 'c"
    and empty :: 'c
  assumes empty_look: "look empty k = None"
    and get_hit: "look c k = Some v \<Longrightarrow> get c k = (Inr v, c)"
    and get_miss: "look c k = None \<Longrightarrow> fst (get c k) = make k"
    and get_entries: "look c k = None \<Longrightarrow> look (snd (get c k)) k' = Some v \<Longrightarrow>
        look c k' = Some v \<or> (k' = k \<and> make k = Inr v)"
begin

definition correct :: "'c \<Rightarrow> bool" where
  "correct c \<longleftrightarrow> (\<forall>k v. look c k = Some v \<longrightarrow> make k = Inr v)"

fun requests :: "'c \<Rightarrow> 'k list \<Rightarrow> 'v res list \<times> 'c" where
  "requests c [] = ([], c)"
| "requests c (k # ks) = (let (r, c1) = get c k; (rs, c2) = requests c1 ks in (r # rs, c2))"

lemma correct_empty [simp]: "correct empty"
  by (simp add: correct_def empty_look)

lemma get_correct: "correct c \<Longrightarrow> fst (get c k) = make k"
  using get_hit get_miss by (cases "look c k") (auto simp: correct_def)

lemma correct_get: "correct c \<Longrightarrow> correct (snd (get c k))"
proof (cases "look c k")
  case None
  then show "correct c \<Longrightarrow> ?thesis" unfolding correct_def by (blast dest: get_entries)
next
  case (Some v)
  then show "correct c \<Longrightarrow> ?thesis" by (simp add: get_hit)
qed

lemma requests_correct:
  "correct c \<Longrightarrow> fst (requests c ks) = map make ks \<and> correct (snd (requests c ks))"
proof (induction ks arbitrary: c)
  case (Cons k ks)
  from Cons.IH [OF correct_get [OF Cons.prems(1), of k]]
  show ?case
    using get_correct [OF Cons.prems(1), of k] by (simp add: case_prod_beta)
qed simp

theorem transparent: "fst (requests empty ks) = map make ks"
  using requests_correct [OF correct_empty, of ks] by simp

end

locale bounded_memo_table = memo_table +
  fixes size_of :: "'c \<Rightarrow> nat"
    and bound :: nat
  assumes empty_size: "size_of empty \<le> bound"
    and get_size: "size_of c \<le> bound \<Longrightarrow> look c k = None \<Longrightarrow> size_of (snd (get c k)) \<le> bound"
begin

lemma get_bounded: "size_of c \<le> bound \<Longrightarrow> size_of (snd (get c k)) \<le> bound"
  by (cases "look c k") (simp_all add: get_hit get_size)

lemma requests_bounded: "size_of c \<le> bound \<Longrightarrow> size_of (snd (requests c ks)) \<le> bound"
proof (induction ks arbitrary: c)
  case (Cons k ks)
  from Cons.IH [OF get_bounded [OF Cons.prems, of k]] show ?case
    by (simp add: case_prod_beta)
qed simp

theorem bounded: "size_of (snd (requests empty ks)) \<le> bound"
  by (rule requests_bounded [OF empty_size])

end

end
