(* ===== verification/Projection.thy ===== *)
theory Projection
  imports Floating CacheInterface "HOL-Library.Word"
begin

text \<open>
  \<open>src/common/projection\<close>, \<open>src/common/math\<close> and \<open>src/callInterface/core/projTransform.cpp\<close>:
  the place specification of a regular grid, the index macros (unsigned 32-bit arithmetic), the
  rounding function, the WdbProjection class over the PROJ library with its cache, and the
  transformations between grid indexes and longitude and latitude. PROJ is third-party code and
  enters as a record of functions, its angle constants included.
\<close>

record PlaceSpecification =
  startX :: fp
  startY :: fp
  xNumber :: "32 word"
  yNumber :: "32 word"
  xIncrement :: fp
  yIncrement :: fp
  srid :: int
  projDefinition :: string

section \<open>Index arithmetic\<close>

definition division_by_zero :: "'a res" where
  "division_by_zero = Inl (Undefined ''division by zero'')"

definition x_from_index :: "32 word \<Rightarrow> 32 word \<Rightarrow> 32 word res" where
  "x_from_index index numberX = (if numberX = 0 then division_by_zero else Inr (index mod numberX))"

definition y_from_index :: "32 word \<Rightarrow> 32 word \<Rightarrow> 32 word res" where
  "y_from_index index numberX = (if numberX = 0 then division_by_zero else Inr (index div numberX))"

definition index_from_xy :: "32 word \<Rightarrow> 32 word \<Rightarrow> 32 word \<Rightarrow> 32 word" where
  "index_from_xy x y numberX = y * numberX + x"

definition xFromIndex :: "32 word \<Rightarrow> 'a PlaceSpecification_scheme \<Rightarrow> 32 word res" where
  "xFromIndex index ps = x_from_index index (xNumber ps)"

definition yFromIndex :: "32 word \<Rightarrow> 'a PlaceSpecification_scheme \<Rightarrow> 32 word res" where
  "yFromIndex index ps = y_from_index index (xNumber ps)"

definition indexFromXy :: "32 word \<Rightarrow> 32 word \<Rightarrow> 'a PlaceSpecification_scheme \<Rightarrow> 32 word" where
  "indexFromXy x y ps = index_from_xy x y (xNumber ps)"

section \<open>Rounding\<close>

definition dpow10 :: "nat \<Rightarrow> fp" where
  "dpow10 n = rnd binary64 (10 ^ n)"

definition dmul :: "fp \<Rightarrow> fp \<Rightarrow> fp" where "dmul = fmul binary64"
definition dadd :: "fp \<Rightarrow> fp \<Rightarrow> fp" where "dadd = fadd binary64"
definition dsub :: "fp \<Rightarrow> fp \<Rightarrow> fp" where "dsub = fsub binary64"
definition ddiv :: "fp \<Rightarrow> fp \<Rightarrow> fp" where "ddiv = fdiv binary64"

definition wdb_round :: "fp \<Rightarrow> nat \<Rightarrow> fp" where
  "wdb_round value nPrecision =
     (let c0 = dmul value (dpow10 (nPrecision + 1));
          c1 = (if flt value (Fin 0) then dsub c0 (Fin 5) else dadd c0 (Fin 5));
          c2 = ddiv c1 (Fin 10)
      in ddiv (fmodf c2) (dpow10 nPrecision))"

definition wdbRound :: "fp \<Rightarrow> nat \<Rightarrow> fp" where
  "wdbRound value nPrecision = wdb_round value nPrecision"

section \<open>Projections\<close>

type_synonym point = "fp \<times> fp"

record proj =
  pj_init :: "string \<Rightarrow> bool"
  pj_transform :: "string \<Rightarrow> string \<Rightarrow> point list \<Rightarrow> int \<times> point list"
  pj_datum_transform :: "string \<Rightarrow> string \<Rightarrow> point list \<Rightarrow> int \<times> point list"
  pj_strerrno :: "int \<Rightarrow> string"
  DEG_TO_RAD :: fp
  RAD_TO_DEG :: fp

definition isMetric :: "string \<Rightarrow> bool" where
  "isMetric projDef \<longleftrightarrow> find_sub ''longlat'' projDef = None"

text \<open>A WdbProjection is its definition text, which determines the PROJ object.\<close>

definition WdbProjection_new :: "proj \<Rightarrow> string \<Rightarrow> string res" where
  "WdbProjection_new P def = (if pj_init P def then Inr def
     else Inl (Runtime_error (''Invalid PROJ definition: '' @ def)))"

definition newline :: string where "newline = [CHR 0x0A]"
definition tab :: string where "tab = [CHR 0x09]"

definition proj_message :: "proj \<Rightarrow> string \<Rightarrow> int \<Rightarrow> string \<Rightarrow> string \<Rightarrow> string" where
  "proj_message P what_failed error from_def to_def =
     what_failed @ pj_strerrno P error @ ''.'' @ newline @ ''From:'' @ tab @ from_def @ newline
     @ ''To:'' @ tab @ to_def"

definition transform :: "proj \<Rightarrow> string \<Rightarrow> string \<Rightarrow> point list \<Rightarrow> point list res" where
  "transform P src dest pts = (let (error, out) = pj_transform P src dest pts in
     if error = 0 then Inr out
     else if error = - 14 then Inr (map (\<lambda>_. (PInf, PInf)) out)
     else Inl (Runtime_error (proj_message P ''Error during reprojection: '' error src dest
       @ (case out of [] \<Rightarrow> [] | (x, y) # _ \<Rightarrow>
            newline @ ''Coordinates: '' @ show_g x @ '' '' @ show_g y))))"

definition datumTransform :: "proj \<Rightarrow> string \<Rightarrow> string \<Rightarrow> point list \<Rightarrow> point list res" where
  "datumTransform P src dest pts = (let (error, out) = pj_datum_transform P src dest pts in
     if error = 0 then Inr out
     else Inl (Runtime_error (proj_message P ''Error during datum transform: '' error src dest)))"

definition transformToDefault :: "proj \<Rightarrow> string \<Rightarrow> string \<Rightarrow> point list \<Rightarrow> point list res" where
  "transformToDefault P default_def self pts =
     bindE (WdbProjection_new P default_def) (\<lambda>dest. transform P self dest pts)"

definition transformFromDefault :: "proj \<Rightarrow> string \<Rightarrow> string \<Rightarrow> point list \<Rightarrow> point list res" where
  "transformFromDefault P default_def self pts =
     bindE (WdbProjection_new P default_def) (\<lambda>dest. transform P dest self pts)"

text \<open>The process-wide map of projections: their definitions, each standing for its object.\<close>

type_synonym projections = "(string \<times> string) list"

definition getWdbProjection :: "proj \<Rightarrow> projections \<Rightarrow> string \<Rightarrow> string res \<times> projections" where
  "getWdbProjection P projections def = (case map_of projections def of
     Some p \<Rightarrow> (Inr p, projections)
   | None \<Rightarrow>
       (let kept = (if length projections > 512 then [] else projections) in
        case WdbProjection_new P def of
          Inl e \<Rightarrow> (Inl e, kept)
        | Inr p \<Rightarrow> (Inr p, (def, p) # kept)))"

section \<open>projTransform\<close>

definition getProjDefinition :: "string \<Rightarrow> string \<Rightarrow> string \<Rightarrow> string" where
  "getProjDefinition name earthShape extra =
     ''+proj='' @ name @ (if extra = [] then [] else '' '' @ extra) @ '' '' @ earthShape @ '' +no_defs''"

definition longlat_def :: string where
  "longlat_def = getProjDefinition ''longlat'' ''+ellps=WGS84'' []"

definition scale :: "fp \<Rightarrow> point \<Rightarrow> point" where
  "scale k p = (dmul (fst p) k, dmul (snd p) k)"

text \<open>Two projections from the cache, then the transformation between them.\<close>

definition reproject :: "proj \<Rightarrow> projections \<Rightarrow> string \<Rightarrow> string \<Rightarrow> point list \<Rightarrow> point list res \<times> projections" where
  "reproject P pc a b pts = (case getWdbProjection P pc a of
     (Inl e, pc1) \<Rightarrow> (Inl e, pc1)
   | (Inr pa, pc1) \<Rightarrow> (case getWdbProjection P pc1 b of
       (Inl e, pc2) \<Rightarrow> (Inl e, pc2)
     | (Inr pb, pc2) \<Rightarrow> (transform P pa pb pts, pc2)))"

definition round_point :: "proj \<Rightarrow> point \<Rightarrow> point" where
  "round_point P p = (wdb_round (dmul (fst p) (RAD_TO_DEG P)) 4, wdb_round (dmul (snd p) (RAD_TO_DEG P)) 4)"

definition transform_points :: "proj \<Rightarrow> projections \<Rightarrow> 'a PlaceSpecification_scheme \<Rightarrow> point list \<Rightarrow>
    point list res \<times> projections" where
  "transform_points P pc p pts =
     (let pts1 = (if isMetric (projDefinition p) then pts else map (scale (DEG_TO_RAD P)) pts);
          (r, pc1) = reproject P pc (projDefinition p) longlat_def pts1
      in (mapE (map (round_point P)) r, pc1))"

definition grid_coordinate :: "'a PlaceSpecification_scheme \<Rightarrow> fp \<Rightarrow> fp \<Rightarrow> point" where
  "grid_coordinate p i j =
     (dadd (startX p) (dmul i (xIncrement p)), dadd (startY p) (dmul j (yIncrement p)))"

definition wdbTransform :: "proj \<Rightarrow> projections \<Rightarrow> fp \<Rightarrow> fp \<Rightarrow> 'a PlaceSpecification_scheme option \<Rightarrow>
    point res \<times> projections" where
  "wdbTransform P pc i j p = (case p of
     None \<Rightarrow> (Inr (Fin 0, Fin 0), pc)
   | Some ps \<Rightarrow> (let (r, pc1) = transform_points P pc ps [grid_coordinate ps i j] in (mapE hd r, pc1)))"

text \<open>\<open>transformAll\<close>: the number of points is the wrapped 32-bit product; the loop index is
  narrowed to \<open>int\<close> by the macros.\<close>

definition place_points :: "'a PlaceSpecification_scheme \<Rightarrow> nat" where
  "place_points p = unat (xNumber p * yNumber p)"

definition index_point :: "'a PlaceSpecification_scheme \<Rightarrow> nat \<Rightarrow> point" where
  "index_point p plainIndex =
     (let w = word_of_nat plainIndex :: 32 word
      in grid_coordinate p (of_integer (sint (w mod xNumber p))) (of_integer (sint (w div xNumber p))))"

definition transformAll :: "proj \<Rightarrow> projections \<Rightarrow> 'a PlaceSpecification_scheme option \<Rightarrow>
    point list res \<times> projections" where
  "transformAll P pc p = (case p of
     None \<Rightarrow> (Inr [], pc)
   | Some ps \<Rightarrow> transform_points P pc ps (map (index_point ps) [0..<place_points ps]))"

definition rTransform :: "proj \<Rightarrow> projections \<Rightarrow> point \<Rightarrow> 'a PlaceSpecification_scheme option \<Rightarrow>
    point res \<times> projections" where
  "rTransform P pc coords p = (case p of
     None \<Rightarrow> (Inr (Fin 0, Fin 0), pc)
   | Some ps \<Rightarrow>
       (let (r, pc1) = reproject P pc longlat_def (projDefinition ps) [scale (DEG_TO_RAD P) coords]
        in (mapE (\<lambda>out.
              let q = (if isMetric (projDefinition ps) then hd out else scale (RAD_TO_DEG P) (hd out))
              in (ddiv (dsub (fst q) (startX ps)) (xIncrement ps),
                  ddiv (dsub (snd q) (startY ps)) (yIncrement ps))) r, pc1)))"

section \<open>Lemmas\<close>

lemma map_of_key: "map_of xs k = Some v \<Longrightarrow> P v \<Longrightarrow> \<exists>x. map_of xs k = Some x \<and> P x"
  by blast

lemma WdbProjection_new_Inr: "WdbProjection_new P def = Inr p \<Longrightarrow> p = def"
  by (simp add: WdbProjection_new_def split: if_splits)

interpretation projection_cache: bounded_memo_table "WdbProjection_new P" map_of "getWdbProjection P" "[]" length 513
  for P
proof unfold_locales
  fix c :: projections and k k' v
  assume "map_of c k = None" and look: "map_of (snd (getWdbProjection P c k)) k' = Some v"
  then show "map_of c k' = Some v \<or> (k' = k \<and> WdbProjection_new P k = Inr v)"
    by (auto simp: getWdbProjection_def Let_def split: sum.splits if_splits)
qed (auto simp: getWdbProjection_def Let_def split: option.splits sum.splits)

text \<open>With a correct cache, \<open>reproject\<close> is the composition without one.\<close>

definition reproject_value :: "proj \<Rightarrow> string \<Rightarrow> string \<Rightarrow> point list \<Rightarrow> point list res" where
  "reproject_value P a b pts = bindE (WdbProjection_new P a) (\<lambda>pa.
     bindE (WdbProjection_new P b) (\<lambda>pb. transform P pa pb pts))"

lemma reproject_cached:
  assumes "projection_cache.correct P pc"
  shows "fst (reproject P pc a b pts) = reproject_value P a b pts \<and>
    projection_cache.correct P (snd (reproject P pc a b pts))"
proof -
  obtain r1 pc1 where 1: "getWdbProjection P pc a = (r1, pc1)" by fastforce
  with projection_cache.get_correct [OF assms, of a] projection_cache.correct_get [OF assms, of a]
  have r1: "r1 = WdbProjection_new P a" "projection_cache.correct P pc1" by simp_all
  obtain r2 pc2 where 2: "getWdbProjection P pc1 b = (r2, pc2)" by fastforce
  with projection_cache.get_correct [OF r1(2), of b] projection_cache.correct_get [OF r1(2), of b]
  have r2: "r2 = WdbProjection_new P b" "projection_cache.correct P pc2" by simp_all
  show ?thesis
    using 1 2 r1 r2 by (auto simp: reproject_def reproject_value_def split: sum.splits)
qed

lemma unat_index:
  fixes x y nx :: "32 word"
  assumes "unat y * unat nx + unat x < 2 ^ 32"
  shows "unat (index_from_xy x y nx) = unat y * unat nx + unat x"
proof -
  have "unat (y * nx) = unat y * unat nx"
    using assms by (subst unat_mult_lem [THEN iffD1]) auto
  with assms show ?thesis
    unfolding index_from_xy_def by (subst unat_add_lem [THEN iffD1]) auto
qed

lemma index_bound:
  fixes x y nx ny :: "32 word"
  assumes "x < nx" and "y < ny" and "unat nx * unat ny \<le> 2 ^ 32"
  shows "unat y * unat nx + unat x < 2 ^ 32"
proof -
  have "unat x < unat nx" "unat y < unat ny"
    using assms by (simp_all add: word_less_nat_alt)
  then have "unat y * unat nx + unat x < (unat y + 1) * unat nx" by simp
  also have "\<dots> \<le> unat ny * unat nx"
    using \<open>unat y < unat ny\<close> by (intro mult_le_mono1) simp
  also have "\<dots> \<le> 2 ^ 32" using assms(3) by (simp add: mult.commute)
  finally show ?thesis .
qed

lemma round_trip_xy:
  fixes x y nx ny :: "32 word"
  assumes "x < nx" and "y < ny" and "unat nx * unat ny \<le> 2 ^ 32"
  shows "x_from_index (index_from_xy x y nx) nx = Inr x \<and> y_from_index (index_from_xy x y nx) nx = Inr y
    \<and> unat (index_from_xy x y nx) < unat nx * unat ny"
proof -
  have lt: "unat x < unat nx" "unat y < unat ny"
    using assms by (simp_all add: word_less_nat_alt)
  have b: "unat y * unat nx + unat x < 2 ^ 32" by (rule index_bound [OF assms])
  note idx = unat_index [OF b]
  have nz: "nx \<noteq> 0" using assms(1) by auto
  have "index_from_xy x y nx mod nx = x"
    by (rule word_unat_eq_iff [THEN iffD2]) (use lt in \<open>simp add: unat_mod idx\<close>)
  moreover have "index_from_xy x y nx div nx = y"
    by (rule word_unat_eq_iff [THEN iffD2]) (use lt in \<open>simp add: unat_div idx\<close>)
  moreover have "unat y * unat nx + unat x < (unat y + 1) * unat nx" using lt by simp
  moreover have "(unat y + 1) * unat nx \<le> unat ny * unat nx"
    using lt(2) by (intro mult_le_mono1) simp
  then have "unat y * unat nx + unat x < unat ny * unat nx"
    using lt(1) by (simp add: algebra_simps)
  ultimately show ?thesis
    using nz idx by (simp add: x_from_index_def y_from_index_def mult.commute)
qed

lemma round_trip_index:
  fixes i nx :: "32 word"
  assumes "nx \<noteq> 0"
  shows "\<exists>x y. x_from_index i nx = Inr x \<and> y_from_index i nx = Inr y \<and> x < nx \<and> index_from_xy x y nx = i"
proof -
  have "i div nx * nx + i mod nx = i" by (rule div_mult_mod_eq)
  moreover have "i mod nx < nx" using assms by (simp add: word_mod_less_divisor word_gt_0)
  ultimately show ?thesis
    using assms by (simp add: x_from_index_def y_from_index_def index_from_xy_def)
qed

section \<open>Rounding of whole numbers\<close>

lemma trunc_half_up: "0 \<le> k \<Longrightarrow> trunc (of_int k + 1 / 2) = k"
  by (simp add: trunc_def floor_eq_iff)

lemma trunc_half_down: "k \<le> 0 \<Longrightarrow> trunc (of_int k - 1 / 2) = k"
  by (auto simp: trunc_def ceiling_eq_iff floor_eq_iff)

lemma ddiv_10: "a / 10 = b \<Longrightarrow> rnd binary64 b = Fin c \<Longrightarrow> ddiv (Fin a) (Fin 10) = Fin c"
  by (simp add: ddiv_def)

lemma wdb_round_int:
  assumes k: "\<bar>k\<bar> \<le> 2 ^ 35"
  shows "wdb_round (Fin (of_int k)) 4 = Fin (of_int k)"
proof -
  have p5: "dpow10 (4 + 1) = Fin (of_int 100000)" "dpow10 4 = Fin (of_int 10000)"
    using rnd_int [of 100000] rnd_int [of 10000] by (simp_all add: dpow10_def)
  have b: "\<bar>k * 100000\<bar> \<le> 2 ^ 52" "\<bar>k * 100000 + 5\<bar> \<le> 2 ^ 52" "\<bar>k * 100000 - 5\<bar> \<le> 2 ^ 52"
      "\<bar>k * 10000\<bar> \<le> 2 ^ 52" "\<bar>k * 20000 + 1\<bar> \<le> 2 ^ 53" "\<bar>k * 20000 - 1\<bar> \<le> 2 ^ 53" "\<bar>k\<bar> \<le> 2 ^ 52"
    using k by (auto simp: abs_le_iff)
  have c0: "dmul (Fin (of_int k)) (dpow10 (4 + 1)) = Fin (of_int (k * 100000))"
    unfolding p5 dmul_def fmul.simps of_int_mult [symmetric] by (rule rnd_int [OF b(1)])
  show ?thesis
  proof (cases "k < 0")
    case True
    have c1: "dsub (Fin (of_int (k * 100000))) (Fin 5) = Fin (of_int (k * 100000 - 5))"
      using rnd_int [OF b(3)] by (simp add: dsub_def fsub_def)
    have "of_int (k * 100000 - 5) / 10 = (of_int (k * 20000 - 1) / 2 :: rat)" by simp
    then have c2: "ddiv (Fin (of_int (k * 100000 - 5))) (Fin 10) = Fin (of_int (k * 20000 - 1) / 2)"
      by (rule ddiv_10 [OF _ rnd_half [OF b(6)]])
    have "(of_int (k * 20000 - 1) / 2 :: rat) = of_int (k * 10000) - 1 / 2" by simp
    then have c3: "fmodf (Fin (of_int (k * 20000 - 1) / 2)) = Fin (of_int (k * 10000))"
      unfolding fmodf.simps by (simp only:) (use trunc_half_down [of "k * 10000"] True in simp)
    have "of_int (k * 10000) / of_int 10000 = (of_int k :: rat)" by simp
    then have c4: "ddiv (Fin (of_int (k * 10000))) (dpow10 4) = Fin (of_int k)"
      using rnd_int [OF b(7)] by (simp add: ddiv_def p5)
    from True c0 c1 c2 c3 c4 show ?thesis
      unfolding wdb_round_def Let_def by (simp del: of_int_mult of_int_diff)
  next
    case False
    have c1: "dadd (Fin (of_int (k * 100000))) (Fin 5) = Fin (of_int (k * 100000 + 5))"
      using rnd_int [OF b(2)] by (simp add: dadd_def)
    have "of_int (k * 100000 + 5) / 10 = (of_int (k * 20000 + 1) / 2 :: rat)" by simp
    then have c2: "ddiv (Fin (of_int (k * 100000 + 5))) (Fin 10) = Fin (of_int (k * 20000 + 1) / 2)"
      by (rule ddiv_10 [OF _ rnd_half [OF b(5)]])
    have "(of_int (k * 20000 + 1) / 2 :: rat) = of_int (k * 10000) + 1 / 2" by simp
    then have c3: "fmodf (Fin (of_int (k * 20000 + 1) / 2)) = Fin (of_int (k * 10000))"
      unfolding fmodf.simps by (simp only:) (use trunc_half_up [of "k * 10000"] False in simp)
    have "of_int (k * 10000) / of_int 10000 = (of_int k :: rat)" by simp
    then have c4: "ddiv (Fin (of_int (k * 10000))) (dpow10 4) = Fin (of_int k)"
      using rnd_int [OF b(7)] by (simp add: ddiv_def p5)
    from False c0 c1 c2 c3 c4 show ?thesis
      unfolding wdb_round_def Let_def by (simp del: of_int_mult of_int_add)
  qed
qed

section \<open>Properties\<close>

text \<open>C7: for a grid of at most \<open>2 ^ 32\<close> points, the index macros are inverse to each other in
  unsigned 32-bit arithmetic: a point's index gives back its column and row and lies below the number
  of points, and an index is that of its column and row.\<close>

theorem grid_index_round_trip:
  assumes "x < xNumber p" and "y < yNumber p" and "unat (xNumber p) * unat (yNumber p) \<le> 2 ^ 32"
  shows "xFromIndex (indexFromXy x y p) p = Inr x \<and> yFromIndex (indexFromXy x y p) p = Inr y
    \<and> unat (indexFromXy x y p) < unat (xNumber p) * unat (yNumber p)
    \<and> (\<exists>x' y'. xFromIndex i p = Inr x' \<and> yFromIndex i p = Inr y' \<and> x' < xNumber p \<and> indexFromXy x' y' p = i)"
proof -
  have "xNumber p \<noteq> 0" using assms(1) by auto
  with round_trip_index [of "xNumber p" i] round_trip_xy [OF assms] show ?thesis
    by (simp add: xFromIndex_def yFromIndex_def indexFromXy_def)
qed

definition sample_place :: PlaceSpecification where
  "sample_place = \<lparr>startX = Fin 5, startY = Fin 60, xNumber = 4, yNumber = 3, xIncrement = Fin 1,
     yIncrement = Fin 1, srid = 4030, projDefinition = ''+proj=longlat''\<rparr>"

theorem grid_index_round_trip_witness:
  "xFromIndex (indexFromXy 3 2 sample_place) sample_place = Inr 3"
  using grid_index_round_trip [of 3 sample_place 2 7] by (simp add: sample_place_def)

text \<open>Rounding to four decimals, which every transformed coordinate goes through, leaves a whole
  number below \<open>2 ^ 35\<close> exactly as it is, negative ones included.\<close>

theorem round_keeps_integers:
  assumes "\<bar>k\<bar> \<le> 2 ^ 35"
  shows "wdbRound (Fin (of_int k)) 4 = Fin (of_int k)"
  unfolding wdbRound_def by (rule wdb_round_int [OF assms])

theorem round_keeps_integers_witness: "wdbRound (Fin (- 180)) 4 = Fin (- 180)"
  using round_keeps_integers [of "- 180"] by simp

text \<open>C8: the projection cache is transparent and bounded. Whatever definitions are asked for, in
  whatever order, each answer is the one of a fresh construction, errors included, and the cache
  never holds more than 513 projections.\<close>

theorem projection_cache_transparent:
  "fst (projection_cache.requests P [] defs) = map (WdbProjection_new P) defs
   \<and> length (snd (projection_cache.requests P [] defs)) \<le> 513"
  using projection_cache.transparent projection_cache.bounded by simp

end
