(* ===== verification/GridGeometry.thy ===== *)
theory GridGeometry
  imports Projection
begin

text \<open>
  \<open>GridGeometry.cpp\<close> and \<open>gridRotate.h\<close>: a place specification with the order in which its values
  are stored, and the two caches that its const member functions fill (the WKT text and the corner
  coordinates). Every member function takes the object and returns it. The memory of a new object
  that no constructor writes (the SRID) is an argument. The lemmas say when the caches are
  transparent, what turning the rows over does to the coordinates of the values, and that it is
  undone by doing it again.
\<close>

section \<open>The object\<close>

datatype Orientation = LeftUpperHorizontal | LeftLowerHorizontal | OtherOrientation int

datatype Corner = UpperLeft | UpperRight | LowerLeft | LowerRight

record GridGeometry = PlaceSpecification +
  orientation :: Orientation
  geometry_cache :: string
  corners :: "(Corner \<times> point) list"

definition DEFAULT_PROJECTION :: string where
  "DEFAULT_PROJECTION = ''+proj=longlat +ellps=WGS84 +no_defs''"

definition fneg :: "fp \<Rightarrow> fp" where
  "fneg x = (case x of Fin q \<Rightarrow> Fin (- q) | PInf \<Rightarrow> NInf | NInf \<Rightarrow> PInf | NaN \<Rightarrow> NaN)"

text \<open>The grid size is passed as \<open>size_t\<close> and narrowed to \<open>unsigned int\<close>.\<close>

definition GridGeometry_new ::
  "int \<Rightarrow> string \<Rightarrow> Orientation \<Rightarrow> 64 word \<Rightarrow> 64 word \<Rightarrow> fp \<Rightarrow> fp \<Rightarrow> fp \<Rightarrow> fp \<Rightarrow> GridGeometry" where
  "GridGeometry_new memory projDef ori xNum yNum xIncr yIncr startingX startingY =
     \<lparr>startX = startingX, startY = startingY, xNumber = ucast xNum, yNumber = ucast yNum,
      xIncrement = xIncr, yIncrement = yIncr, srid = memory, projDefinition = projDef,
      orientation = ori, geometry_cache = [], corners = []\<rparr>"

definition GridGeometry_of_place :: "PlaceSpecification \<Rightarrow> Orientation \<Rightarrow> GridGeometry" where
  "GridGeometry_of_place ps ori = PlaceSpecification.extend ps
     \<lparr>orientation = ori, geometry_cache = [], corners = []\<rparr>"

text \<open>Assignment keeps the target's SRID and its caches; assigning an object to itself reads the
  definition text after freeing it.\<close>

definition copy_fields :: "GridGeometry \<Rightarrow> GridGeometry \<Rightarrow> GridGeometry" where
  "copy_fields g cpy = g\<lparr>orientation := orientation cpy, xNumber := xNumber cpy, yNumber := yNumber cpy,
     xIncrement := xIncrement cpy, yIncrement := yIncrement cpy, startX := startX cpy, startY := startY cpy,
     projDefinition := projDefinition cpy\<rparr>"

definition GridGeometry_assign :: "bool \<Rightarrow> GridGeometry \<Rightarrow> GridGeometry \<Rightarrow> GridGeometry res" where
  "GridGeometry_assign same_object g cpy =
     (if same_object then Inl (Undefined ''strlen of freed memory'') else Inr (copy_fields g cpy))"

definition GridGeometry_copy :: "PlaceSpecification \<Rightarrow> GridGeometry \<Rightarrow> GridGeometry" where
  "GridGeometry_copy memory cpy = copy_fields (GridGeometry_of_place memory LeftUpperHorizontal) cpy"

section \<open>Operations\<close>

definition isRotated :: "GridGeometry \<Rightarrow> bool" where
  "isRotated g \<longleftrightarrow> \<not> (find_sub ''+lon_0='' (projDefinition g) = None \<and> find_sub ''+o_lat_p='' (projDefinition g) = None)"

text \<open>The \<open>int\<close> that the index macro returns becomes a \<open>size_t\<close>.\<close>

definition getIndex :: "GridGeometry \<Rightarrow> Corner \<Rightarrow> 64 word" where
  "getIndex g c = scast (case c of
     UpperLeft \<Rightarrow> indexFromXy 0 (yNumber g - 1) g
   | UpperRight \<Rightarrow> indexFromXy (xNumber g - 1) (yNumber g - 1) g
   | LowerLeft \<Rightarrow> indexFromXy 0 0 g
   | LowerRight \<Rightarrow> indexFromXy (xNumber g - 1) 0 g)"

definition double_of_size :: "64 word \<Rightarrow> fp" where
  "double_of_size n = of_integer (uint n)"

definition unprojectedLonLat :: "proj \<Rightarrow> 'a PlaceSpecification_scheme \<Rightarrow> point \<Rightarrow> point" where
  "unprojectedLonLat P g p =
     (let ret = grid_coordinate g (fst p) (snd p)
      in if isMetric (projDefinition g) then ret else scale (DEG_TO_RAD P) ret)"

definition project :: "proj \<Rightarrow> 'a PlaceSpecification_scheme \<Rightarrow> point \<Rightarrow> point res" where
  "project P g p =
     bindE (WdbProjection_new P DEFAULT_PROJECTION) (\<lambda>target.
     bindE (WdbProjection_new P (projDefinition g)) (\<lambda>self.
     mapE (\<lambda>out. round_point P (hd out)) (transform P self target [p])))"

definition lonLatFromIndex :: "proj \<Rightarrow> 'a PlaceSpecification_scheme \<Rightarrow> 64 word \<Rightarrow> 64 word \<Rightarrow> point res" where
  "lonLatFromIndex P g x y = project P g (unprojectedLonLat P g (double_of_size x, double_of_size y))"

definition corner_point :: "proj \<Rightarrow> GridGeometry \<Rightarrow> Corner \<Rightarrow> point res" where
  "corner_point P g c = (let idx = ucast (getIndex g c) in
     bindE (xFromIndex idx g) (\<lambda>x. bindE (yFromIndex idx g) (\<lambda>y. lonLatFromIndex P g (scast x) (scast y))))"

definition point_at :: "proj \<Rightarrow> GridGeometry \<Rightarrow> Corner \<Rightarrow> point res \<times> GridGeometry" where
  "point_at P g c = (case map_of (corners g) c of
     Some p \<Rightarrow> (Inr p, g)
   | None \<Rightarrow> (case corner_point P g c of
       Inl e \<Rightarrow> (Inl e, g)
     | Inr p \<Rightarrow> (Inr p, g\<lparr>corners := (c, p) # corners g\<rparr>)))"

text \<open>\<open>startY_ += yIncrement_ * (yNumber_ - 1)\<close>, with the unsigned difference.\<close>

definition turn_rows :: "'a PlaceSpecification_scheme \<Rightarrow> 'a PlaceSpecification_scheme" where
  "turn_rows g = g\<lparr>startY := dadd (startY g) (dmul (yIncrement g) (of_integer (uint (yNumber g - 1)))),
     yIncrement := fneg (yIncrement g)\<rparr>"

definition setOrientation :: "GridGeometry \<Rightarrow> Orientation \<Rightarrow> GridGeometry res" where
  "setOrientation g ori =
     (if ori = orientation g then Inr g
      else if ori = LeftUpperHorizontal \<or> ori = LeftLowerHorizontal
      then Inr (turn_rows (g\<lparr>orientation := ori\<rparr>))
      else Inl (Runtime_error ''Unable to handle requested grid orientation''))"

fun show_point :: "point \<Rightarrow> string" where
  "show_point (x, y) = show_g x @ '' '' @ show_g y"

text \<open>The corners in the order of the text, the first one again at the end.\<close>

fun corner_points :: "proj \<Rightarrow> GridGeometry \<Rightarrow> Corner list \<Rightarrow> point list res \<times> GridGeometry" where
  "corner_points P g [] = (Inr [], g)"
| "corner_points P g (c # cs) = (case point_at P g c of
     (Inl e, g1) \<Rightarrow> (Inl e, g1)
   | (Inr p, g1) \<Rightarrow> (case corner_points P g1 cs of
       (Inl e, g2) \<Rightarrow> (Inl e, g2)
     | (Inr ps, g2) \<Rightarrow> (Inr (p # ps), g2)))"

definition show_grid :: "point list \<Rightarrow> string" where
  "show_grid ps = ''('' @ join '','' (map show_point (ps @ [hd ps])) @ '')''"

definition wktRepresentation :: "proj \<Rightarrow> GridGeometry \<Rightarrow> string res \<times> GridGeometry" where
  "wktRepresentation P g =
     (if geometry_cache g \<noteq> [] then (Inr (geometry_cache g), g)
      else (case corner_points P g [LowerLeft, LowerRight, UpperRight, UpperLeft] of
          (Inl e, g1) \<Rightarrow> (Inl e, g1)
        | (Inr ps, g1) \<Rightarrow>
            (let text = ''POLYGON('' @ show_grid ps @ '')''
             in (Inr text, g1\<lparr>geometry_cache := text\<rparr>))))"

section \<open>Turning the rows of a grid over\<close>

fun copy_rows :: "'t list \<Rightarrow> nat \<Rightarrow> nat \<Rightarrow> 't list" where
  "copy_rows grid xLength 0 = []"
| "copy_rows grid xLength (Suc y) = take xLength (drop (y * xLength) grid) @ copy_rows grid xLength y"

definition swapUpperLowerOrientation :: "'t list \<Rightarrow> nat \<Rightarrow> 't list res" where
  "swapUpperLowerOrientation grid xLength =
     (if xLength = 0 then division_by_zero
      else Inr (copy_rows grid xLength (length grid div xLength)))"

lemma length_copy_rows: "y * n \<le> length grid \<Longrightarrow> length (copy_rows grid n y) = y * n"
  by (induction y) auto

lemma nth_copy_rows:
  "y * n \<le> length grid \<Longrightarrow> r < y \<Longrightarrow> x < n \<Longrightarrow>
     copy_rows grid n y ! (r * n + x) = grid ! ((y - 1 - r) * n + x)"
proof (induction y arbitrary: r)
  case (Suc y)
  have len: "n \<le> length grid - y * n" "y * n \<le> length grid" using Suc.prems(1) by auto
  show ?case
  proof (cases r)
    case 0
    with len Suc.prems show ?thesis by (simp add: nth_append)
  next
    case (Suc r')
    with Suc.prems have "r' < y" by simp
    from Suc.IH [OF len(2) this Suc.prems(3)] len Suc show ?thesis
      by (simp add: nth_append min_absorb2 add.assoc)
  qed
qed simp

lemma row_bound: "r < y \<Longrightarrow> x < n \<Longrightarrow> r * n + x < y * (n::nat)"
proof -
  assume "r < y" "x < n"
  then have "r * n + x < (r + 1) * n" by simp
  also have "\<dots> \<le> y * n" using \<open>r < y\<close> by (intro mult_le_mono1) simp
  finally show ?thesis .
qed

lemma swap_swap_rows:
  assumes n: "0 < n" and len: "length grid = y * n"
  shows "copy_rows (copy_rows grid n y) n y = grid"
proof (rule nth_equalityI)
  have l1: "length (copy_rows grid n y) = y * n" using len by (simp add: length_copy_rows)
  then show l2: "length (copy_rows (copy_rows grid n y) n y) = length grid"
    using len by (simp add: length_copy_rows)
  fix i
  assume "i < length (copy_rows (copy_rows grid n y) n y)"
  then have i: "i < y * n" using l2 len by simp
  define r x where "r = i div n" and "x = i mod n"
  have rx: "r < y" "x < n" "i = r * n + x"
    using i n by (simp_all add: r_def x_def less_mult_imp_div_less)
  then have "y - 1 - r < y" "y - 1 - (y - 1 - r) = r" by auto
  with rx nth_copy_rows [of y n "copy_rows grid n y" r x] nth_copy_rows [of y n grid "y - 1 - r" x] l1 len
  show "copy_rows (copy_rows grid n y) n y ! i = grid ! i" by simp
qed

section \<open>The corner cache\<close>

definition corners_get :: "proj \<Rightarrow> GridGeometry \<Rightarrow> (Corner \<times> point) list \<Rightarrow> Corner \<Rightarrow> point res \<times> (Corner \<times> point) list" where
  "corners_get P g c k = (let (r, g1) = point_at P (g\<lparr>corners := c\<rparr>) k in (r, corners g1))"

lemma corner_point_corners [simp]: "corner_point P (g\<lparr>corners := c\<rparr>) k = corner_point P g k"
  by (cases k) (simp_all add: corner_point_def getIndex_def lonLatFromIndex_def unprojectedLonLat_def
      project_def grid_coordinate_def xFromIndex_def yFromIndex_def indexFromXy_def cong: if_cong)

lemma corners_get_simps:
  "map_of c k = Some p \<Longrightarrow> corners_get P g c k = (Inr p, c)"
  "map_of c k = None \<Longrightarrow> corner_point P g k = Inr p \<Longrightarrow> corners_get P g c k = (Inr p, (k, p) # c)"
  "map_of c k = None \<Longrightarrow> corner_point P g k = Inl e \<Longrightarrow> corners_get P g c k = (Inl e, c)"
  by (simp_all add: corners_get_def point_at_def)

lemma card_corners: "card (S :: Corner set) \<le> 4"
proof -
  have "S \<subseteq> {UpperLeft, UpperRight, LowerLeft, LowerRight}"
    using Corner.exhaust by auto
  then have "card S \<le> card {UpperLeft, UpperRight, LowerLeft, LowerRight}"
    by (rule card_mono [rotated]) simp
  then show ?thesis by simp
qed

interpretation corner_cache: bounded_memo_table "corner_point P g" map_of "corners_get P g" "[]" "\<lambda>c. card (dom (map_of c))" 4
  for P g
proof unfold_locales
  fix c :: "(Corner \<times> point) list" and k k' v
  assume "map_of c k = None" and "map_of (snd (corners_get P g c k)) k' = Some v"
  then show "map_of c k' = Some v \<or> k' = k \<and> corner_point P g k = Inr v"
    by (cases "corner_point P g k") (auto simp: corners_get_simps split: if_splits)
next
  fix c :: "(Corner \<times> point) list" and k
  assume "map_of c k = None"
  then show "fst (corners_get P g c k) = corner_point P g k"
    by (cases "corner_point P g k") (simp_all add: corners_get_simps)
qed (simp_all add: corners_get_simps card_corners)

lemma point_at_corners: "point_at P g k = (fst (corners_get P g (corners g) k), g\<lparr>corners := snd (corners_get P g (corners g) k)\<rparr>)"
proof -
  have g: "g = g\<lparr>corners := corners g\<rparr>" by simp
  show ?thesis
    by (cases "map_of (corners g) k"; cases "corner_point P g k") (simp_all add: corners_get_simps point_at_def)
qed

lemma corner_points_requests:
  assumes "\<And>c. c \<in> set cs \<Longrightarrow> corner_point P g c = Inr (p c)" and "corner_cache.correct P g (corners g)"
  shows "corner_points P g cs = (Inr (map p cs), g\<lparr>corners := snd (corner_cache.requests P g (corners g) cs)\<rparr>)"
  using assms
proof (induction cs arbitrary: g)
  case (Cons c cs)
  define g1 where "g1 = g\<lparr>corners := snd (corners_get P g (corners g) c)\<rparr>"
  have same: "corner_point P g1 = corner_point P g" "corners_get P g1 = corners_get P g"
    by (auto simp: fun_eq_iff g1_def corners_get_def)
  have "point_at P g c = (Inr (p c), g1)"
    using corner_cache.get_correct [OF Cons.prems(2), of c] Cons.prems(1) [of c]
    by (simp add: point_at_corners g1_def)
  moreover have "corner_points P g1 cs = (Inr (map p cs), g1\<lparr>corners := snd (corner_cache.requests P g (corners g1) cs)\<rparr>)"
    using Cons.IH [of g1] Cons.prems corner_cache.correct_get [OF Cons.prems(2), of c]
    unfolding same by (simp add: g1_def)
  ultimately have "corner_points P g (c # cs) =
      (Inr (map p (c # cs)), g1\<lparr>corners := snd (corner_cache.requests P g (corners g1) cs)\<rparr>)"
    unfolding same by simp
  then show ?case
    by (simp add: g1_def case_prod_beta)
qed simp

lemma correct_cached: "corner_cache.correct P g c \<Longrightarrow> map_of c k = Some v \<Longrightarrow> corner_point P g k = Inr v"
  by (cases v) (simp add: corner_cache.correct_def)

lemma corners_after:
  assumes "corner_points P g cs = (Inr (map p cs), g1)" and "k \<in> set cs"
  shows "\<exists>v. map_of (corners g1) k = Some v"
  using assms
proof (induction cs arbitrary: g)
  case (Cons c cs)
  from Cons.prems(1) obtain g2 where g2: "point_at P g c = (Inr (p c), g2)"
      "corner_points P g2 cs = (Inr (map p cs), g1)"
    by (auto split: prod.splits sum.splits)
  have keep: "\<exists>v. map_of (corners g) k = Some v \<Longrightarrow> \<exists>v. map_of (corners g1) k = Some v"
    if "corner_points P g cs = (r, g1)" for g g1 cs r
    using that
  proof (induction P g cs arbitrary: r rule: corner_points.induct)
    case (2 P g c cs)
    then show ?case
      by (fastforce simp: point_at_def split: option.splits sum.splits prod.splits if_splits)
  qed simp
  show ?case
  proof (cases "k = c")
    case True
    have "\<exists>v. map_of (corners g2) c = Some v"
      using g2(1) by (auto simp: point_at_def split: option.splits sum.splits)
    with keep [OF g2(2)] True show ?thesis by simp
  next
    case False
    with Cons.IH [OF g2(2)] Cons.prems(2) show ?thesis by simp
  qed
qed simp

section \<open>Rows and orientation\<close>

lemma of_integer_word: "of_integer (uint (n :: 32 word)) = Fin (of_int (uint n))"
proof -
  have "uint n < 2 ^ 32" using uint_lt2p [of n] by simp
  then show ?thesis by (intro of_integer_exact) simp
qed

lemma dadd_int: "\<bar>a + b\<bar> \<le> 2 ^ 52 \<Longrightarrow> dadd (Fin (of_int a)) (Fin (of_int b)) = Fin (of_int (a + b))"
  using rnd_int [of "a + b"] by (simp add: dadd_def)

lemma dmul_int: "\<bar>a * b\<bar> \<le> 2 ^ 52 \<Longrightarrow> dmul (Fin (of_int a)) (Fin (of_int b)) = Fin (of_int (a * b))"
  using rnd_int [of "a * b"] by (simp add: dmul_def)

text \<open>A grid whose rows lie at whole numbers, small enough for exact arithmetic.\<close>

definition whole_rows :: "int \<Rightarrow> int \<Rightarrow> 'a PlaceSpecification_scheme \<Rightarrow> bool" where
  "whole_rows s d g \<longleftrightarrow> startY g = Fin (of_int s) \<and> yIncrement g = Fin (of_int d)
     \<and> \<bar>s\<bar> \<le> 2 ^ 40 \<and> \<bar>d\<bar> \<le> 2 ^ 17"

lemma whole_product:
  assumes "\<bar>d\<bar> \<le> 2 ^ 17" and "0 \<le> n" and "n < 2 ^ 32"
  shows "\<bar>d * n\<bar> \<le> (2 ^ 49 :: int)"
proof -
  have "\<bar>d\<bar> * n \<le> 2 ^ 17 * 2 ^ 32" using assms by (intro mult_mono) auto
  then show ?thesis using assms(2) by (simp add: abs_mult)
qed

lemma row_coordinate:
  assumes "whole_rows s d g" and "0 \<le> n" and "n < 2 ^ 32"
  shows "dadd (startY g) (dmul (of_integer n) (yIncrement g)) = Fin (of_int (s + d * n))"
    and "dadd (startY g) (dmul (yIncrement g) (of_integer n)) = Fin (of_int (s + d * n))"
proof -
  have w: "startY g = Fin (of_int s)" "yIncrement g = Fin (of_int d)" "\<bar>s\<bar> \<le> 2 ^ 40" "\<bar>d\<bar> \<le> 2 ^ 17"
    using assms(1) by (simp_all add: whole_rows_def)
  have p: "\<bar>d * n\<bar> \<le> 2 ^ 49" by (rule whole_product [OF w(4) assms(2,3)])
  then have p': "\<bar>n * d\<bar> \<le> 2 ^ 52" "\<bar>d * n\<bar> \<le> 2 ^ 52" "\<bar>s + d * n\<bar> \<le> 2 ^ 52" "\<bar>s + n * d\<bar> \<le> 2 ^ 52"
    using w(3) by (simp_all add: mult.commute abs_le_iff)
  have n: "of_integer n = Fin (of_int n)" using assms by (intro of_integer_exact) auto
  show "dadd (startY g) (dmul (of_integer n) (yIncrement g)) = Fin (of_int (s + d * n))"
    unfolding w(1,2) n dmul_int [OF p'(1)] dadd_int [OF p'(4)] by (simp add: mult.commute)
  show "dadd (startY g) (dmul (yIncrement g) (of_integer n)) = Fin (of_int (s + d * n))"
    unfolding w(1,2) n dmul_int [OF p'(2)] dadd_int [OF p'(3)] by simp
qed

lemma turn_rows_whole:
  assumes "whole_rows s d g"
  shows "startY (turn_rows g) = Fin (of_int (s + d * uint (yNumber g - 1)))"
    and "yIncrement (turn_rows g) = Fin (of_int (- d))"
  using row_coordinate(2) [OF assms, of "uint (yNumber g - 1)"] uint_lt2p [of "yNumber g - 1"] assms
  by (simp_all add: turn_rows_def fneg_def whole_rows_def)

lemma turned_row:
  assumes w: "whole_rows s d g" and y: "0 \<le> y" "y \<le> uint (yNumber g - 1)"
  shows "dadd (startY (turn_rows g)) (dmul (of_integer y) (yIncrement (turn_rows g)))
    = dadd (startY g) (dmul (of_integer (uint (yNumber g - 1) - y)) (yIncrement g))"
proof -
  define m where "m = uint (yNumber g - 1)"
  have m: "m < 2 ^ 32" using uint_lt2p [of "yNumber g - 1"] by (simp add: m_def)
  have ym: "0 \<le> m" "y \<le> m" "y < 2 ^ 32" "0 \<le> m - y" "m - y < 2 ^ 32"
    using y m by (auto simp: m_def)
  have s: "\<bar>s\<bar> \<le> 2 ^ 40" and d: "\<bar>d\<bar> \<le> 2 ^ 17" using w by (simp_all add: whole_rows_def)
  note b = whole_product [OF d ym(1) m] whole_product [OF d y(1) ym(3)] whole_product [OF d ym(4,5)]
  have yi: "of_integer y = Fin (of_int y)"
    using y(1) ym(3) by (intro of_integer_exact) simp
  have e: "s + d * m + y * (- d) = s + d * (m - y)" by (simp add: algebra_simps)
  have p: "\<bar>y * (- d)\<bar> \<le> 2 ^ 52" "\<bar>s + d * m + y * (- d)\<bar> \<le> 2 ^ 52"
    using b s unfolding e by (auto simp: mult.commute abs_le_iff)
  have "dadd (startY (turn_rows g)) (dmul (of_integer y) (yIncrement (turn_rows g))) = Fin (of_int (s + d * (m - y)))"
    unfolding turn_rows_whole [OF w] yi m_def [symmetric] dmul_int [OF p(1)] dadd_int [OF p(2)] e ..
  moreover have "dadd (startY g) (dmul (of_integer (m - y)) (yIncrement g)) = Fin (of_int (s + d * (m - y)))"
    by (rule row_coordinate(1) [OF w ym(4,5)])
  ultimately show ?thesis by (simp add: m_def)
qed

lemma turn_rows_fields [simp]:
  "startX (turn_rows g) = startX g" "xIncrement (turn_rows g) = xIncrement g"
  "xNumber (turn_rows g) = xNumber g" "yNumber (turn_rows g) = yNumber g"
  "projDefinition (turn_rows g) = projDefinition g"
  by (simp_all add: turn_rows_def)

section \<open>Properties\<close>

lemma unat_minus_1: "0 < (w :: 32 word) \<Longrightarrow> unat (w - 1) = unat w - 1"
  by (rule unat_minus_one) auto

lemma uint_rows: "(y :: nat) < unat (w :: 32 word) \<Longrightarrow> uint (w - 1) - int y = int (unat w - 1 - y) \<and> int y \<le> uint (w - 1)"
proof -
  assume y: "y < unat w"
  then have "0 < w" by (simp add: word_less_nat_alt)
  from unat_minus_1 [OF this] have "int (unat (w - 1)) = int (unat w - 1)" by simp
  then have "uint (w - 1) = int (unat w - 1)" unfolding uint_nat .
  moreover have yw: "y \<le> unat w - 1" using y by arith
  moreover from yw have "int y \<le> int (unat w - 1)" by (simp only: of_nat_le_iff)
  moreover from yw have "int (unat w - 1) - int y = int (unat w - 1 - y)" by (rule of_nat_diff [symmetric])
  ultimately show ?thesis by (simp only: simp_thms)
qed

text \<open>C9: turning a grid over keeps the data where they are. When the orientation of a grid is
  changed with \<open>setOrientation\<close> and its values with \<open>swapUpperLowerOrientation\<close>, each value stays at
  the coordinates it had before (for rows at whole numbers, where floating point is exact), and
  swapping once more restores the values.\<close>

theorem orientation_keeps_places:
  assumes "whole_rows s d g" and "ori \<noteq> orientation g" and "ori = LeftUpperHorizontal \<or> ori = LeftLowerHorizontal"
    and "length vals = unat (yNumber g) * unat (xNumber g)"
    and "x < unat (xNumber g)" and "y < unat (yNumber g)"
  shows "\<exists>g' vals'. setOrientation g ori = Inr g' \<and> orientation g' = ori
    \<and> swapUpperLowerOrientation vals (unat (xNumber g)) = Inr vals'
    \<and> vals' ! (y * unat (xNumber g) + x) = vals ! ((unat (yNumber g) - 1 - y) * unat (xNumber g) + x)
    \<and> grid_coordinate g' (of_integer (int x)) (of_integer (int y))
      = grid_coordinate g (of_integer (int x)) (of_integer (int (unat (yNumber g) - 1 - y)))
    \<and> swapUpperLowerOrientation vals' (unat (xNumber g)) = Inr vals"
proof -
  define g0 n where "g0 = g\<lparr>orientation := ori\<rparr>" and "n = unat (xNumber g)"
  have w: "whole_rows s d g0" using assms(1) by (simp add: whole_rows_def g0_def)
  have set: "setOrientation g ori = Inr (turn_rows g0)"
    using assms(2,3) by (auto simp: setOrientation_def g0_def)
  have n: "0 < n" using assms(5) by (simp add: n_def)
  then have rows: "length vals div n = unat (yNumber g)" using assms(4) by (simp add: n_def)
  define vals' where "vals' = copy_rows vals n (unat (yNumber g))"
  have swap: "swapUpperLowerOrientation vals n = Inr vals'" "swapUpperLowerOrientation vals' n = Inr vals"
    using n rows assms(4) swap_swap_rows [of n vals "unat (yNumber g)"]
    by (simp_all add: swapUpperLowerOrientation_def vals'_def length_copy_rows n_def)
  have nth: "vals' ! (y * n + x) = vals ! ((unat (yNumber g) - 1 - y) * n + x)"
    unfolding vals'_def by (rule nth_copy_rows) (use assms in \<open>simp_all add: n_def\<close>)
  have y: "int y \<le> uint (yNumber g0 - 1)" "uint (yNumber g0 - 1) - int y = int (unat (yNumber g) - 1 - y)"
    using uint_rows [OF assms(6)] by (simp_all add: g0_def)
  have "grid_coordinate (turn_rows g0) (of_integer (int x)) (of_integer (int y))
      = grid_coordinate g (of_integer (int x)) (of_integer (int (unat (yNumber g) - 1 - y)))"
    using turned_row [OF w _ y(1)] y(2) by (simp add: grid_coordinate_def g0_def)
  moreover have "orientation (turn_rows g0) = ori" by (simp add: turn_rows_def g0_def)
  ultimately show ?thesis using set swap nth by (auto simp: n_def)
qed

definition sample_grid :: GridGeometry where
  "sample_grid = GridGeometry_new 0 ''+proj=longlat'' LeftLowerHorizontal 3 2 (Fin 1) (Fin 10) (Fin 5) (Fin 60)"

theorem orientation_keeps_places_witness:
  "\<exists>g' vals'. setOrientation sample_grid LeftUpperHorizontal = Inr g'
     \<and> swapUpperLowerOrientation [1, 2, 3, 4, 5, 6 :: nat] 3 = Inr vals' \<and> vals' ! 4 = 2
     \<and> grid_coordinate g' (of_integer 1) (of_integer 1) = grid_coordinate sample_grid (of_integer 1) (of_integer 0)"
  using orientation_keeps_places [of 60 10 sample_grid LeftUpperHorizontal "[1, 2, 3, 4, 5, 6 :: nat]" 1 1]
  by (auto simp: sample_grid_def GridGeometry_new_def whole_rows_def)

text \<open>C10: the WKT text and the corner coordinates of a grid are computed once: on a new object whose
  corners can be projected the text is the polygon of the four corners, afterwards every corner
  request and every further text request answers from the caches, also after \<open>setOrientation\<close>, which
  changes the geometry but not the caches.\<close>

theorem wkt_and_corners_cached:
  assumes "geometry_cache g = []" and "corners g = []" and "\<And>c. corner_point P g c = Inr (p c)"
  shows "\<exists>g1. wktRepresentation P g
      = (Inr (''POLYGON('' @ show_grid [p LowerLeft, p LowerRight, p UpperRight, p UpperLeft] @ '')''), g1)
    \<and> (\<forall>g2 k. g2 = g1 \<or> setOrientation g1 ori = Inr g2 \<longrightarrow>
        point_at P g2 k = (Inr (p k), g2)
        \<and> wktRepresentation P g2 = (fst (wktRepresentation P g), g2))"
proof -
  let ?cs = "[LowerLeft, LowerRight, UpperRight, UpperLeft]"
  define gc where "gc = g\<lparr>corners := snd (corner_cache.requests P g (corners g) ?cs)\<rparr>"
  have cor: "corner_cache.correct P g (corners g)" unfolding assms(2) by simp
  have pts: "corner_points P g ?cs = (Inr (map p ?cs), gc)"
    unfolding gc_def by (rule corner_points_requests [OF _ cor]) (simp add: assms(3))
  define g1 where "g1 = gc\<lparr>geometry_cache := ''POLYGON('' @ show_grid (map p ?cs) @ '')''\<rparr>"
  have wkt: "wktRepresentation P g = (Inr (''POLYGON('' @ show_grid (map p ?cs) @ '')''), g1)"
    unfolding wktRepresentation_def pts Let_def using assms(1) by (simp add: g1_def)
  have cor1: "corner_cache.correct P g (corners gc)"
    using corner_cache.requests_correct [OF cor, of ?cs] by (simp add: gc_def)
  have found: "map_of (corners gc) k = Some (p k)" for k
  proof -
    have "k \<in> set ?cs" by (cases k) simp_all
    from corners_after [OF pts this] obtain v where "map_of (corners gc) k = Some v" by blast
    with correct_cached [OF cor1 this] assms(3) [of k] show ?thesis by simp
  qed
  have kept: "corners g2 = corners gc \<and> geometry_cache g2 = geometry_cache g1"
    if "g2 = g1 \<or> setOrientation g1 ori = Inr g2" for g2
    using that by (auto simp: g1_def setOrientation_def turn_rows_def split: if_splits)
  have wkt_text: "geometry_cache g1 = ''POLYGON('' @ show_grid (map p ?cs) @ '')''" by (simp add: g1_def)
  have "point_at P g2 k = (Inr (p k), g2) \<and> wktRepresentation P g2 = (fst (wktRepresentation P g), g2)"
    if "g2 = g1 \<or> setOrientation g1 ori = Inr g2" for g2 k
    using kept [OF that] found [of k] wkt_text wkt
    unfolding wktRepresentation_def [of P g2] point_at_def by simp
  then show ?thesis
    using wkt by (intro exI [of _ g1] conjI allI impI) (simp_all only: list.map)
qed

definition sample_proj :: proj where
  "sample_proj = \<lparr>pj_init = \<lambda>_. True, pj_transform = \<lambda>_ _ pts. (0, pts),
     pj_datum_transform = \<lambda>_ _ pts. (0, pts), pj_strerrno = \<lambda>_. ''error'', DEG_TO_RAD = Fin 1, RAD_TO_DEG = Fin 1\<rparr>"

lemma sample_whole:
  assumes "grid_coordinate g (of_integer (uint x)) (of_integer (uint y)) = (Fin (of_int a), Fin (of_int b))"
    and "\<bar>a\<bar> \<le> 2 ^ 35" and "\<bar>b\<bar> \<le> 2 ^ 35"
  shows "lonLatFromIndex sample_proj g x y = Inr (Fin (of_int a), Fin (of_int b))"
proof -
  have one: "dmul (Fin (of_int k)) (Fin 1) = Fin (of_int k)" if "\<bar>k\<bar> \<le> 2 ^ 35" for k
    using dmul_int [of k 1] that by simp
  show ?thesis
    using assms(1) one [OF assms(2)] one [OF assms(3)] wdb_round_int [OF assms(2)] wdb_round_int [OF assms(3)]
    by (simp add: lonLatFromIndex_def project_def unprojectedLonLat_def double_of_size_def WdbProjection_new_def
        transform_def round_point_def scale_def sample_proj_def Let_def)
qed

lemma sample_coordinate:
  assumes "0 \<le> x" "x \<le> 3" "0 \<le> y" "y \<le> 3"
  shows "grid_coordinate sample_grid (of_integer x) (of_integer y) = (Fin (of_int (5 + x)), Fin (of_int (60 + 10 * y)))"
  using of_integer_exact [of x] of_integer_exact [of y] dmul_int [of x 1] dmul_int [of y 10]
    dadd_int [of 5 x] dadd_int [of 60 "y * 10"] assms
  by (simp add: grid_coordinate_def sample_grid_def GridGeometry_new_def mult.commute)

lemma sample_corners:
  "corner_point sample_proj sample_grid k = Inr (case k of
     UpperLeft \<Rightarrow> (Fin 5, Fin 70) | UpperRight \<Rightarrow> (Fin 7, Fin 70) | LowerLeft \<Rightarrow> (Fin 5, Fin 60) | LowerRight \<Rightarrow> (Fin 7, Fin 60))"
proof -
  have n: "xNumber sample_grid = 3" "yNumber sample_grid = 2"
    by (simp_all add: sample_grid_def GridGeometry_new_def)
  have pt: "lonLatFromIndex sample_proj sample_grid x y = Inr (Fin (of_int (5 + uint x)), Fin (of_int (60 + 10 * uint y)))"
    if "uint x \<le> 3" "uint y \<le> 3" for x y
    using that by (intro sample_whole sample_coordinate) (auto simp: abs_le_iff)
  show ?thesis
    by (cases k) (simp_all add: corner_point_def getIndex_def indexFromXy_def index_from_xy_def xFromIndex_def
        x_from_index_def yFromIndex_def y_from_index_def n pt)
qed

theorem wkt_and_corners_cached_witness:
  "\<exists>g1 g2. wktRepresentation sample_proj sample_grid = (Inr ''POLYGON((5 60,7 60,7 70,5 70,5 60))'', g1)
    \<and> setOrientation g1 LeftUpperHorizontal = Inr g2 \<and> point_at sample_proj g2 LowerLeft = (Inr (Fin 5, Fin 60), g2)"
proof -
  have text_ok: "''POLYGON('' @ show_grid [(Fin 5, Fin 60), (Fin 7, Fin 60), (Fin 7, Fin 70), (Fin 5, Fin 70)] @ '')''
      = ''POLYGON((5 60,7 60,7 70,5 70,5 60))''" by code_simp
  have ex: "\<exists>g2. setOrientation g1 LeftUpperHorizontal = Inr g2" for g1
    by (simp add: setOrientation_def)
  from wkt_and_corners_cached [where g = sample_grid and ori = LeftUpperHorizontal, OF _ _ sample_corners] text_ok ex show ?thesis
    by (fastforce simp: sample_grid_def GridGeometry_new_def)
qed

end
