(* ===== verification/Spi.thy ===== *)
theory Spi
  imports Prelude
begin

text \<open>
  The server programming interface of PostgreSQL as the code uses it. What a statement does is up
  to the database, so an execution is a parameter: from the text of the statement and the row limit
  (0 for none) to an error raised by the server (the non-local exit), a return code other than
  \<open>SPI_OK_SELECT\<close>, or the rows of a select.
\<close>

datatype 'row spi_result = Spi_raises err | Spi_other | Spi_select "'row list"

type_synonym 'row spi = "string \<Rightarrow> nat \<Rightarrow> 'row spi_result"

text \<open>\<open>SPI_execute(query, true, n)\<close> followed by the usual check of the return code.\<close>

definition spi_rows :: "errcode \<Rightarrow> string \<Rightarrow> 'row spi_result \<Rightarrow> 'row list res" where
  "spi_rows c message r = (case r of
     Spi_raises e \<Rightarrow> Inl e
   | Spi_other \<Rightarrow> Inl (Ereport c message)
   | Spi_select rows \<Rightarrow> Inr rows)"

text \<open>The documented behaviour of the row limit.\<close>

definition respects_limit :: "'row spi \<Rightarrow> bool" where
  "respects_limit S \<longleftrightarrow> (\<forall>q n rows. S q n = Spi_select rows \<longrightarrow> 0 < n \<longrightarrow> length rows \<le> n)"

text \<open>A single row, as the code reads it off a result limited to one row.\<close>

definition single_row :: "string \<Rightarrow> 'row list \<Rightarrow> 'row option res" where
  "single_row too_many rows = (case rows of
     [] \<Rightarrow> Inr None
   | [r] \<Rightarrow> Inr (Some r)
   | _ \<Rightarrow> Inl (Ereport ERRCODE_DATA_EXCEPTION too_many))"

lemma single_row_limit: "length rows \<le> 1 \<Longrightarrow> \<exists>r. single_row m rows = Inr r"
  by (cases rows) (auto simp: single_row_def)

lemma limit_one: "respects_limit S \<Longrightarrow> S q 1 = Spi_select (r # rs) \<Longrightarrow> rs = []"
proof -
  assume "respects_limit S" "S q 1 = Spi_select (r # rs)"
  then have "length (r # rs) \<le> 1" unfolding respects_limit_def by (metis zero_less_one)
  then show ?thesis by simp
qed

lemma spi_rows_simps [simp]:
  "spi_rows c m (Spi_raises e) = Inl e"
  "spi_rows c m Spi_other = Inl (Ereport c m)"
  "spi_rows c m (Spi_select rows) = Inr rows"
  by (simp_all add: spi_rows_def)

end
