(* ===== verification/Caches.thy ===== *)
theory Caches
  imports Spi CacheInterface Projection BuildQuery "HOL-Library.AList" "HOL-Library.Multiset"
begin

text \<open>
  The caches of a database session: the prepared statements of \<open>query/plan.c\<close> (with the plan
  handles that were made and freed), the place specifications of \<open>getPlaceSpecification.c\<close> and the
  place geometries of \<open>ReadStore.cpp\<close>. Each is an interpretation of the memo table contract; the
  plan cache also of the bounded one.
\<close>

section \<open>Prepared plans\<close>

text \<open>What \<open>SPI_prepare\<close> does with a statement: raise an error, return NULL (then
  \<open>SPI_saveplan(NULL)\<close> is NULL too), or return a new plan. A plan is a handle, numbered in
  the order of creation, with its statement.\<close>

datatype prepare_result = Prepare_raises err | Prepare_null | Prepare_ok

type_synonym spi_plan = "nat \<times> string"

record plan_cache =
  plan_list :: "(string \<times> spi_plan option) list"
  next_plan :: nat
  freed_plans :: "nat list"

definition MAX_CACHED_PLAN_SIZE :: nat where
  "MAX_CACHED_PLAN_SIZE = 32"

definition no_plans :: plan_cache where
  "no_plans = \<lparr>plan_list = [], next_plan = 0, freed_plans = []\<rparr>"

text \<open>The handles in the table; \<open>SPI_freeplan(NULL)\<close> does nothing.\<close>

definition live_plans :: "(string \<times> spi_plan option) list \<Rightarrow> nat list" where
  "live_plans l = map fst (List.map_filter snd l)"

definition clearSpiPlanCache :: "plan_cache \<Rightarrow> plan_cache" where
  "clearSpiPlanCache c = c\<lparr>plan_list := [], freed_plans := live_plans (plan_list c) @ freed_plans c\<rparr>"

text \<open>A NULL value in the hash table is found as a missing one, and a second insertion replaces it.\<close>

definition lookup_plan :: "plan_cache \<Rightarrow> string \<Rightarrow> spi_plan option" where
  "lookup_plan c query = (case map_of (plan_list c) query of None \<Rightarrow> None | Some v \<Rightarrow> v)"

definition store_plan :: "plan_cache \<Rightarrow> string \<Rightarrow> spi_plan option \<Rightarrow> plan_cache" where
  "store_plan c query v = c\<lparr>plan_list := AList.update query v (plan_list c)\<rparr>"

definition getSpiPlan :: "(string \<Rightarrow> prepare_result) \<Rightarrow> plan_cache \<Rightarrow> string \<Rightarrow> spi_plan option res \<times> plan_cache" where
  "getSpiPlan SPI_prepare c query = (case lookup_plan c query of
     Some p \<Rightarrow> (Inr (Some p), c)
   | None \<Rightarrow>
       (let c1 = (if MAX_CACHED_PLAN_SIZE \<le> length (plan_list c) then clearSpiPlanCache c else c) in
        case SPI_prepare query of
          Prepare_raises e \<Rightarrow> (Inl e, c1)
        | Prepare_null \<Rightarrow> (Inr None, store_plan c1 query None)
        | Prepare_ok \<Rightarrow>
            (let p = (next_plan c1, query)
             in (Inr (Some p), store_plan (c1\<lparr>next_plan := next_plan c1 + 1\<rparr>) query (Some p)))))"

text \<open>The invariant: no key twice, at most 32 entries, and every plan made so far is either in
  the table or freed, once (nothing leaks, nothing is freed twice), under its own statement.\<close>

definition plan_cache_ok :: "plan_cache \<Rightarrow> bool" where
  "plan_cache_ok c \<longleftrightarrow> distinct (map fst (plan_list c)) \<and> length (plan_list c) \<le> MAX_CACHED_PLAN_SIZE
     \<and> mset (live_plans (plan_list c) @ freed_plans c) = mset [0..<next_plan c]
     \<and> (\<forall>(q, v) \<in> set (plan_list c). \<forall>p. v = Some p \<longrightarrow> snd p = q)"

lemma live_plans_simps [simp]:
  "live_plans [] = []"
  "live_plans ((q, None) # l) = live_plans l"
  "live_plans ((q, Some p) # l) = fst p # live_plans l"
  by (simp_all add: live_plans_def List.map_filter_def)

lemma live_update:
  "map_of l q = None \<or> map_of l q = Some None \<Longrightarrow>
    mset (live_plans (AList.update q v l)) = mset (live_plans l) + mset (live_plans [(q, v)])"
proof (induction l)
  case Nil
  then show ?case by (cases v) simp_all
next
  case (Cons a l)
  obtain k w where a: "a = (k, w)" by (cases a)
  show ?case
  proof (cases "k = q")
    case True
    with Cons.prems a have "w = None" by simp
    with True a show ?thesis by (cases v) simp_all
  next
    case False
    with Cons a show ?thesis by (cases w) simp_all
  qed
qed

lemma length_update_le: "length (AList.update q v l) \<le> length l + 1"
  and length_update_same: "map_of l q = Some w \<Longrightarrow> length (AList.update q v l) = length l"
  by (induction l) auto

lemma length_update_less: "length l < n \<Longrightarrow> length (AList.update q v l) \<le> n"
  using length_update_le [of q v l] by simp

lemma in_set_update: "x \<in> set (AList.update q v l) \<Longrightarrow> x = (q, v) \<or> x \<in> set l"
  by (induction l) (auto split: if_splits)

lemma plan_cache_ok_clear: "plan_cache_ok c \<Longrightarrow> plan_cache_ok (clearSpiPlanCache c)"
  by (simp add: plan_cache_ok_def clearSpiPlanCache_def)

lemma plan_cache_ok_store:
  assumes "plan_cache_ok c" and "lookup_plan c q = None" and "length (plan_list c) < MAX_CACHED_PLAN_SIZE"
    and "v = None \<and> c' = c \<or> v = Some (next_plan c, q) \<and> c' = c\<lparr>next_plan := next_plan c + 1\<rparr>"
  shows "plan_cache_ok (store_plan c' q v)"
proof -
  have miss: "map_of (plan_list c) q = None \<or> map_of (plan_list c) q = Some None"
    using assms(2) by (auto simp: lookup_plan_def split: option.splits)
  have "plan_list c' = plan_list c" using assms(4) by auto
  then show ?thesis
    using assms live_update [OF miss, of v] length_update_le [of q v "plan_list c"] in_set_update [of _ q v "plan_list c"]
    by (fastforce simp: plan_cache_ok_def store_plan_def distinct_update)
qed

lemma plan_cache_ok_get: "plan_cache_ok c \<Longrightarrow> plan_cache_ok (snd (getSpiPlan S c q))"
proof (cases "lookup_plan c q")
  case None
  assume ok: "plan_cache_ok c"
  define c1 where "c1 = (if MAX_CACHED_PLAN_SIZE \<le> length (plan_list c) then clearSpiPlanCache c else c)"
  have ok1: "plan_cache_ok c1" using ok plan_cache_ok_clear by (simp add: c1_def)
  have miss: "lookup_plan c1 q = None" "length (plan_list c1) < MAX_CACHED_PLAN_SIZE"
    using None by (auto simp: c1_def lookup_plan_def clearSpiPlanCache_def MAX_CACHED_PLAN_SIZE_def)
  have "plan_cache_ok (store_plan c1 q None)"
      "plan_cache_ok (store_plan (c1\<lparr>next_plan := next_plan c1 + 1\<rparr>) q (Some (next_plan c1, q)))"
    by (rule plan_cache_ok_store [OF ok1 miss]; simp)+
  with None ok1 show ?thesis
    by (simp add: getSpiPlan_def c1_def [symmetric] Let_def split: prepare_result.split)
qed (simp add: getSpiPlan_def)

lemma lookup_store:
  "lookup_plan (store_plan c q v) k = (if k = q then v else lookup_plan c k)"
  by (simp add: lookup_plan_def store_plan_def update_conv)

lemma get_plan_cases:
  assumes "plan_cache_ok c" and "getSpiPlan S c q = (Inr (Some p), c')"
  shows "snd p = q \<and> lookup_plan c' q = Some p"
proof (cases "lookup_plan c q")
  case None
  with assms(2) show ?thesis
    by (auto simp: getSpiPlan_def Let_def lookup_store split: prepare_result.splits if_splits)
next
  case (Some p')
  with assms(2) have p: "p' = p" "c' = c" by (auto simp: getSpiPlan_def)
  from Some have "(q, Some p') \<in> set (plan_list c)"
    by (auto simp: lookup_plan_def dest: map_of_SomeD split: option.splits)
  with assms(1) p Some show ?thesis by (cases p) (fastforce simp: plan_cache_ok_def)
qed

lemma lookup_live: "lookup_plan c q = Some p \<Longrightarrow> fst p \<in> set (live_plans (plan_list c))"
proof -
  assume "lookup_plan c q = Some p"
  then have "map_of (plan_list c) q = Some (Some p)" by (simp add: lookup_plan_def split: option.splits)
  then show ?thesis
  proof (induction "plan_list c" arbitrary: c)
    case (Cons a l)
    from Cons.hyps(1) [of "c\<lparr>plan_list := l\<rparr>"] Cons.hyps(2) [symmetric] Cons.prems show ?case
      by (cases a; cases "snd a") (auto split: if_splits)
  qed simp
qed

lemma live_not_freed: "plan_cache_ok c \<Longrightarrow> i \<in> set (live_plans (plan_list c)) \<Longrightarrow> i \<notin> set (freed_plans c)"
proof -
  assume "plan_cache_ok c"
  then have "mset (live_plans (plan_list c) @ freed_plans c) = mset [0..<next_plan c]"
    by (simp only: plan_cache_ok_def)
  then have "distinct (live_plans (plan_list c) @ freed_plans c)"
    using distinct_upt mset_eq_imp_distinct_iff by blast
  then show "i \<in> set (live_plans (plan_list c)) \<Longrightarrow> i \<notin> set (freed_plans c)" by auto
qed

text \<open>The contract, on the statements of the plans.\<close>

definition prepared :: "(string \<Rightarrow> prepare_result) \<Rightarrow> string \<Rightarrow> string option res" where
  "prepared S q = (case S q of Prepare_raises e \<Rightarrow> Inl e | Prepare_null \<Rightarrow> Inr None | Prepare_ok \<Rightarrow> Inr (Some q))"

definition get_statement :: "(string \<Rightarrow> prepare_result) \<Rightarrow> plan_cache \<Rightarrow> string \<Rightarrow> string option res \<times> plan_cache" where
  "get_statement S c q = (let (r, c') = getSpiPlan S c q in (mapE (map_option snd) r, c'))"

definition found_statement :: "plan_cache \<Rightarrow> string \<Rightarrow> string option option" where
  "found_statement c q = map_option (\<lambda>p. Some (snd p)) (lookup_plan c q)"

interpretation plan_memo: bounded_memo_table "prepared S" found_statement "get_statement S" no_plans
    "\<lambda>c. length (plan_list c)" MAX_CACHED_PLAN_SIZE for S
proof unfold_locales
  fix c k k' v
  assume miss: "found_statement c k = None" and "found_statement (snd (get_statement S c k)) k' = Some v"
  then show "found_statement c k' = Some v \<or> k' = k \<and> prepared S k = Inr v"
    by (auto simp: found_statement_def get_statement_def getSpiPlan_def prepared_def Let_def lookup_store
        split: prepare_result.splits if_splits)
      (auto simp: lookup_plan_def clearSpiPlanCache_def)
next
  fix c k
  assume "length (plan_list c) \<le> MAX_CACHED_PLAN_SIZE" "found_statement c k = None"
  then show "length (plan_list (snd (get_statement S c k))) \<le> MAX_CACHED_PLAN_SIZE"
    by (auto intro!: length_update_less simp: found_statement_def get_statement_def getSpiPlan_def Let_def store_plan_def clearSpiPlanCache_def
        MAX_CACHED_PLAN_SIZE_def split: prepare_result.splits)
qed (auto simp: found_statement_def get_statement_def getSpiPlan_def prepared_def Let_def no_plans_def lookup_plan_def
    split: prepare_result.splits)

datatype plan_request = Get_plan string | Clear_plans

fun run_plans :: "(string \<Rightarrow> prepare_result) \<Rightarrow> plan_cache \<Rightarrow> plan_request list \<Rightarrow> plan_cache" where
  "run_plans S c [] = c"
| "run_plans S c (Get_plan q # rs) = run_plans S (snd (getSpiPlan S c q)) rs"
| "run_plans S c (Clear_plans # rs) = run_plans S (clearSpiPlanCache c) rs"

lemma run_plans_ok: "plan_cache_ok c \<Longrightarrow> plan_cache_ok (run_plans S c rs)"
  by (induction S c rs rule: run_plans.induct) (simp_all add: plan_cache_ok_get plan_cache_ok_clear)

lemma no_plans_ok: "plan_cache_ok no_plans"
  by (simp add: plan_cache_ok_def no_plans_def)

lemma run_plans_correct: "plan_memo.correct S c \<Longrightarrow> plan_memo.correct S (run_plans S c rs)"
proof (induction S c rs rule: run_plans.induct)
  case (2 S c q rs)
  have "plan_memo.correct S (snd (getSpiPlan S c q))"
    using plan_memo.correct_get [OF 2(2), of q]
    by (simp add: get_statement_def plan_memo.correct_def found_statement_def case_prod_beta)
  with 2 show ?case by simp
next
  case (3 S c rs)
  have "plan_memo.correct S (clearSpiPlanCache c)"
    by (simp add: plan_memo.correct_def found_statement_def lookup_plan_def clearSpiPlanCache_def)
  with 3 show ?case by simp
qed simp

lemma run_plans_prepared:
  assumes "lookup_plan (run_plans S no_plans rs) query = Some p"
  shows "prepared S query = Inr (Some query)"
proof -
  have "snd p = query"
    using get_plan_cases [OF run_plans_ok [OF no_plans_ok, of S rs], of S query p "run_plans S no_plans rs"] assms by (simp add: getSpiPlan_def)
  then have "found_statement (run_plans S no_plans rs) query = Some (Some query)"
    using assms by (simp add: found_statement_def)
  with run_plans_correct [OF plan_memo.correct_empty, of S rs] show ?thesis
    unfolding plan_memo.correct_def by blast
qed

section \<open>Place specifications\<close>

text \<open>A row of \<open>placeregulargrid_mv\<close>: \<open>real\<close> and \<open>integer\<close> columns and the definition text. A
  NULL in a column that is read by value reads as zero; a NULL text is handed to \<open>strdup\<close>.\<close>

record place_row =
  row_startx :: "fp option"
  row_starty :: "fp option"
  row_numberx :: "32 word option"
  row_numbery :: "32 word option"
  row_incrementx :: "fp option"
  row_incrementy :: "fp option"
  row_srid :: "32 word option"
  row_projdefinition :: "string option"

definition float_datum :: "fp option \<Rightarrow> fp" where
  "float_datum v = (case v of None \<Rightarrow> Fin 0 | Some x \<Rightarrow> x)"

definition int_datum :: "32 word option \<Rightarrow> 32 word" where
  "int_datum v = (case v of None \<Rightarrow> 0 | Some x \<Rightarrow> x)"

definition place_of_row :: "place_row \<Rightarrow> PlaceSpecification res" where
  "place_of_row r = (case row_projdefinition r of
     None \<Rightarrow> Inl (Undefined ''strdup(NULL)'')
   | Some def \<Rightarrow> Inr \<lparr>startX = float_datum (row_startx r), startY = float_datum (row_starty r),
       xNumber = int_datum (row_numberx r), yNumber = int_datum (row_numbery r),
       xIncrement = float_datum (row_incrementx r), yIncrement = float_datum (row_incrementy r),
       srid = sint (int_datum (row_srid r)), projDefinition = def\<rparr>)"

definition getPlaceSpecificationFromDatabase ::
  "string \<Rightarrow> place_row spi \<Rightarrow> int \<Rightarrow> PlaceSpecification option res" where
  "getPlaceSpecificationFromDatabase wci SPI_execute placeid =
     bindE (spi_rows ERRCODE_DATA_EXCEPTION ''Error when performing placeid query''
       (SPI_execute (build_placeSpecQuery wci placeid) 1)) (\<lambda>rows.
     bindE (single_row ''too many placespecifications returned!'' rows) (\<lambda>row.
     case row of
       None \<Rightarrow> Inr None
     | Some r \<Rightarrow> mapE Some (place_of_row r)))"

type_synonym ps_list = "(int \<times> PlaceSpecification) list"

definition getPlaceSpecification ::
  "string \<Rightarrow> place_row spi \<Rightarrow> ps_list \<Rightarrow> int \<Rightarrow> PlaceSpecification option res \<times> ps_list" where
  "getPlaceSpecification wci SPI_execute psList placeid = (case map_of psList placeid of
     Some ps \<Rightarrow> (Inr (Some ps), psList)
   | None \<Rightarrow> (case getPlaceSpecificationFromDatabase wci SPI_execute placeid of
       Inl e \<Rightarrow> (Inl e, psList)
     | Inr None \<Rightarrow> (Inr None, psList)
     | Inr (Some ps) \<Rightarrow> (Inr (Some ps), (placeid, ps) # psList)))"

interpretation place_cache: memo_table "getPlaceSpecificationFromDatabase wci S"
    "\<lambda>c k. map_option Some (map_of c k)" "getPlaceSpecification wci S" "[]" for wci S
proof unfold_locales
  fix c :: ps_list and k k' :: int and v
  assume "map_option Some (map_of c k) = None"
    and "map_option Some (map_of (snd (getPlaceSpecification wci S c k)) k') = Some v"
  then show "map_option Some (map_of c k') = Some v
      \<or> k' = k \<and> getPlaceSpecificationFromDatabase wci S k = Inr v"
    by (auto simp: getPlaceSpecification_def split: sum.splits option.splits if_splits)
qed (auto simp: getPlaceSpecification_def split: sum.splits option.splits)

text \<open>Requests in a session whose database changes between them.\<close>

fun place_requests :: "string \<Rightarrow> ps_list \<Rightarrow> (place_row spi \<times> int) list \<Rightarrow> PlaceSpecification option res list \<times> ps_list" where
  "place_requests wci c [] = ([], c)"
| "place_requests wci c ((S, k) # rs) =
     (let (r, c1) = getPlaceSpecification wci S c k; (out, c2) = place_requests wci c1 rs in (r # out, c2))"

lemma place_kept: "map_of c k = Some ps \<Longrightarrow> map_of (snd (getPlaceSpecification wci S c k')) k = Some ps"
  by (auto simp: getPlaceSpecification_def split: sum.split option.split)

lemma place_requests_kept:
  "map_of c k = Some ps \<Longrightarrow> map_of (snd (place_requests wci c rs)) k = Some ps"
proof (induction rs arbitrary: c)
  case (Cons r rs)
  obtain S k' where r: "r = (S, k')" by (cases r)
  from Cons.IH [OF place_kept [OF Cons.prems, of wci S k']] show ?case
    by (simp add: r case_prod_beta)
qed simp

lemma place_stored:
  "fst (getPlaceSpecification wci S c k) = Inr (Some ps) \<Longrightarrow>
    map_of (snd (getPlaceSpecification wci S c k)) k = Some ps"
  by (auto simp: getPlaceSpecification_def split: sum.splits option.splits)

section \<open>Named places\<close>

text \<open>One row of the single column \<open>st_astext(placegeometry)\<close>, which may be NULL.\<close>

definition getNamedGeometryAsWKT :: "string \<Rightarrow> string option spi \<Rightarrow> string \<Rightarrow> string option res" where
  "getNamedGeometryAsWKT wci SPI_execute locationName =
     bindE (spi_rows ERRCODE_DATA_EXCEPTION ''Error when performing placename query''
       (SPI_execute (build_placeNameQuery wci locationName) 1)) (\<lambda>rows.
     bindE (single_row ''too many place names returned!'' rows) (\<lambda>row.
     case row of None \<Rightarrow> Inr None | Some column \<Rightarrow> Inr column))"

definition geometryFromDatabaseLocation :: "string \<Rightarrow> string option spi \<Rightarrow> string \<Rightarrow> string res" where
  "geometryFromDatabaseLocation wci S locationName =
     bindE (getNamedGeometryAsWKT wci S locationName) (\<lambda>geo.
     case geo of None \<Rightarrow> Inl NoSuchGeometryName | Some g \<Rightarrow> Inr g)"

text \<open>The map of names: the subscript operator inserts an empty text first, and an empty text
  counts as missing.\<close>

type_synonym location_names = "(string \<times> string) list"

definition known_location :: "location_names \<Rightarrow> string \<Rightarrow> string option" where
  "known_location names n = (case map_of names n of None \<Rightarrow> None | Some g \<Rightarrow> (if g = [] then None else Some g))"

definition geometryFromLocation :: "string \<Rightarrow> string option spi \<Rightarrow> location_names \<Rightarrow> string \<Rightarrow> string res \<times> location_names" where
  "geometryFromLocation wci S names locationName =
     (case known_location names locationName of
        Some g \<Rightarrow> (Inr g, names)
      | None \<Rightarrow>
          (let names1 = (case map_of names locationName of None \<Rightarrow> (locationName, []) # names | Some _ \<Rightarrow> names) in
           case geometryFromDatabaseLocation wci S locationName of
             Inl e \<Rightarrow> (Inl e, names1)
           | Inr g \<Rightarrow> (Inr g, AList.update locationName g names1)))"

lemma known_update: "known_location (AList.update n g names) k = (if k = n then (if g = [] then None else Some g) else known_location names k)"
  by (simp add: known_location_def update_conv)

interpretation location_cache: memo_table "geometryFromDatabaseLocation wci S" known_location
    "geometryFromLocation wci S" "[]" for wci S
proof unfold_locales
  fix c :: location_names and k k' v
  assume miss: "known_location c k = None"
    and look: "known_location (snd (geometryFromLocation wci S c k)) k' = Some v"
  define c1 where "c1 = (case map_of c k of None \<Rightarrow> (k, []) # c | Some _ \<Rightarrow> c)"
  have c1: "known_location c1 k' = Some v \<Longrightarrow> known_location c k' = Some v" for v
    by (auto simp: c1_def known_location_def split: option.splits if_splits)
  from look miss show "known_location c k' = Some v \<or> k' = k \<and> geometryFromDatabaseLocation wci S k = Inr v"
    using c1 by (auto simp: geometryFromLocation_def c1_def [symmetric] Let_def known_update split: sum.splits if_splits)
qed (auto simp: geometryFromLocation_def Let_def known_location_def split: sum.splits)

section \<open>Properties\<close>

text \<open>C11: the cache of prepared statements is safe. After any sequence of requests and clearings it
  holds at most 32 plans, every plan ever made is in the table or freed exactly once, and a plan it
  hands out is one of the requested statement that has not been freed.\<close>

theorem plan_cache_safe:
  assumes "c = run_plans S no_plans rs"
  shows "length (plan_list c) \<le> 32
    \<and> mset (live_plans (plan_list c) @ freed_plans c) = mset [0..<next_plan c]
    \<and> mapE (map_option snd) (fst (getSpiPlan S c query)) = prepared S query
    \<and> (\<forall>p c'. getSpiPlan S c query = (Inr (Some p), c') \<longrightarrow>
        snd p = query \<and> fst p \<notin> set (freed_plans c') \<and> fst p < next_plan c')"
proof (intro conjI allI impI)
  have ok: "plan_cache_ok c" unfolding assms by (rule run_plans_ok [OF no_plans_ok])
  then show "length (plan_list c) \<le> 32" "mset (live_plans (plan_list c) @ freed_plans c) = mset [0..<next_plan c]"
    by (simp_all add: plan_cache_ok_def MAX_CACHED_PLAN_SIZE_def)
  show "mapE (map_option snd) (fst (getSpiPlan S c query)) = prepared S query"
  proof (cases "lookup_plan c query")
    case None
    then show ?thesis by (simp add: getSpiPlan_def prepared_def Let_def split: prepare_result.split)
  next
    case (Some p)
    then have get: "getSpiPlan S c query = (Inr (Some p), c)" by (simp add: getSpiPlan_def)
    from Some have "prepared S query = Inr (Some query)" unfolding assms by (rule run_plans_prepared)
    with get get_plan_cases [OF ok get] show ?thesis by simp
  qed
  fix p c'
  assume get: "getSpiPlan S c query = (Inr (Some p), c')"
  have ok': "plan_cache_ok c'" using plan_cache_ok_get [OF ok, of S query] get by simp
  from get_plan_cases [OF ok get] have p: "snd p = query" "lookup_plan c' query = Some p" by simp_all
  then show "snd p = query" by simp
  have live: "fst p \<in> set (live_plans (plan_list c'))" by (rule lookup_live [OF p(2)])
  then show "fst p \<notin> set (freed_plans c')" by (rule live_not_freed [OF ok'])
  have "set (live_plans (plan_list c') @ freed_plans c') = {0..<next_plan c'}"
    using ok' by (metis plan_cache_ok_def mset_eq_setD set_upt)
  with live show "fst p < next_plan c'" by auto
qed

theorem plan_cache_safe_witness:
  "fst (getSpiPlan (\<lambda>_. Prepare_ok) (run_plans (\<lambda>_. Prepare_ok) no_plans [Get_plan ''a'', Clear_plans, Get_plan ''b'']) ''b'')
     = Inr (Some (1, ''b''))
   \<and> 1 \<notin> set (freed_plans (run_plans (\<lambda>_. Prepare_ok) no_plans [Get_plan ''a'', Clear_plans, Get_plan ''b'']))"
proof -
  let ?S = "\<lambda>_::string. Prepare_ok"
  let ?c = "run_plans ?S no_plans [Get_plan ''a'', Clear_plans, Get_plan ''b'']"
  have c: "getSpiPlan ?S ?c ''b'' = (Inr (Some (1, ''b'')), ?c)"
    by (simp add: getSpiPlan_def lookup_plan_def no_plans_def store_plan_def clearSpiPlanCache_def
        MAX_CACHED_PLAN_SIZE_def Let_def)
  from plan_cache_safe [OF refl, of ?S "[Get_plan ''a'', Clear_plans, Get_plan ''b'']" "''b''"] c
  show ?thesis by fastforce
qed

text \<open>C12: a place specification is read once per session. Once a request for a place has found it,
  every later request in the session gets the same specification, whatever has been asked for in
  between and however the database has changed.\<close>

theorem place_specification_kept:
  assumes "fst (getPlaceSpecification wci S c placeid) = Inr (Some ps)"
  shows "fst (getPlaceSpecification wci S' (snd (place_requests wci (snd (getPlaceSpecification wci S c placeid)) rs)) placeid)
    = Inr (Some ps)"
  using place_requests_kept [OF place_stored [OF assms], of wci rs]
  by (simp add: getPlaceSpecification_def)

definition sample_row :: place_row where
  "sample_row = \<lparr>row_startx = Some (Fin 5), row_starty = Some (Fin 60), row_numberx = Some 4, row_numbery = Some 3,
     row_incrementx = Some (Fin 1), row_incrementy = None, row_srid = Some 4030, row_projdefinition = Some ''+proj=longlat''\<rparr>"

theorem place_specification_kept_witness:
  "\<exists>ps. fst (getPlaceSpecification ''w'' (\<lambda>_ _. Spi_select []) (snd (place_requests ''w''
      (snd (getPlaceSpecification ''w'' (\<lambda>_ _. Spi_select [sample_row]) [] 7)) [(\<lambda>_ _. Spi_other, 8)])) 7) = Inr (Some ps)
    \<and> yIncrement ps = Fin 0 \<and> srid ps = 4030"
proof -
  obtain ps where ps: "place_of_row sample_row = Inr ps" "yIncrement ps = Fin 0" "srid ps = 4030"
    by (simp add: sample_row_def place_of_row_def float_datum_def int_datum_def)
  then have "fst (getPlaceSpecification ''w'' (\<lambda>_ _. Spi_select [sample_row]) [] 7) = Inr (Some ps)"
    by (simp add: getPlaceSpecification_def getPlaceSpecificationFromDatabase_def single_row_def)
  from place_specification_kept [OF this] ps show ?thesis by blast
qed

text \<open>C13: the session's caches of place specifications and of place geometries are transparent while
  the database does not change: any sequence of requests on an empty cache is answered as if every
  answer came from the database, missing places and errors included.\<close>

theorem session_caches_transparent:
  "fst (place_cache.requests wci S [] ids) = map (getPlaceSpecificationFromDatabase wci S) ids
   \<and> fst (location_cache.requests wci T [] names) = map (geometryFromDatabaseLocation wci T) names"
  using place_cache.transparent location_cache.transparent by simp

text \<open>With a row limit of one, a lookup by place never sees several rows, so its answer is no
  place, the first row, or the error of the statement; the branches for several rows are not reached.\<close>

theorem place_lookup_answers:
  assumes "respects_limit S" and "respects_limit T"
  shows "getPlaceSpecificationFromDatabase wci S placeid = (case S (build_placeSpecQuery wci placeid) 1 of
      Spi_raises e \<Rightarrow> Inl e
    | Spi_other \<Rightarrow> Inl (Ereport ERRCODE_DATA_EXCEPTION ''Error when performing placeid query'')
    | Spi_select [] \<Rightarrow> Inr None
    | Spi_select (r # _) \<Rightarrow> mapE Some (place_of_row r))
  \<and> getNamedGeometryAsWKT wci T name = (case T (build_placeNameQuery wci name) 1 of
      Spi_raises e \<Rightarrow> Inl e
    | Spi_other \<Rightarrow> Inl (Ereport ERRCODE_DATA_EXCEPTION ''Error when performing placename query'')
    | Spi_select [] \<Rightarrow> Inr None
    | Spi_select (column # _) \<Rightarrow> Inr column)"
proof (intro conjI)
  show "getPlaceSpecificationFromDatabase wci S placeid = (case S (build_placeSpecQuery wci placeid) 1 of
      Spi_raises e \<Rightarrow> Inl e
    | Spi_other \<Rightarrow> Inl (Ereport ERRCODE_DATA_EXCEPTION ''Error when performing placeid query'')
    | Spi_select [] \<Rightarrow> Inr None
    | Spi_select (r # _) \<Rightarrow> mapE Some (place_of_row r))"
    using limit_one [OF assms(1), of "build_placeSpecQuery wci placeid"]
    unfolding getPlaceSpecificationFromDatabase_def
    by (cases "S (build_placeSpecQuery wci placeid) 1") (auto simp: single_row_def split: list.split)
  show "getNamedGeometryAsWKT wci T name = (case T (build_placeNameQuery wci name) 1 of
      Spi_raises e \<Rightarrow> Inl e
    | Spi_other \<Rightarrow> Inl (Ereport ERRCODE_DATA_EXCEPTION ''Error when performing placename query'')
    | Spi_select [] \<Rightarrow> Inr None
    | Spi_select (column # _) \<Rightarrow> Inr column)"
    using limit_one [OF assms(2), of "build_placeNameQuery wci name"]
    unfolding getNamedGeometryAsWKT_def
    by (cases "T (build_placeNameQuery wci name) 1") (auto simp: single_row_def split: list.split)
qed

theorem place_lookup_answers_witness:
  "getNamedGeometryAsWKT ''w'' (\<lambda>_ _. Spi_select [Some ''POINT(1 2)'']) ''x'' = Inr (Some ''POINT(1 2)'')"
  using place_lookup_answers [of "\<lambda>_ _. Spi_other" "\<lambda>_ _. Spi_select [Some ''POINT(1 2)'']" "''w''" _ "''x''"]
  by (simp add: respects_limit_def)

end
