(* ===== verification/PathGenerator.thy ===== *)
theory PathGenerator
  imports Externals
begin

text \<open>
  \<open>src/blob/PathGenerator.cpp\<close>: the file of the blob repository in which a file id is stored, a
  name of sixteen hexadecimal digits below the base directory, and the way back from a file name
  to the id. An id is a \<open>long long\<close>; its digits are those of the unsigned number of the same
  bits. Paths are their texts, compared by their elements as Boost.Filesystem does
  (\<open>same_path\<close>); \<open>branch_path\<close> is its parent directory.
\<close>

section \<open>Paths\<close>

type_synonym FileId = int

definition file_id :: "FileId \<Rightarrow> bool" where
  "file_id i \<longleftrightarrow> - (2 ^ 63) \<le> i \<and> i < 2 ^ 63"

definition slash :: char where "slash = CHR ''/''"

text \<open>The text up to the last slash, its own trailing slashes removed.\<close>

definition branch_path :: "string \<Rightarrow> string" where
  "branch_path p = rev (dropWhile (\<lambda>c. c = slash) (dropWhile (\<lambda>c. c \<noteq> slash) (rev p)))"

text \<open>Two paths are equal when their elements are: repeated slashes count once, two leading ones before a name make a root
  name, and a slash at the end stands for the element ".".\<close>

definition path_elements :: "string \<Rightarrow> string list" where
  "path_elements p =
     (let n = length (takeWhile (\<lambda>c. c = slash) p);
          names = filter (\<lambda>s. s \<noteq> []) (split_at (\<lambda>c. c = slash) p);
          rest = (\<lambda>ns. ns @ (if ns \<noteq> [] \<and> last p = slash then [''.''] else []))
      in if n = 0 then rest names
         else if n = 2 \<and> names \<noteq> [] then (''//'' @ hd names)
           # (if tl names \<noteq> [] \<or> last p = slash then [slash] # rest (tl names) else [])
         else [slash] # rest names)"

definition same_path :: "string \<Rightarrow> string \<Rightarrow> bool" where
  "same_path p q \<longleftrightarrow> path_elements p = path_elements q"

lemma same_path_refl [simp]: "same_path p p"
  by (simp add: same_path_def)

lemma same_path_examples:
  "same_path ''/wdb//blobs'' ''/wdb/blobs''" "\<not> same_path ''/wdb/'' ''/wdb''" "\<not> same_path ''wdb'' ''/wdb''"
  by (simp_all add: same_path_def path_elements_def slash_def)

definition setw0 :: "nat \<Rightarrow> string \<Rightarrow> string" where
  "setw0 n s = replicate (n - length s) CHR ''0'' @ s"

definition blob_name :: "FileId \<Rightarrow> string" where
  "blob_name i = setw0 16 (show_base 16 (i mod 2 ^ 64)) @ ''.dat''"

definition PathGenerator_path :: "string \<Rightarrow> FileId \<Rightarrow> string" where
  "PathGenerator_path base i = base @ [slash] @ blob_name i"

section \<open>From the name to the id\<close>

definition xdigit_cc :: cc where
  "xdigit_cc = CSet [(CHR ''0'', CHR ''9''), (CHR ''a'', CHR ''f''), (CHR ''A'', CHR ''F'')]"

definition blob_digits_rx :: rx where
  "blob_digits_rx = Rep 16 (C xdigit_cc)"

definition blob_ext_rx :: rx where
  "blob_ext_rx = rx_seq [C (CSet [(CHR ''.'', CHR ''.'')]), rx_word ''dat'']"

definition blob_rx :: rx where
  "blob_rx = rx_seq [Opt (Grp 1 (Cat (Star (C CDot)) (C (CChar slash)))), Grp 2 blob_digits_rx, blob_ext_rx]"

lemma blob_rx_text: "rx_text blob_rx = ''(.*/)?([0-9a-fA-F]{16})[.]dat''"
  and blob_rx_numbers: "rx_numbers blob_rx = [1, 2]"
  by code_simp+

text \<open>Reading a \<open>long long\<close> from the digits fails on overflow.\<close>

definition read_hex_id :: "string \<Rightarrow> FileId option" where
  "read_hex_id digits = (let n = read_base 16 digits in if n < 2 ^ 63 then Some n else None)"

definition PathGenerator_reverse :: "'a boost \<Rightarrow> string \<Rightarrow> string \<Rightarrow> FileId res" where
  "PathGenerator_reverse E base blobFileName =
     (if \<not> same_path (branch_path blobFileName) base
      then Inl (Logic_error (blobFileName @ '' is not a blob file for this database''))
      else (case regex_match E False blob_rx blobFileName of
          None \<Rightarrow> Inl (Logic_error (''Invalid file name: '' @ blobFileName))
        | Some m \<Rightarrow> (case read_hex_id (m 2) of
            None \<Rightarrow> Inl (Runtime_error (''Invalid file name (possible decoding error): '' @ blobFileName))
          | Some i \<Rightarrow> Inr i)))"

section \<open>Lemmas\<close>

definition is_xdigit :: "char \<Rightarrow> bool" where
  "is_xdigit c \<longleftrightarrow> cc_match False xdigit_cc c"

lemma is_xdigit_code: "is_xdigit c \<longleftrightarrow> isdigit c \<or> (97 \<le> code c \<and> code c \<le> 102) \<or> (65 \<le> code c \<and> code c \<le> 70)"
  by (auto simp: is_xdigit_def xdigit_cc_def isdigit_def code_def)

lemma code_inj: "code a = code b \<longleftrightarrow> a = b"
  by (simp add: code_of_nat)

lemma rx_rep_C: "rx_rep n (rx_run ic (C k)) c s =
    (if n \<le> length s \<and> list_all (cc_match ic k) (take n s) then [(c, drop n s)] else [])"
proof (induction n arbitrary: s)
  case (Suc n)
  then show ?case by (cases s) auto
qed simp

lemma run_digits: "rx_run False (Grp 2 blob_digits_rx) c s =
    (if 16 \<le> length s \<and> list_all is_xdigit (take 16 s) then [((2, take 16 s) # c, drop 16 s)] else [])"
proof -
  have "rx_run False blob_digits_rx c s =
      (if 16 \<le> length s \<and> list_all (cc_match False xdigit_cc) (take 16 s) then [(c, drop 16 s)] else [])"
    unfolding blob_digits_rx_def rx_run.simps(9) by (rule rx_rep_C)
  moreover have "cc_match False xdigit_cc = is_xdigit" by (auto simp: is_xdigit_def)
  ultimately show ?thesis by simp
qed

lemma run_ext: "(c', []) \<in> set (rx_run False blob_ext_rx c s) \<Longrightarrow> s = ''.dat'' \<and> c' = c"
  by (auto simp: blob_ext_rx_def code_inj dest!: antisym split: list.splits if_splits)

lemma run_ext_dat: "rx_run False blob_ext_rx c ''.dat'' = [(c, [])]"
  by (simp add: blob_ext_rx_def)

lemma run_Cat: "(c2, s2) \<in> set (rx_run ic (Cat p q) c s) \<longleftrightarrow>
    (\<exists>c1 s1. (c1, s1) \<in> set (rx_run ic p c s) \<and> (c2, s2) \<in> set (rx_run ic q c1 s1))"
  by fastforce

lemma blob_rx_Cat: "blob_rx = Cat (Opt (Grp 1 (Cat (Star (C CDot)) (C (CChar slash)))))
    (Cat (Grp 2 blob_digits_rx) blob_ext_rx)"
  by (simp add: blob_rx_def)

text \<open>Any match of the pattern ends in sixteen digits, which are the second group, and the
  extension.\<close>

lemma blob_match:
  assumes "rx_match False blob_rx s = Some m"
  shows "\<exists>front. s = front @ m 2 @ ''.dat'' \<and> length (m 2) = 16 \<and> list_all is_xdigit (m 2)"
proof -
  let ?pre = "Opt (Grp 1 (Cat (Star (C CDot)) (C (CChar slash))))"
  from assms obtain c where run: "(c, []) \<in> set (rx_run False blob_rx [] s)"
    and m: "m = (\<lambda>i. case map_of c i of Some t \<Rightarrow> t | None \<Rightarrow> [])"
    by (rule rx_match_SomeD)
  from run [unfolded blob_rx_Cat run_Cat] obtain c1 s1 c2 s2 where
    pre: "(c1, s1) \<in> set (rx_run False ?pre [] s)"
    and digits: "(c2, s2) \<in> set (rx_run False (Grp 2 blob_digits_rx) c1 s1)"
    and ext: "(c, []) \<in> set (rx_run False blob_ext_rx c2 s2)" by blast
  from consumesD(1) [OF rx_run_sound pre] obtain front where s: "s = front @ s1" by blast
  from digits have d: "16 \<le> length s1" "list_all is_xdigit (take 16 s1)" "c2 = (2, take 16 s1) # c1" "s2 = drop 16 s1"
    by (simp_all only: run_digits split: if_splits) simp_all
  from run_ext [OF ext] d(3,4) have e: "drop 16 s1 = ''.dat''" "c = (2, take 16 s1) # c1" by simp_all
  then have "m 2 = take 16 s1" by (simp add: m)
  moreover have "s1 = take 16 s1 @ ''.dat''" by (metis append_take_drop_id e(1))
  ultimately show ?thesis using s d(1,2) by auto
qed

lemma blob_match_exists:
  assumes "length digits = 16" and "list_all is_xdigit digits"
  shows "rx_match False blob_rx (dir @ [slash] @ digits @ ''.dat'') \<noteq> None"
proof -
  have dir: "dir @ [slash] \<in> rx_lang False (Opt (Grp 1 (Cat (Star (C CDot)) (C (CChar slash)))))"
  proof -
    have "dir \<in> rx_lang False (Star (C CDot))"
      unfolding rx_lang_star_C by (simp add: list_all_iff)
    moreover have "[slash] \<in> rx_lang False (C (CChar slash))" by simp
    ultimately have "dir @ [slash] \<in> rx_lang False (Cat (Star (C CDot)) (C (CChar slash)))" by auto
    then show ?thesis by simp
  qed
  have digits: "digits @ ''.dat'' \<in> rx_lang False (Cat (Grp 2 blob_digits_rx) blob_ext_rx)"
  proof -
    have "(((2, digits) # []), ''.dat'') \<in> set (rx_run False (Grp 2 blob_digits_rx) [] (digits @ ''.dat''))"
      using assms by (simp only: run_digits) simp
    moreover have "([(2, digits)], []) \<in> set (rx_run False blob_ext_rx [(2, digits)] ''.dat'')"
      by (simp only: run_ext_dat) simp
    ultimately have "([(2, digits)], []) \<in> set (rx_run False (Cat (Grp 2 blob_digits_rx) blob_ext_rx) [] (digits @ ''.dat''))"
      unfolding run_Cat by blast
    from consumesD(1) [OF rx_run_sound this] show ?thesis by simp
  qed
  from dir digits have "(dir @ [slash]) @ digits @ ''.dat'' \<in> rx_lang False blob_rx"
    unfolding blob_rx_Cat rx_lang.simps(3) by blast
  then have "dir @ [slash] @ digits @ ''.dat'' \<in> rx_lang False blob_rx" by simp
  then show ?thesis by (simp only: rx_match_iff)
qed

lemma length_show_base: "2 \<le> b \<Longrightarrow> 0 \<le> n \<Longrightarrow> n < b ^ Suc k \<Longrightarrow> length (show_base b n) \<le> Suc k"
proof (induction k arbitrary: n)
  case 0
  then show ?case by (subst show_base.simps) simp
next
  case (Suc k)
  have "n div b < b ^ Suc k"
  proof (rule ccontr)
    assume "\<not> n div b < b ^ Suc k"
    then have "b ^ Suc k * b \<le> n div b * b" using Suc.prems(1) by (intro mult_right_mono) simp_all
    moreover have "n div b * b \<le> n" using Suc.prems(1) by (simp flip: minus_mod_eq_div_mult)
    ultimately show False using Suc.prems(3) by (simp add: ac_simps)
  qed
  with Suc.IH [of "n div b"] Suc.prems have "length (show_base b (n div b)) \<le> Suc k"
    by (simp add: pos_imp_zdiv_nonneg_iff)
  then show ?case by (subst show_base.simps) simp
qed

lemma is_xdigit_digit_char: "0 \<le> d \<Longrightarrow> d < 16 \<Longrightarrow> is_xdigit (digit_char d)"
  by (auto simp: is_xdigit_code isdigit_def code_digit_char)

lemma list_all_xdigit: "0 \<le> n \<Longrightarrow> list_all is_xdigit (show_base 16 n)"
  using show_base_digits [of 16 n] is_xdigit_digit_char by (fastforce simp: list_all_iff)

lemma read_base_zeros: "read_base b (replicate k CHR ''0'' @ s) = read_base b s"
proof -
  have "foldl (\<lambda>a c. a * b + digit_val c) 0 (replicate k CHR ''0'') = 0"
    by (induction k) (simp_all add: digit_val_def isdigit_def code_def)
  then show ?thesis by (simp add: read_base_def)
qed

lemma digit_val_xdigit: "is_xdigit c \<Longrightarrow> 0 \<le> digit_val c"
  by (auto simp: is_xdigit_code digit_val_def isdigit_def islower_def)

lemma read_base_nonneg: "list_all is_xdigit s \<Longrightarrow> 0 \<le> read_base 16 s"
proof (induction s rule: rev_induct)
  case (snoc c s)
  then show ?case using digit_val_xdigit [of c] by (simp add: read_base_snoc)
qed (simp add: read_base_def)

lemma blob_digits:
  "length (setw0 16 (show_base 16 (i mod 2 ^ 64))) = 16"
  "list_all is_xdigit (setw0 16 (show_base 16 (i mod 2 ^ 64)))"
  "read_base 16 (setw0 16 (show_base 16 (i mod 2 ^ 64))) = i mod 2 ^ 64"
proof -
  have "length (show_base 16 (i mod 2 ^ 64)) \<le> Suc 15"
    by (rule length_show_base) simp_all
  then show "length (setw0 16 (show_base 16 (i mod 2 ^ 64))) = 16" by (simp add: setw0_def)
  have "is_xdigit CHR ''0''" by (simp add: is_xdigit_code isdigit_def code_def)
  then show "list_all is_xdigit (setw0 16 (show_base 16 (i mod 2 ^ 64)))"
    using list_all_xdigit [of "i mod 2 ^ 64"] by (auto simp: setw0_def list_all_iff)
  show "read_base 16 (setw0 16 (show_base 16 (i mod 2 ^ 64))) = i mod 2 ^ 64"
    by (simp add: setw0_def read_base_zeros read_show_base)
qed

lemma xdigit_not_slash: "is_xdigit c \<Longrightarrow> c \<noteq> slash"
  by (auto simp: is_xdigit_code isdigit_def slash_def code_def)

text \<open>A base directory is a text that does not end in a slash.\<close>

definition base_ok :: "string \<Rightarrow> bool" where
  "base_ok base \<longleftrightarrow> base \<noteq> [] \<and> last base \<noteq> slash"

lemma branch_path_blob:
  assumes "base_ok base" and "list_all (\<lambda>c. c \<noteq> slash) name"
  shows "branch_path (base @ [slash] @ name) = base"
proof -
  have "dropWhile (\<lambda>c. c \<noteq> slash) (rev name @ slash # rev base) = slash # rev base"
    using assms(2) by (subst dropWhile_append2) (auto simp: list_all_iff)
  moreover have "dropWhile (\<lambda>c. c = slash) (rev base) = rev base"
    using assms(1) by (cases base rule: rev_cases) (auto simp: base_ok_def)
  ultimately show ?thesis by (simp add: branch_path_def)
qed

lemma blob_name_chars: "list_all (\<lambda>c. c \<noteq> slash) (blob_name i)"
  using blob_digits(2) [of i] xdigit_not_slash by (auto simp: blob_name_def list_all_iff slash_def)

lemma id_mod: "file_id i \<Longrightarrow> i mod 2 ^ 64 = (if i < 0 then i + 2 ^ 64 else i)"
  using mod_pos_pos_trivial [of "i + 2 ^ 64" "2 ^ 64"] by (auto simp: file_id_def)

lemma blob_name_reverse:
  assumes E: "documented E" and base: "base_ok base" and i: "file_id i"
  shows "PathGenerator_reverse E base (PathGenerator_path base i) = (if 0 \<le> i then Inr i
    else Inl (Runtime_error (''Invalid file name (possible decoding error): '' @ PathGenerator_path base i)))"
proof -
  let ?d = "setw0 16 (show_base 16 (i mod 2 ^ 64))"
  have path: "PathGenerator_path base i = base @ [slash] @ ?d @ ''.dat''"
    by (simp add: PathGenerator_path_def blob_name_def)
  obtain m where m: "rx_match False blob_rx (base @ [slash] @ ?d @ ''.dat'') = Some m"
    using blob_match_exists [OF blob_digits(1,2)] by blast
  from blob_match [OF m] obtain front where "base @ [slash] @ ?d @ ''.dat'' = front @ m 2 @ ''.dat''"
      "length (m 2) = 16" by blast
  then have "m 2 = ?d" using blob_digits(1) [of i] by (simp flip: append_assoc append_Cons)
  moreover have "branch_path (PathGenerator_path base i) = base"
    unfolding PathGenerator_path_def by (rule branch_path_blob [OF base blob_name_chars])
  moreover have "read_hex_id ?d = (if 0 \<le> i then Some i else None)"
    using i id_mod [OF i] blob_digits(3) [of i] by (auto simp: read_hex_id_def file_id_def)
  ultimately show ?thesis
    using E m by (simp add: PathGenerator_reverse_def path)
qed

lemma path_inj: "file_id i \<Longrightarrow> file_id j \<Longrightarrow> PathGenerator_path base i = PathGenerator_path base j \<Longrightarrow> i = j"
proof -
  assume ij: "file_id i" "file_id j" and "PathGenerator_path base i = PathGenerator_path base j"
  then have "setw0 16 (show_base 16 (i mod 2 ^ 64)) = setw0 16 (show_base 16 (j mod 2 ^ 64))"
    by (simp add: PathGenerator_path_def blob_name_def)
  from arg_cong [where f = "read_base 16", OF this] have "i mod 2 ^ 64 = j mod 2 ^ 64"
    unfolding blob_digits(3) .
  with id_mod [OF ij(1)] id_mod [OF ij(2)] ij show "i = j"
    unfolding file_id_def by (auto simp del: mod_pos_pos_trivial split: if_splits)
qed

lemma reverse_accepts:
  assumes E: "documented E" and r: "PathGenerator_reverse E base f = Inr i"
  shows "same_path (branch_path f) base \<and> 0 \<le> i \<and> i < 2 ^ 63
    \<and> (\<exists>front digits. f = front @ digits @ ''.dat'' \<and> length digits = 16 \<and> list_all is_xdigit digits
        \<and> read_base 16 digits = i)"
proof -
  from r E obtain m where b: "same_path (branch_path f) base" and m: "rx_match False blob_rx f = Some m"
    and i: "read_hex_id (m 2) = Some i"
    by (auto simp: PathGenerator_reverse_def split: if_splits option.splits)
  from blob_match [OF m] obtain front where f: "f = front @ m 2 @ ''.dat''" "length (m 2) = 16" "list_all is_xdigit (m 2)"
    by blast
  from i have "read_base 16 (m 2) = i" "i < 2 ^ 63" by (auto simp: read_hex_id_def Let_def split: if_splits)
  moreover have "0 \<le> read_base 16 (m 2)"
    by (rule read_base_nonneg [OF f(3)])
  ultimately show ?thesis using b f by blast
qed

section \<open>Properties\<close>

text \<open>C14: file names and ids. The name of a non-negative id is read back as that id, the name of a
  negative id is refused as a decoding error, different ids have different names, and whatever name is
  accepted lies in the base directory and holds the sixteen hexadecimal digits of the id.\<close>

theorem blob_path_round_trip:
  assumes "documented E" and "base_ok base" and "file_id i"
  shows "PathGenerator_reverse E base (PathGenerator_path base i) = (if 0 \<le> i then Inr i
      else Inl (Runtime_error (''Invalid file name (possible decoding error): '' @ PathGenerator_path base i)))
    \<and> (\<forall>j. file_id j \<longrightarrow> PathGenerator_path base i = PathGenerator_path base j \<longrightarrow> i = j)
    \<and> (\<forall>f k. PathGenerator_reverse E base f = Inr k \<longrightarrow> same_path (branch_path f) base \<and> 0 \<le> k \<and> k < 2 ^ 63
        \<and> (\<exists>front digits. f = front @ digits @ ''.dat'' \<and> length digits = 16 \<and> list_all is_xdigit digits
            \<and> read_base 16 digits = k))"
  using blob_name_reverse [OF assms] path_inj [OF assms(3)] reverse_accepts [OF assms(1)] by blast

theorem blob_path_round_trip_witness:
  "PathGenerator_reverse (boost_ref :: unit boost) ''/wdb'' (PathGenerator_path ''/wdb'' 258) = Inr 258
   \<and> PathGenerator_path ''/wdb'' 258 \<noteq> PathGenerator_path ''/wdb'' (- 1)"
proof -
  have hyps: "documented (boost_ref :: unit boost)" "base_ok ''/wdb''" "file_id 258" "file_id (- 1)"
    by (simp_all add: base_ok_def slash_def file_id_def)
  note r = blob_path_round_trip [OF hyps(1-3)]
  from r have "PathGenerator_reverse (boost_ref :: unit boost) ''/wdb'' (PathGenerator_path ''/wdb'' 258) = Inr 258"
    by (simp only: conj_assoc) simp
  moreover from r hyps(4) have "PathGenerator_path ''/wdb'' 258 \<noteq> PathGenerator_path ''/wdb'' (- 1)"
    by fastforce
  ultimately show ?thesis by blast
qed

end
