(* ===== verification/FileBlob.thy ===== *)
theory FileBlob
  imports PathGenerator Floating Spi "HOL-Library.AList"
begin

text \<open>
  The blob repository: \<open>fileblobImpl.cpp\<close>, \<open>bstream.h\<close>, \<open>fileblobimpl_psql.cpp\<close>,
  \<open>fileblob.cpp\<close> and \<open>database_query.c\<close>. The state is the part of the file system the code
  touches and the two process-wide variables (the initialised flag and the path generator). What the
  operating system decides is a record of the environment. The lemmas show what a write leaves
  behind, also when it is interrupted, what is read back, and which files a clean-up removes.
\<close>

section \<open>Files\<close>

record file_data =
  content :: string
  write_time :: int

record storage =
  initialized :: bool
  base_path :: "string option"
  directories :: "string list"
  files :: "(string \<times> file_data) list"

text \<open>The environment of a call: the time, which files can be opened, whether writing the
  temporary file went well, whether it can be renamed (the temporary file is in the working directory of the
  server, which need not be on the file system of the blobs), how many bytes had reached it before it was closed,
  whether closing it can write the rest, and the name of the temporary file (the code streams the stream object
  itself, an address, and the process id).\<close>

record os =
  now :: int
  can_open :: "string \<Rightarrow> bool"
  write_good :: bool
  rename_good :: bool
  close_good :: bool
  early :: nat
  stream_address :: string
  process_id :: int

definition tmp_file_name :: "os \<Rightarrow> string" where
  "tmp_file_name os = stream_address os @ ''.'' @ show_int (process_id os)"

definition exists_file :: "storage \<Rightarrow> string \<Rightarrow> bool" where
  "exists_file st p \<longleftrightarrow> map_of (files st) p \<noteq> None"

definition put_file :: "string \<Rightarrow> string \<Rightarrow> int \<Rightarrow> storage \<Rightarrow> storage" where
  "put_file p c t st = st\<lparr>files := AList.update p \<lparr>content = c, write_time = t\<rparr> (files st)\<rparr>"

definition remove_file :: "string \<Rightarrow> storage \<Rightarrow> storage" where
  "remove_file p st = st\<lparr>files := AList.delete p (files st)\<rparr>"

definition rename_file :: "string \<Rightarrow> string \<Rightarrow> storage \<Rightarrow> storage" where
  "rename_file p q st = (case map_of (files st) p of
     None \<Rightarrow> st
   | Some f \<Rightarrow> st\<lparr>files := AList.update q f (AList.delete p (files st))\<rparr>)"

definition content_of :: "storage \<Rightarrow> string \<Rightarrow> string option" where
  "content_of st p = map_option content (map_of (files st) p)"

section \<open>Initialisation\<close>

text \<open>\<open>SPI_exec(query, 1)\<close>: a negative result, or rows of one text column, which may be NULL.\<close>

definition performSimpleQuery :: "string option spi \<Rightarrow> string \<Rightarrow> string option res" where
  "performSimpleQuery SPI_exec query = (case SPI_exec query 1 of
     Spi_raises e \<Rightarrow> Inl e
   | Spi_other \<Rightarrow> Inr None
   | Spi_select [] \<Rightarrow> Inl (Undefined ''the first of no rows'')
   | Spi_select (None # _) \<Rightarrow> Inl (Undefined ''strdup(NULL)'')
   | Spi_select (Some v # _) \<Rightarrow> Inr (Some v))"

definition get_data_directory :: "string option spi \<Rightarrow> string option res" where
  "get_data_directory S = performSimpleQuery S ''SHOW data_directory''"

definition database_name :: "string option spi \<Rightarrow> string option res" where
  "database_name S = performSimpleQuery S ''SELECT current_database()''"

definition verify :: "string option \<Rightarrow> string res" where
  "verify value = (case value of
     None \<Rightarrow> Inl (Runtime_error ''Unable to find base data directory'')
   | Some s \<Rightarrow> Inr s)"

definition getStorageDirectory :: "string option spi \<Rightarrow> string res" where
  "getStorageDirectory S = bindE (get_data_directory S) verify"

definition PathGenerator_new :: "string \<Rightarrow> storage \<Rightarrow> (string \<times> storage) res" where
  "PathGenerator_new base st =
     (if exists_file st base \<and> base \<notin> set (directories st)
      then Inl (Runtime_error (''Given directory <'' @ base @ ''> is a file (should be a directory)''))
      else Inr (base, st\<lparr>directories := List.insert base (directories st)\<rparr>))"

definition setBaseStorageDirectory :: "string \<Rightarrow> storage \<Rightarrow> storage res" where
  "setBaseStorageDirectory directory st =
     mapE (\<lambda>(base, st1). st1\<lparr>base_path := Some base\<rparr>) (PathGenerator_new directory st)"

text \<open>An exception ends the backend with \<open>elog(FATAL)\<close>.\<close>

definition fatal_std :: "string \<Rightarrow> 'a res \<Rightarrow> 'a res" where
  "fatal_std prefix m = (case m of
     Inl e \<Rightarrow> (if is_std_exception e then Inl (Ereport ERRCODE_INTERNAL_ERROR (prefix @ what e)) else Inl e)
   | Inr x \<Rightarrow> Inr x)"

definition doInitializeFileStorage :: "string option spi \<Rightarrow> storage \<Rightarrow> storage res" where
  "doInitializeFileStorage S st = fatal_std ''Unable to initialize data storage for files: ''
     (bindE (getStorageDirectory S) (\<lambda>basePath.
      bindE (bindE (database_name S) verify) (\<lambda>name.
      setBaseStorageDirectory (basePath @ [slash] @ name) st)))"

definition initializeFileStorage :: "string option spi \<Rightarrow> storage \<Rightarrow> storage res" where
  "initializeFileStorage S st =
     (if initialized st then Inr st
      else mapE (\<lambda>st1. st1\<lparr>initialized := True\<rparr>) (doInitializeFileStorage S st))"

definition no_base :: "'a res" where
  "no_base = Inl (Logic_error ''No base directory has been set yet'')"

definition getFilePath :: "storage \<Rightarrow> FileId \<Rightarrow> string res" where
  "getFilePath st i = (case base_path st of None \<Rightarrow> no_base | Some base \<Rightarrow> Inr (PathGenerator_path base i))"

definition getFileId :: "'a boost \<Rightarrow> storage \<Rightarrow> string \<Rightarrow> FileId res" where
  "getFileId E st p = (case base_path st of None \<Rightarrow> no_base | Some base \<Rightarrow> PathGenerator_reverse E base p)"

section \<open>Writing and dropping\<close>

text \<open>The states of the file system in the course of a write, after the storage has been set up:
  the old file removed, the temporary file created, what was flushed early, the renamed file, and the
  rest of the data that closing the stream writes. A failed write stops after the third. A rename that fails
  leaves the function by an exception, and the stream is closed under the temporary name. The destructor that
  closes the stream does not report that it could not write the rest.\<close>

definition write_states :: "os \<Rightarrow> string \<Rightarrow> string \<Rightarrow> storage \<Rightarrow> storage list" where
  "write_states os file data st =
     (let tmp = tmp_file_name os;
          s1 = (if exists_file st file then remove_file file st else st);
          s2 = put_file tmp [] (now os) s1;
          s3 = put_file tmp (take (early os) data) (now os) s2;
          s4 = rename_file tmp file s3;
          closed_at = (\<lambda>p s. if close_good os then put_file p data (now os) s else s)
      in if \<not> write_good os then [s1, s2, s3]
         else if \<not> rename_good os then [s1, s2, s3, closed_at tmp s3]
         else [s1, s2, s3, s4, closed_at file s4])"

definition writeFile :: "string option spi \<Rightarrow> os \<Rightarrow> FileId \<Rightarrow> string \<Rightarrow> storage \<Rightarrow> unit res \<times> storage" where
  "writeFile S os i data st0 = (case initializeFileStorage S st0 of
     Inl e \<Rightarrow> (Inl e, st0)
   | Inr st \<Rightarrow> (case getFilePath st i of
       Inl e \<Rightarrow> (Inl e, st)
     | Inr file \<Rightarrow>
         (if \<not> write_good os then Inl (Runtime_error ''Error when writing file'')
          else if \<not> rename_good os then Inl (Runtime_error ''boost::filesystem::rename'')
          else Inr (),
          last (write_states os file data st))))"

text \<open>The result is the warning text.\<close>

definition dropFile :: "string option spi \<Rightarrow> FileId \<Rightarrow> storage \<Rightarrow> string res \<times> storage" where
  "dropFile S i st0 = (case initializeFileStorage S st0 of
     Inl e \<Rightarrow> (Inl e, st0)
   | Inr st \<Rightarrow> (case getFilePath st i of
       Inl e \<Rightarrow> (Inl e, st)
     | Inr file \<Rightarrow>
         (if exists_file st file then (Inr [], remove_file file st)
          else (Inr (''File with id <'' @ show_int i @ ''> does not exist''), st))))"

section \<open>Removing unreferenced files\<close>

text \<open>\<open>std::lower_bound\<close> and \<open>std::binary_search\<close> on a sorted array.\<close>

function lower_bound :: "int list \<Rightarrow> int \<Rightarrow> nat \<Rightarrow> nat \<Rightarrow> nat" where
  "lower_bound xs v first len =
     (if len = 0 then first
      else (let half = len div 2 in
        if xs ! (first + half) < v then lower_bound xs v (first + half + 1) (len - half - 1)
        else lower_bound xs v first half))"
  by auto

termination lower_bound
  by (relation "measure (\<lambda>(_, _, _, len). len)") auto

declare lower_bound.simps [simp del]

definition binary_search :: "int list \<Rightarrow> int \<Rightarrow> bool" where
  "binary_search xs v = (let i = lower_bound xs v 0 (length xs) in i < length xs \<and> \<not> v < xs ! i)"

record sweep =
  swept :: storage
  removed_count :: nat
  sweep_warning :: string
  sweep_skipped :: "FileId list"

definition file_age :: "os \<Rightarrow> storage \<Rightarrow> string \<Rightarrow> int" where
  "file_age os st p = (case map_of (files st) p of None \<Rightarrow> 0 | Some f \<Rightarrow> now os - write_time f)"

definition newline_text :: string where "newline_text = [CHR 0x0A]"

text \<open>One directory entry. Only a standard exception can come from reading the name.\<close>

definition sweep_entry :: "'a boost \<Rightarrow> os \<Rightarrow> FileId list \<Rightarrow> string \<Rightarrow> sweep \<Rightarrow> sweep" where
  "sweep_entry E os referenced p s = (case getFileId E (swept s) p of
     Inl e \<Rightarrow> s\<lparr>sweep_warning := sweep_warning s @ what e @ newline_text\<rparr>
   | Inr i \<Rightarrow>
       (if binary_search referenced i then s
        else if 3600 < file_age os (swept s) p
        then s\<lparr>swept := remove_file p (swept s), removed_count := removed_count s + 1\<rparr>
        else s\<lparr>sweep_skipped := sweep_skipped s @ [i]\<rparr>))"

fun sweep_entries :: "'a boost \<Rightarrow> os \<Rightarrow> FileId list \<Rightarrow> string list \<Rightarrow> sweep \<Rightarrow> sweep" where
  "sweep_entries E os referenced [] s = s"
| "sweep_entries E os referenced (p # ps) s = sweep_entries E os referenced ps (sweep_entry E os referenced p s)"

text \<open>The entries of the base directory, in the order the file system lists them.\<close>

definition directory_entries :: "storage \<Rightarrow> string \<Rightarrow> string list" where
  "directory_entries st base = filter (\<lambda>p. same_path (branch_path p) base) (map fst (files st))"

definition removeUnreferencedFiles :: "'a boost \<Rightarrow> string option spi \<Rightarrow> os \<Rightarrow> FileId list \<Rightarrow> storage \<Rightarrow> sweep res" where
  "removeUnreferencedFiles E S os referencedFiles st0 =
     bindE (initializeFileStorage S st0) (\<lambda>st.
     case base_path st of
       None \<Rightarrow> Inl (Undefined ''dereferencing the null base directory'')
     | Some base \<Rightarrow> Inr (sweep_entries E os (sort referencedFiles) (directory_entries st base)
         \<lparr>swept = st, removed_count = 0, sweep_warning = [], sweep_skipped = []\<rparr>))"

section \<open>Reading\<close>

definition getBStream :: "storage \<Rightarrow> os \<Rightarrow> FileId \<Rightarrow> string option res" where
  "getBStream st os i = bindE (getFilePath st i) (\<lambda>p.
     case content_of st p of
       None \<Rightarrow> Inl (Runtime_error ''File does not exist'')
     | Some c \<Rightarrow> Inr (if can_open os p then Some c else None))"

definition open_blob :: "string option spi \<Rightarrow> os \<Rightarrow> FileId \<Rightarrow> storage \<Rightarrow> string option res \<times> storage" where
  "open_blob S os i st0 = (case initializeFileStorage S st0 of
     Inl e \<Rightarrow> (Inl e, st0)
   | Inr st \<Rightarrow> (getBStream st os i, st))"

definition with_blob :: "string option spi \<Rightarrow> os \<Rightarrow> FileId \<Rightarrow> storage \<Rightarrow> (string option \<Rightarrow> 'r res) \<Rightarrow> 'r res \<times> storage" where
  "with_blob S os i st f = (let (r, st1) = open_blob S os i st in (bindE r f, st1))"

definition reading_error :: "'a res" where
  "reading_error = Inl (Runtime_error ''Error when reading file'')"

text \<open>\<open>read\<close> of a given number of bytes, then of one more. A negative count reads nothing and ends
  like a short file.\<close>

definition readFile_sized :: "string option spi \<Rightarrow> os \<Rightarrow> FileId \<Rightarrow> int \<Rightarrow> storage \<Rightarrow> string res \<times> storage" where
  "readFile_sized S os i readSize st = with_blob S os i st (\<lambda>f.
     case f of
       None \<Rightarrow> reading_error
     | Some c \<Rightarrow>
         (if readSize < 0 \<or> int (length c) < readSize then Inl (Runtime_error ''File was too small'')
          else if readSize < int (length c) then Inl (Runtime_error ''File was too big'')
          else Inr c))"

definition readFile :: "string option spi \<Rightarrow> os \<Rightarrow> FileId \<Rightarrow> storage \<Rightarrow> string res \<times> storage" where
  "readFile S os i st = with_blob S os i st (\<lambda>f.
     case f of
       None \<Rightarrow> Inl (Runtime_error ''Unable to read file'')
     | Some c \<Rightarrow> Inr c)"

definition cacheFile :: "string option spi \<Rightarrow> os \<Rightarrow> FileId \<Rightarrow> storage \<Rightarrow> unit res \<times> storage" where
  "cacheFile S os i st = with_blob S os i st (\<lambda>_. Inr ())"

text \<open>Four bytes in the memory order of a little-endian machine, as a \<open>float\<close>.\<close>

definition float_of_bits :: "int \<Rightarrow> fp" where
  "float_of_bits w =
     (let negative = 2 ^ 31 \<le> w;
          e = (w div 2 ^ 23) mod 2 ^ 8;
          m = w mod 2 ^ 23
      in if e = 255 then (if m \<noteq> 0 then NaN else if negative then NInf else PInf)
         else (let q = (if e = 0 then of_int m * (1 / 2 ^ 149) else
                 (if 150 \<le> e then of_int ((m + 2 ^ 23) * 2 ^ nat (e - 150))
                  else of_int (m + 2 ^ 23) / of_int (2 ^ nat (150 - e))))
               in Fin (if negative then - q else q)))"

definition float_of_bytes :: "string \<Rightarrow> fp" where
  "float_of_bytes b = float_of_bits (code (b ! 0) + code (b ! 1) * 2 ^ 8 + code (b ! 2) * 2 ^ 16 + code (b ! 3) * 2 ^ 24)"

text \<open>Reading at the current position of an open stream.\<close>

definition readFloat_next :: "string \<Rightarrow> nat \<Rightarrow> fp res" where
  "readFloat_next c pos =
     (if pos + 4 \<le> length c then Inr (float_of_bytes (take 4 (drop pos c)))
      else Inl (End_of_file ''File was too small to read the given index''))"

text \<open>The position is multiplied as a \<open>size_t\<close>; that of a negative index is an invalid offset, on
  which \<open>seekg\<close> sets the fail bit.\<close>

definition readFloat_at :: "string option \<Rightarrow> int \<Rightarrow> fp res" where
  "readFloat_at f position = (case f of
     None \<Rightarrow> reading_error
   | Some c \<Rightarrow>
       (if position < 0 then reading_error
        else (case readFloat_next c (nat position * 4) of
            Inl (End_of_file _) \<Rightarrow> Inl (End_of_file (''File index '' @ show_int position @ '' is out of range for file.''))
          | r \<Rightarrow> r)))"

definition readFloatFromFile :: "string option spi \<Rightarrow> os \<Rightarrow> FileId \<Rightarrow> int \<Rightarrow> storage \<Rightarrow> fp res \<times> storage" where
  "readFloatFromFile S os i position st = with_blob S os i st (\<lambda>f. readFloat_at f position)"

function read_floats :: "string \<Rightarrow> nat \<Rightarrow> fp list" where
  "read_floats c pos = (case readFloat_next c pos of
     Inl _ \<Rightarrow> []
   | Inr x \<Rightarrow> x # read_floats c (pos + 4))"
  by auto

termination read_floats
  by (relation "measure (\<lambda>(c, pos). length c - pos)") (auto simp: readFloat_next_def split: if_splits)

declare read_floats.simps [simp del]

definition readAllFloatsFromFile :: "os \<Rightarrow> FileId \<Rightarrow> storage \<Rightarrow> fp list res" where
  "readAllFloatsFromFile os i st = bindE (getBStream st os i) (\<lambda>f.
     case f of None \<Rightarrow> reading_error | Some c \<Rightarrow> Inr (read_floats c 0))"

section \<open>The SQL functions\<close>

text \<open>\<open>HANDLE_EXCEPTIONS\<close> turns a standard exception into a server error. Arguments are
  \<open>None\<close> when NULL.\<close>

definition sql_error :: "'a res \<Rightarrow> 'a res" where
  "sql_error m = report_std ERRCODE_RAISE_EXCEPTION m"

definition sql_call :: "'a res \<times> storage \<Rightarrow> 'a res \<times> storage" where
  "sql_call m = (sql_error (fst m), snd m)"

definition null_not_allowed :: "'a res" where
  "null_not_allowed = Inl (Ereport ERRCODE_RAISE_EXCEPTION ''NULL argument not allowed'')"

definition write_file :: "string option spi \<Rightarrow> os \<Rightarrow> FileId option \<Rightarrow> string option \<Rightarrow> storage \<Rightarrow> unit res \<times> storage" where
  "write_file S os i data st = (case (i, data) of
     (Some i, Some d) \<Rightarrow> sql_call (writeFile S os i d st)
   | _ \<Rightarrow> (null_not_allowed, st))"

text \<open>The warnings that are raised are part of the result.\<close>

definition drop_file :: "string option spi \<Rightarrow> FileId option \<Rightarrow> storage \<Rightarrow> string list res \<times> storage" where
  "drop_file S i st = (case i of
     None \<Rightarrow> (null_not_allowed, st)
   | Some i \<Rightarrow> (let (r, st1) = dropFile S i st
       in (mapE (\<lambda>w. if w = [] then [] else [w]) (sql_error r), st1)))"

definition all_referenced_files :: "string \<Rightarrow> FileId option spi \<Rightarrow> FileId list res" where
  "all_referenced_files wdb SPI_execute =
     bindE (spi_rows ERRCODE_RAISE_EXCEPTION ''Error when reading from file_blob''
       (SPI_execute (''SELECT file_id FROM '' @ wdb @ ''.file_blob'') 0)) (\<lambda>rows.
     Inr (map (\<lambda>v. case v of None \<Rightarrow> 0 | Some i \<Rightarrow> i) rows))"

definition remove_unreferenced_files :: "'a boost \<Rightarrow> string \<Rightarrow> string option spi \<Rightarrow> FileId option spi \<Rightarrow> os \<Rightarrow> storage \<Rightarrow>
    (nat \<times> string list \<times> storage) res" where
  "remove_unreferenced_files E wdb S SPI_execute os st =
     bindE (all_referenced_files wdb SPI_execute) (\<lambda>refFiles.
     bindE (sql_error (removeUnreferencedFiles E S os refFiles st)) (\<lambda>s.
     Inr (removed_count s, (if sweep_warning s = [] then [] else [sweep_warning s]), swept s)))"

definition read_file :: "string option spi \<Rightarrow> os \<Rightarrow> FileId option \<Rightarrow> storage \<Rightarrow> string res \<times> storage" where
  "read_file S os i st = (case i of
     None \<Rightarrow> (null_not_allowed, st)
   | Some i \<Rightarrow> sql_call (readFile S os i st))"

definition read_float_from_file :: "string option spi \<Rightarrow> os \<Rightarrow> FileId option \<Rightarrow> int option \<Rightarrow> storage \<Rightarrow> fp res \<times> storage" where
  "read_float_from_file S os i pos st = (case (i, pos) of
     (Some i, Some p) \<Rightarrow> sql_call (readFloatFromFile S os i p st)
   | _ \<Rightarrow> (null_not_allowed, st))"

definition cache_file :: "string option spi \<Rightarrow> os \<Rightarrow> FileId option \<Rightarrow> storage \<Rightarrow> unit res \<times> storage" where
  "cache_file S os i st = (case i of
     None \<Rightarrow> (null_not_allowed, st)
   | Some i \<Rightarrow> sql_call (cacheFile S os i st))"

text \<open>The entry points of \<open>fileblobimpl_psql.cpp\<close>, for the C code of the call interface.\<close>

definition writeFile_psql :: "string option spi \<Rightarrow> os \<Rightarrow> FileId \<Rightarrow> string \<Rightarrow> storage \<Rightarrow> unit res \<times> storage" where
  "writeFile_psql S os i data st = sql_call (writeFile S os i data st)"

definition dropFile_psql :: "string option spi \<Rightarrow> FileId \<Rightarrow> storage \<Rightarrow> string list res \<times> storage" where
  "dropFile_psql S i st = (let (r, st1) = dropFile S i st
     in (mapE (\<lambda>w. if w = [] then [] else [w]) (sql_error r), st1))"

definition readFile_psql :: "string option spi \<Rightarrow> os \<Rightarrow> FileId \<Rightarrow> int \<Rightarrow> storage \<Rightarrow> string res \<times> storage" where
  "readFile_psql S os i readSize st = sql_call (readFile_sized S os i readSize st)"

definition readFloatFromFile_psql :: "string option spi \<Rightarrow> os \<Rightarrow> FileId \<Rightarrow> int \<Rightarrow> storage \<Rightarrow> fp res \<times> storage" where
  "readFloatFromFile_psql S os i position st = sql_call (readFloatFromFile S os i position st)"

section \<open>Lemmas\<close>

lemma lower_bound_correct:
  assumes "sorted xs" and "first + len \<le> length xs" and "\<forall>i < first. xs ! i < v"
    and "\<forall>i < length xs. first + len \<le> i \<longrightarrow> v \<le> xs ! i"
  shows "lower_bound xs v first len \<le> length xs
    \<and> (\<forall>i < lower_bound xs v first len. xs ! i < v)
    \<and> (\<forall>i < length xs. lower_bound xs v first len \<le> i \<longrightarrow> v \<le> xs ! i)"
  using assms
proof (induction xs v first len rule: lower_bound.induct)
  case (1 xs v first len)
  define half where "half = len div 2"
  show ?case
  proof (cases "len = 0")
    case True
    with "1.prems" show ?thesis by (simp add: lower_bound.simps)
  next
    case False
    then have h: "half < len" by (simp add: half_def)
    show ?thesis
    proof (cases "xs ! (first + half) < v")
      case True
      have "\<forall>i < first + half + 1. xs ! i < v"
      proof (intro allI impI)
        fix i assume "i < first + half + 1"
        then have "xs ! i \<le> xs ! (first + half)"
          using "1.prems"(1,2) h by (intro sorted_nth_mono) auto
        with True show "xs ! i < v" by simp
      qed
      with "1.IH"(1) [OF False half_def] True "1.prems" h False show ?thesis
        by (simp add: lower_bound.simps [of xs v first len] half_def [symmetric] Let_def)
    next
      case ge: False
      have "\<forall>i < length xs. first + half \<le> i \<longrightarrow> v \<le> xs ! i"
      proof (intro allI impI)
        fix i assume "i < length xs" "first + half \<le> i"
        then have "xs ! (first + half) \<le> xs ! i"
          using "1.prems"(1) by (intro sorted_nth_mono) auto
        with ge show "v \<le> xs ! i" by simp
      qed
      with "1.IH"(2) [OF False half_def] ge "1.prems" h False show ?thesis
        by (simp add: lower_bound.simps [of xs v first len] half_def [symmetric] Let_def)
    qed
  qed
qed

lemma binary_search_iff:
  assumes "sorted xs"
  shows "binary_search xs v \<longleftrightarrow> v \<in> set xs"
proof -
  define r where "r = lower_bound xs v 0 (length xs)"
  have r: "r \<le> length xs" "\<forall>i < r. xs ! i < v" "\<forall>i < length xs. r \<le> i \<longrightarrow> v \<le> xs ! i"
    using lower_bound_correct [OF assms, of 0 "length xs" v] by (simp_all add: r_def)
  show ?thesis
  proof
    assume "binary_search xs v"
    then have "r < length xs" "\<not> v < xs ! r" by (simp_all add: binary_search_def Let_def r_def)
    with r(3) have "xs ! r = v" by force
    with \<open>r < length xs\<close> show "v \<in> set xs" by auto
  next
    assume "v \<in> set xs"
    then obtain i where i: "i < length xs" "xs ! i = v" by (auto simp: in_set_conv_nth)
    with r(2) have "r \<le> i" by (meson leI less_irrefl)
    then have "xs ! r \<le> v" using i assms by (metis sorted_nth_mono)
    with \<open>r \<le> i\<close> i(1) show "binary_search xs v" by (simp add: binary_search_def Let_def r_def [symmetric])
  qed
qed

text \<open>A file system lists no path twice.\<close>

definition files_ok :: "storage \<Rightarrow> bool" where
  "files_ok st \<longleftrightarrow> distinct (map fst (files st))"

definition removable :: "'a boost \<Rightarrow> os \<Rightarrow> FileId list \<Rightarrow> string \<Rightarrow> string \<Rightarrow> file_data \<Rightarrow> bool" where
  "removable E os referenced base p f \<longleftrightarrow> (case PathGenerator_reverse E base p of
     Inl _ \<Rightarrow> False
   | Inr i \<Rightarrow> i \<notin> set referenced \<and> 3600 < now os - write_time f)"

lemma delete_filter: "AList.delete p xs = filter (\<lambda>(q, f). q \<noteq> p) xs"
  by (auto simp: AList.delete_eq intro!: filter_cong)

lemma filter_none: "p \<notin> fst ` set xs \<Longrightarrow> filter (\<lambda>(q, f). q \<noteq> p) xs = xs"
  by (induction xs) auto

lemma sweep_entry_files:
  assumes ok: "files_ok (swept s)" and base: "base_path (swept s) = Some base" and "sorted refs"
    and p: "p \<in> fst ` set (files (swept s))"
  shows "files (swept (sweep_entry E os refs p s))
      = filter (\<lambda>(q, f). \<not> (q = p \<and> removable E os refs base q f)) (files (swept s))
    \<and> base_path (swept (sweep_entry E os refs p s)) = Some base
    \<and> removed_count (sweep_entry E os refs p s) + length (files (swept (sweep_entry E os refs p s)))
      = removed_count s + length (files (swept s))"
proof -
  from p obtain f where f: "map_of (files (swept s)) p = Some f"
    by (metis domIff dom_map_of_conv_image_fst not_None_eq)
  have age: "file_age os (swept s) p = now os - write_time f" by (simp add: file_age_def f)
  have only: "q = p \<Longrightarrow> (q, g) \<in> set (files (swept s)) \<Longrightarrow> g = f" for q g
    using ok f by (metis files_ok_def map_of_eq_Some_iff option.inject)
  have keep: "filter (\<lambda>(q, f). \<not> (q = p \<and> removable E os refs base q f)) (files (swept s)) = files (swept s)"
    if "\<not> removable E os refs base p f"
    using that only by (intro filter_True) auto
  have drop: "filter (\<lambda>(q, f). \<not> (q = p \<and> removable E os refs base q f)) (files (swept s)) = AList.delete p (files (swept s))"
    if "removable E os refs base p f"
    unfolding delete_filter using that only by (intro filter_cong refl) auto
  have len: "Suc (length (AList.delete p (files (swept s)))) = length (files (swept s))"
  proof -
    have "length (filter (\<lambda>(q, g). q \<noteq> p) xs) + 1 = length xs" if "distinct (map fst xs)" "p \<in> fst ` set xs"
      for xs :: "(string \<times> file_data) list"
      using that
    proof (induction xs)
      case (Cons x xs)
      then show ?case by (cases x; cases "fst x = p") (auto simp: filter_none)
    qed simp
    from this [OF ok [unfolded files_ok_def] p] show ?thesis by (simp add: delete_filter)
  qed
  show ?thesis
  proof (cases "PathGenerator_reverse E base p")
    case (Inl e)
    then have "\<not> removable E os refs base p f" by (simp add: removable_def)
    with Inl base keep show ?thesis by (simp add: sweep_entry_def getFileId_def)
  next
    case (Inr i)
    then have "removable E os refs base p f \<longleftrightarrow> \<not> binary_search refs i \<and> 3600 < now os - write_time f"
      by (simp add: removable_def binary_search_iff [OF assms(3)])
    with Inr base keep drop len show ?thesis
      by (auto simp: sweep_entry_def getFileId_def age remove_file_def)
  qed
qed

lemma sweep_entries_files:
  assumes "files_ok (swept s)" and "base_path (swept s) = Some base" and "sorted refs"
    and "set ps \<subseteq> fst ` set (files (swept s))" and "distinct ps"
  shows "files (swept (sweep_entries E os refs ps s))
      = filter (\<lambda>(q, f). \<not> (q \<in> set ps \<and> removable E os refs base q f)) (files (swept s))
    \<and> removed_count (sweep_entries E os refs ps s) + length (files (swept (sweep_entries E os refs ps s)))
      = removed_count s + length (files (swept s))"
  using assms
proof (induction ps arbitrary: s)
  case (Cons p ps)
  define s1 where "s1 = sweep_entry E os refs p s"
  have p: "p \<in> fst ` set (files (swept s))" using Cons.prems(4) by simp
  have s1: "files (swept s1) = filter (\<lambda>(q, f). \<not> (q = p \<and> removable E os refs base q f)) (files (swept s))"
      "base_path (swept s1) = Some base"
      "removed_count s1 + length (files (swept s1)) = removed_count s + length (files (swept s))"
    using sweep_entry_files [OF Cons.prems(1-3) p, of E os, folded s1_def] by blast+
  have ok1: "files_ok (swept s1)"
    using Cons.prems(1) unfolding files_ok_def s1(1) by (simp add: distinct_map_filter)
  have "set ps \<subseteq> fst ` set (files (swept s1))"
  proof
    fix q assume q: "q \<in> set ps"
    with Cons.prems(4,5) obtain f where "(q, f) \<in> set (files (swept s))" "q \<noteq> p" by force
    then show "q \<in> fst ` set (files (swept s1))" unfolding s1(1) by force
  qed
  from this Cons.prems(5) have ps: "set ps \<subseteq> fst ` set (files (swept s1))" "distinct ps" by simp_all
  note IH = Cons.IH [OF ok1 s1(2) Cons.prems(3) ps]
  have rest: "sweep_entries E os refs (p # ps) s = sweep_entries E os refs ps s1" by (simp add: s1_def)
  from IH have f: "files (swept (sweep_entries E os refs ps s1))
      = filter (\<lambda>(q, f). \<not> (q \<in> set ps \<and> removable E os refs base q f)) (files (swept s1))"
    by (rule conjunct1)
  have "files (swept (sweep_entries E os refs (p # ps) s))
      = filter (\<lambda>(q, f). \<not> (q \<in> set (p # ps) \<and> removable E os refs base q f)) (files (swept s))"
    unfolding rest f s1(1) filter_filter by (rule filter_cong [OF refl]) auto
  moreover from IH have "removed_count (sweep_entries E os refs ps s1)
      + length (files (swept (sweep_entries E os refs ps s1))) = removed_count s1 + length (files (swept s1))"
    by (rule conjunct2)
  ultimately show ?case unfolding rest s1(3) by (rule conjI)
qed simp

lemma content_put: "content_of (put_file p c t st) q = (if q = p then Some c else content_of st q)"
  by (simp add: content_of_def put_file_def update_conv)

lemma content_remove: "content_of (remove_file p st) q = (if q = p then None else content_of st q)"
  by (simp add: content_of_def remove_file_def AList.delete_conv)

lemma content_rename:
  "content_of st p = Some c \<Longrightarrow> content_of (rename_file p q st) r =
     (if r = q then Some c else if r = p then None else content_of st r)"
  by (auto simp: content_of_def rename_file_def update_conv AList.delete_conv split: option.splits)

lemma exists_content: "exists_file st p \<longleftrightarrow> content_of st p \<noteq> None"
  by (simp add: exists_file_def content_of_def)

lemmas content_simps = content_put content_remove content_rename

text \<open>The temporary file has no directory part, so it is none of the blobs.\<close>

lemma tmp_not_path:
  assumes "slash \<notin> set (stream_address os)"
  shows "tmp_file_name os \<noteq> PathGenerator_path base i"
proof
  assume eq: "tmp_file_name os = PathGenerator_path base i"
  have "slash \<in> set (PathGenerator_path base i)" by (simp add: PathGenerator_path_def)
  then have "slash \<in> set (show_int (process_id os)) \<union> {CHR ''.''}"
    unfolding eq [symmetric] using assms by (simp add: tmp_file_name_def)
  then show False using show_int_chars [of slash] by (auto simp: slash_def isdigit_def code_def)
qed

lemma write_contents:
  assumes "file \<noteq> tmp_file_name os"
  shows "\<forall>s \<in> set (write_states os file data st).
      content_of s file \<in> {None, Some (take (early os) data), Some data}
      \<and> (\<forall>q. q \<noteq> file \<longrightarrow> q \<noteq> tmp_file_name os \<longrightarrow> content_of s q = content_of st q)"
    and "content_of (hd (write_states os file data st)) file = None"
    and "write_good os \<Longrightarrow> rename_good os \<Longrightarrow> content_of (last (write_states os file data st)) q =
      (if q = file then Some (if close_good os then data else take (early os) data)
       else if q = tmp_file_name os then None else content_of st q)"
    and "\<not> write_good os \<or> \<not> rename_good os \<Longrightarrow> content_of (last (write_states os file data st)) file = None"
  using assms by (auto simp: write_states_def Let_def content_simps exists_content)

lemma files_ok_ops:
  "files_ok st \<Longrightarrow> files_ok (put_file p c t st)"
  "files_ok st \<Longrightarrow> files_ok (remove_file p st)"
  "files_ok st \<Longrightarrow> files_ok (rename_file p q st)"
  by (auto simp: files_ok_def put_file_def remove_file_def rename_file_def distinct_update distinct_delete
      split: option.split)

lemma write_states_fields:
  "s \<in> set (write_states os file data st) \<Longrightarrow> initialized s = initialized st \<and> base_path s = base_path st"
  by (auto simp: write_states_def Let_def put_file_def remove_file_def rename_file_def split: option.splits if_splits)

lemma write_states_nonempty [simp]: "write_states os file data st \<noteq> []"
  by (simp add: write_states_def Let_def)

text \<open>A storage that has been set up.\<close>

definition ready :: "storage \<Rightarrow> string \<Rightarrow> bool" where
  "ready st base \<longleftrightarrow> initialized st \<and> base_path st = Some base"

lemma ready_simps:
  assumes "ready st base"
  shows "initializeFileStorage S st = Inr st" "getFilePath st i = Inr (PathGenerator_path base i)"
    "getFileId E st p = PathGenerator_reverse E base p" "base_path st = Some base"
  using assms by (simp_all add: ready_def initializeFileStorage_def getFilePath_def getFileId_def)

lemma with_blob_ready:
  assumes "ready st base"
  shows "with_blob S os i st f = (case content_of st (PathGenerator_path base i) of
     None \<Rightarrow> Inl (Runtime_error ''File does not exist'')
   | Some c \<Rightarrow> f (if can_open os (PathGenerator_path base i) then Some c else None), st)"
  by (simp add: with_blob_def open_blob_def getBStream_def ready_simps [OF assms] split: option.split)

lemma read_floats_nth:
  "length (read_floats c pos) = (length c - pos) div 4
   \<and> (\<forall>k < (length c - pos) div 4. readFloat_next c (pos + 4 * k) = Inr (read_floats c pos ! k))"
proof (induction c pos rule: read_floats.induct)
  case (1 c pos)
  show ?case
  proof (cases "pos + 4 \<le> length c")
    case False
    then show ?thesis by (subst read_floats.simps; subst (2) read_floats.simps) (simp add: readFloat_next_def)
  next
    case True
    define x where "x = float_of_bytes (take 4 (drop pos c))"
    have nx: "readFloat_next c pos = Inr x" using True by (simp add: readFloat_next_def x_def)
    have rf: "read_floats c pos = x # read_floats c (pos + 4)" by (subst read_floats.simps) (simp add: nx)
    have n: "(length c - pos) div 4 = Suc ((length c - (pos + 4)) div 4)" using True by simp
    note IH = "1.IH" [OF nx]
    have "readFloat_next c (pos + 4 * k) = Inr (read_floats c pos ! k)" if "k < (length c - pos) div 4" for k
    proof (cases k)
      case 0
      then show ?thesis by (simp add: nx rf)
    next
      case (Suc j)
      then have "pos + 4 * k = (pos + 4) + 4 * j" by simp
      with IH Suc that n show ?thesis unfolding rf by (simp only: nth_Cons_Suc)
    qed
    then show ?thesis using IH n rf by simp
  qed
qed

section \<open>Properties\<close>

text \<open>C15: what is written is read back. When the write and the rename go well and closing the stream can write the rest,
  the call succeeds, the file of that id holds the data, whole or float by float, the temporary file is gone, and every other
  file is untouched.\<close>

theorem write_then_read:
  assumes "ready st base" and "write_good os \<and> rename_good os \<and> close_good os" and "slash \<notin> set (stream_address os)"
    and "can_open os' (PathGenerator_path base i)"
  shows "\<exists>st'. writeFile S os i data st = (Inr (), st')
    \<and> readFile S os' i st' = (Inr data, st')
    \<and> readFile_sized S os' i (int (length data)) st' = (Inr data, st')
    \<and> (\<forall>k < length data div 4. readFloatFromFile S os' i (int k) st' = (Inr (read_floats data 0 ! k), st'))
    \<and> (\<forall>q. q \<noteq> PathGenerator_path base i \<longrightarrow> content_of st' q =
        (if q = tmp_file_name os then None else content_of st q))"
proof -
  let ?p = "PathGenerator_path base i"
  define st' where "st' = last (write_states os ?p data st)"
  have np: "?p \<noteq> tmp_file_name os" using tmp_not_path [OF assms(3), of base i] by simp
  have "st' \<in> set (write_states os ?p data st)" by (simp add: st'_def)
  from write_states_fields [OF this] assms(1) have r: "ready st' base" by (simp add: ready_def)
  have c: "content_of st' q = (if q = ?p then Some data else if q = tmp_file_name os then None else content_of st q)" for q
    unfolding st'_def using write_contents(3) [OF np, of data st q] assms(2) by simp
  have w: "writeFile S os i data st = (Inr (), st')"
    using assms(2) by (simp add: writeFile_def ready_simps [OF assms(1)] st'_def)
  have "readFloatFromFile S os' i (int k) st' = (Inr (read_floats data 0 ! k), st')" if "k < length data div 4" for k
    using read_floats_nth [of data 0] that assms(4)
    by (simp add: readFloatFromFile_def with_blob_ready [OF r] c readFloat_at_def mult.commute)
  with w c show ?thesis
    using assms(4) by (intro exI [of _ st']) (simp add: readFile_def readFile_sized_def with_blob_ready [OF r])
qed

definition sample_os :: os where
  "sample_os = \<lparr>now = 10000, can_open = (\<lambda>_. True), write_good = True, rename_good = True, close_good = True, early = 2, stream_address = ''0x7ffe'', process_id = 42\<rparr>"

definition sample_storage :: storage where
  "sample_storage = \<lparr>initialized = True, base_path = Some ''/wdb'', directories = [''/wdb''],
     files = [(PathGenerator_path ''/wdb'' 7, \<lparr>content = ''old'', write_time = 0\<rparr>)]\<rparr>"

lemma sample_ready: "ready sample_storage ''/wdb''"
  by (simp add: ready_def sample_storage_def)

theorem write_then_read_witness:
  "\<exists>st'. writeFile (\<lambda>_ _. Spi_other) sample_os 7 ''abcdefgh'' sample_storage = (Inr (), st')
    \<and> readFile (\<lambda>_ _. Spi_other) sample_os 7 st' = (Inr ''abcdefgh'', st')"
proof -
  have hyps: "write_good sample_os \<and> rename_good sample_os \<and> close_good sample_os" "slash \<notin> set (stream_address sample_os)"
      "can_open sample_os (PathGenerator_path ''/wdb'' 7)"
    by (simp_all add: sample_os_def slash_def)
  from write_then_read [OF sample_ready hyps, of "\<lambda>_ _. Spi_other" "''abcdefgh''"] show ?thesis by blast
qed

text \<open>C16: what a crash in the course of a write can leave. At every point the file of the id is missing,
  holds a prefix of the new data (what had been flushed when it was renamed) or all of it, and no other
  file is touched but the temporary one; the first step has always removed the old content, and a write or a rename
  that fails ends without any. If closing the stream cannot write the rest, the file keeps the prefix although the call
  has succeeded.\<close>

theorem write_crash_states:
  assumes "slash \<notin> set (stream_address os)"
  shows "(\<forall>s \<in> set (write_states os (PathGenerator_path base i) data st).
      content_of s (PathGenerator_path base i) \<in> {None, Some (take (early os) data), Some data}
      \<and> (\<forall>q. q \<noteq> PathGenerator_path base i \<longrightarrow> q \<noteq> tmp_file_name os \<longrightarrow> content_of s q = content_of st q))
    \<and> content_of (hd (write_states os (PathGenerator_path base i) data st)) (PathGenerator_path base i) = None
    \<and> (\<not> write_good os \<or> \<not> rename_good os \<longrightarrow>
        content_of (last (write_states os (PathGenerator_path base i) data st)) (PathGenerator_path base i) = None)
    \<and> (ready st base \<and> write_good os \<and> rename_good os \<and> \<not> close_good os \<longrightarrow>
        fst (writeFile S os i data st) = Inr ()
        \<and> content_of (snd (writeFile S os i data st)) (PathGenerator_path base i) = Some (take (early os) data))"
proof -
  have np: "PathGenerator_path base i \<noteq> tmp_file_name os" using tmp_not_path [OF assms, of base i] by simp
  have kept: "fst (writeFile S os i data st) = Inr ()
      \<and> content_of (snd (writeFile S os i data st)) (PathGenerator_path base i) = Some (take (early os) data)"
    if "ready st base \<and> write_good os \<and> rename_good os \<and> \<not> close_good os"
    using that write_contents(3) [OF np, of data st "PathGenerator_path base i"]
    by (simp add: writeFile_def ready_simps [where st = st and base = base])
  show ?thesis using write_contents [OF np] kept by (intro conjI impI) blast+
qed

theorem write_crash_states_witness:
  "content_of (hd (write_states sample_os (PathGenerator_path ''/wdb'' 7) ''abc'' sample_storage)) (PathGenerator_path ''/wdb'' 7) = None
   \<and> content_of (write_states sample_os (PathGenerator_path ''/wdb'' 7) ''abc'' sample_storage ! 3) (PathGenerator_path ''/wdb'' 7)
     \<in> {None, Some ''ab'', Some ''abc''}
   \<and> fst (writeFile (\<lambda>_ _. Spi_other) (sample_os\<lparr>close_good := False\<rparr>) 7 ''abc'' sample_storage) = Inr ()
   \<and> content_of (snd (writeFile (\<lambda>_ _. Spi_other) (sample_os\<lparr>close_good := False\<rparr>) 7 ''abc'' sample_storage))
       (PathGenerator_path ''/wdb'' 7) = Some ''ab''"
proof -
  have c: "slash \<notin> set (stream_address (sample_os\<lparr>close_good := False\<rparr>))" "early (sample_os\<lparr>close_good := False\<rparr>) = 2"
    "write_good (sample_os\<lparr>close_good := False\<rparr>) \<and> rename_good (sample_os\<lparr>close_good := False\<rparr>)
       \<and> \<not> close_good (sample_os\<lparr>close_good := False\<rparr>)"
    by (simp_all add: sample_os_def slash_def)
  have a: "slash \<notin> set (stream_address sample_os)" "early sample_os = 2" by (simp_all add: sample_os_def slash_def)
  have m: "write_states sample_os (PathGenerator_path ''/wdb'' 7) ''abc'' sample_storage ! 3
      \<in> set (write_states sample_os (PathGenerator_path ''/wdb'' 7) ''abc'' sample_storage)"
    by (intro nth_mem) (simp add: write_states_def Let_def sample_os_def)
  from write_crash_states [OF a(1), of "''/wdb''" 7 "''abc''" sample_storage "\<lambda>_ _. Spi_other"] m a(2)
    write_crash_states [OF c(1), of "''/wdb''" 7 "''abc''" sample_storage "\<lambda>_ _. Spi_other"] c(2,3) sample_ready
  show ?thesis by simp
qed

lemma removable_branch: "removable E os refs base p f \<Longrightarrow> same_path (branch_path p) base"
  by (auto simp: removable_def PathGenerator_reverse_def split: sum.splits if_splits)

lemma removable_sort [simp]: "removable E os (sort refs) = removable E os refs"
  by (auto simp: fun_eq_iff removable_def split: sum.split)

text \<open>C17: the clean-up removes exactly the blobs that are not referenced and more than an hour old,
  and counts them; in particular no file of a referenced id is touched, whatever its age, and no file
  that is not a blob.\<close>

theorem cleanup_removes_exactly:
  assumes "documented E" and "base_ok base" and "ready st base" and "files_ok st"
  shows "\<exists>s. removeUnreferencedFiles E S os refs st = Inr s
    \<and> files (swept s) = filter (\<lambda>(p, f). \<not> removable E os refs base p f) (files st)
    \<and> removed_count s + length (files (swept s)) = length (files st)
    \<and> (\<forall>i \<in> set refs. file_id i \<longrightarrow>
        content_of (swept s) (PathGenerator_path base i) = content_of st (PathGenerator_path base i))"
proof -
  let ?s0 = "\<lparr>swept = st, removed_count = 0, sweep_warning = [], sweep_skipped = []\<rparr>"
  let ?ps = "directory_entries st base"
  define s where "s = sweep_entries E os (sort refs) ?ps ?s0"
  have r: "removeUnreferencedFiles E S os refs st = Inr s"
    by (simp add: removeUnreferencedFiles_def ready_simps [OF assms(3)] s_def)
  have ps: "set ?ps \<subseteq> fst ` set (files st)" "distinct ?ps"
    using assms(4) by (auto simp: directory_entries_def files_ok_def)
  have all: "p \<in> set ?ps" if "(p, f) \<in> set (files st)" "removable E os refs base p f" for p f
    using that removable_branch by (force simp: directory_entries_def)
  have pre: "files_ok (swept ?s0)" "base_path (swept ?s0) = Some base" "sorted (sort refs)"
      "set ?ps \<subseteq> fst ` set (files (swept ?s0))"
    using assms(4) ps(1) ready_simps(4) [OF assms(3)] by simp_all
  note sw = sweep_entries_files [OF pre ps(2), of E os, folded s_def]
  have "files (swept s) = filter (\<lambda>(q, f). \<not> (q \<in> set ?ps \<and> removable E os refs base q f)) (files st)"
    using sw [THEN conjunct1] by simp
  also have "\<dots> = filter (\<lambda>(p, f). \<not> removable E os refs base p f) (files st)"
    using all by (intro filter_cong refl) auto
  finally have fs: "files (swept s) = filter (\<lambda>(p, f). \<not> removable E os refs base p f) (files st)" .
  have cnt: "removed_count s + length (files (swept s)) = length (files st)"
    using sw [THEN conjunct2] by simp
  have "content_of (swept s) (PathGenerator_path base i) = content_of st (PathGenerator_path base i)"
    if "i \<in> set refs" "file_id i" for i
  proof -
    have "\<not> removable E os refs base (PathGenerator_path base i) f" for f
      using that blob_name_reverse [OF assms(1,2) that(2)] by (simp add: removable_def)
    then have "map_of (filter (\<lambda>(p, f). \<not> removable E os refs base p f) xs) (PathGenerator_path base i)
        = map_of xs (PathGenerator_path base i)" for xs
      by (induction xs) auto
    then show ?thesis by (simp add: content_of_def fs)
  qed
  with r fs cnt show ?thesis by blast
qed

theorem cleanup_removes_exactly_witness:
  "\<exists>s. removeUnreferencedFiles (boost_ref :: unit boost) (\<lambda>_ _. Spi_other) sample_os [7, 3] sample_storage = Inr s
     \<and> content_of (swept s) (PathGenerator_path ''/wdb'' 7) = Some ''old''"
proof -
  have hyps: "documented (boost_ref :: unit boost)" "base_ok ''/wdb''" "files_ok sample_storage" "file_id 7"
    by (simp_all add: base_ok_def slash_def files_ok_def sample_storage_def file_id_def)
  have "content_of sample_storage (PathGenerator_path ''/wdb'' 7) = Some ''old''"
    by (simp add: content_of_def sample_storage_def)
  with cleanup_removes_exactly [OF hyps(1,2) sample_ready hyps(3), of "\<lambda>_ _. Spi_other" sample_os "[7, 3]"] hyps(4)
  show ?thesis by fastforce
qed

text \<open>C18: reading a whole file of floats agrees with reading it float by float: it gives one float for
  every four bytes, each the one at its index, and the next index is out of range; negative indexes are
  errors too.\<close>

theorem read_floats_by_index:
  "length (read_floats c 0) = length c div 4
   \<and> readFloat_at (Some c) index = (if index < 0 then Inl (Runtime_error ''Error when reading file'')
      else if nat index < length (read_floats c 0) then Inr (read_floats c 0 ! nat index)
      else Inl (End_of_file (''File index '' @ show_int index @ '' is out of range for file.'')))"
proof -
  have n: "length (read_floats c 0) = length c div 4" using read_floats_nth [of c 0] by simp
  have "readFloat_at (Some c) index = Inr (read_floats c 0 ! nat index)"
    if "0 \<le> index" "nat index < length c div 4"
    using that read_floats_nth [of c 0] by (simp add: readFloat_at_def mult.commute)
  moreover have "readFloat_at (Some c) index = Inl (End_of_file (''File index '' @ show_int index @ '' is out of range for file.''))"
    if "0 \<le> index" "\<not> nat index < length c div 4"
  proof -
    have "\<not> nat index * 4 + 4 \<le> length c" using that(2) by linarith
    with that(1) show ?thesis by (simp add: readFloat_at_def readFloat_next_def)
  qed
  moreover have "readFloat_at (Some c) index = Inl (Runtime_error ''Error when reading file'')" if "index < 0"
    using that by (simp add: readFloat_at_def reading_error_def)
  ultimately show ?thesis using n by simp
qed

end
