(* ===== verification/OrderedMap.thy ===== *)
theory OrderedMap
  imports Projection
begin

text \<open>
  \<open>std::map\<close> with a comparison function, as the geometry caches use it. A key is found when
  neither compares less than the other, so the map behaves as one with these equivalence classes as
  keys as long as the comparison is a strict weak ordering of the keys in use; a \<open>double\<close> that is
  not a number breaks that. The contract is a locale; the comparisons of the code are interpreted on
  the keys without NaN.
\<close>

fun map_find :: "('k \<Rightarrow> 'k \<Rightarrow> bool) \<Rightarrow> 'k \<Rightarrow> ('k \<times> 'v) list \<Rightarrow> 'v option" where
  "map_find lt k [] = None"
| "map_find lt k ((k', v) # m) = (if \<not> lt k k' \<and> \<not> lt k' k then Some v else map_find lt k m)"

text \<open>\<open>m[k] = v\<close>.\<close>

fun map_assign :: "('k \<Rightarrow> 'k \<Rightarrow> bool) \<Rightarrow> 'k \<Rightarrow> 'v \<Rightarrow> ('k \<times> 'v) list \<Rightarrow> ('k \<times> 'v) list" where
  "map_assign lt k v [] = [(k, v)]"
| "map_assign lt k v ((k', w) # m) =
     (if \<not> lt k k' \<and> \<not> lt k' k then (k', v) # m else (k', w) # map_assign lt k v m)"

locale key_order =
  fixes lt :: "'k \<Rightarrow> 'k \<Rightarrow> bool" and same :: "'k \<Rightarrow> 'k \<Rightarrow> bool" and valid :: "'k \<Rightarrow> bool"
  assumes lt_irrefl: "valid a \<Longrightarrow> \<not> lt a a"
    and lt_trans: "valid a \<Longrightarrow> valid b \<Longrightarrow> valid c \<Longrightarrow> lt a b \<Longrightarrow> lt b c \<Longrightarrow> lt a c"
    and lt_same: "valid a \<Longrightarrow> valid b \<Longrightarrow> \<not> lt a b \<and> \<not> lt b a \<longleftrightarrow> same a b"
    and same_sym: "same a b \<Longrightarrow> same b a"
    and same_trans: "same a b \<Longrightarrow> same b c \<Longrightarrow> same a c"
begin

definition keys_ok :: "('k \<times> 'v) list \<Rightarrow> bool" where
  "keys_ok m \<longleftrightarrow> (\<forall>(k, v) \<in> set m. valid k)"

lemma keys_ok_simps [simp]: "keys_ok []" "keys_ok ((k, v) # m) \<longleftrightarrow> valid k \<and> keys_ok m"
  by (simp_all add: keys_ok_def)

lemma keys_ok_assign: "keys_ok m \<Longrightarrow> valid k \<Longrightarrow> keys_ok (map_assign lt k v m)"
  by (induction lt k v m rule: map_assign.induct) auto

lemma find_assign:
  "keys_ok m \<Longrightarrow> valid k \<Longrightarrow> valid k' \<Longrightarrow>
    map_find lt k' (map_assign lt k v m) = (if same k' k then Some v else map_find lt k' m)"
proof (induction m)
  case Nil
  then show ?case using lt_same [of k' k] by auto
next
  case (Cons a m)
  obtain q w where a: "a = (q, w)" by (cases a)
  with Cons.prems have q: "valid q" "keys_ok m" by simp_all
  show ?case
  proof (cases "same k q")
    case True
    have "same k' q \<longleftrightarrow> same k' k" using True same_sym same_trans by blast
    with True a q Cons.prems lt_same [of k q] lt_same [of k' q] show ?thesis by simp
  next
    case False
    have "same k' q \<Longrightarrow> \<not> same k' k" using False same_sym same_trans by blast
    with False a q Cons lt_same [of k q] lt_same [of k' q] show ?thesis by auto
  qed
qed

lemma find_same: "keys_ok m \<Longrightarrow> valid k \<Longrightarrow> valid k' \<Longrightarrow> same k k' \<Longrightarrow> map_find lt k m = map_find lt k' m"
proof (induction m)
  case (Cons a m)
  obtain q w where a: "a = (q, w)" by (cases a)
  have "same k q \<longleftrightarrow> same k' q" using Cons.prems(4) same_sym same_trans by blast
  with a Cons lt_same [of k q] lt_same [of k' q] show ?case by simp
qed simp

lemma find_SomeD: "map_find lt k m = Some v \<Longrightarrow> keys_ok m \<Longrightarrow> valid k \<Longrightarrow> \<exists>k'. (k', v) \<in> set m \<and> same k k'"
proof (induction m)
  case (Cons a m)
  obtain q w where a: "a = (q, w)" by (cases a)
  show ?case
  proof (cases "\<not> lt k q \<and> \<not> lt q k")
    case True
    with a Cons.prems lt_same [of k q] show ?thesis by auto
  next
    case False
    then have "map_find lt k m = Some v" using a Cons.prems(1) by (auto split: if_splits)
    with Cons.IH Cons.prems a show ?thesis by auto
  qed
qed simp

end

section \<open>The comparisons of the code\<close>

text \<open>\<open>strcmp(a, b) < 0\<close>: unsigned characters, ended by the terminator.\<close>

fun strcmp_less :: "string \<Rightarrow> string \<Rightarrow> bool" where
  "strcmp_less a [] = False"
| "strcmp_less [] (y # ys) = True"
| "strcmp_less (x # xs) (y # ys) = (if x \<noteq> y then code x < code y else strcmp_less xs ys)"

definition ltPlaceSpecification :: "PlaceSpecification \<Rightarrow> PlaceSpecification \<Rightarrow> bool" where
  "ltPlaceSpecification a b =
     (if \<not> feq (startX a) (startX b) then flt (startX a) (startX b)
      else if \<not> feq (startY a) (startY b) then flt (startY a) (startY b)
      else if xNumber a \<noteq> xNumber b then xNumber a < xNumber b
      else if yNumber a \<noteq> yNumber b then yNumber a < yNumber b
      else if \<not> feq (xIncrement a) (xIncrement b) then flt (xIncrement a) (xIncrement b)
      else if \<not> feq (yIncrement a) (yIncrement b) then flt (yIncrement a) (yIncrement b)
      else strcmp_less (projDefinition a) (projDefinition b))"

text \<open>\<open>std::pair<double, double>\<close>.\<close>

definition lt_pair :: "point \<Rightarrow> point \<Rightarrow> bool" where
  "lt_pair a b \<longleftrightarrow> flt (fst a) (fst b) \<or> \<not> flt (fst b) (fst a) \<and> flt (snd a) (snd b)"

text \<open>\<open>GEOSGeomCmp\<close> on the coordinate sequences of two geometries. Both sizes are taken from the
  first one, so the comparison of the sizes never decides; reading beyond the second sequence is
  undefined.\<close>

fun compare_coordinates :: "fp list \<Rightarrow> fp list \<Rightarrow> bool option res" where
  "compare_coordinates [] bs = Inr None"
| "compare_coordinates (a # as) [] = Inl (Undefined ''an uninitialised coordinate is compared'')"
| "compare_coordinates (a # as) (b # bs) =
     (if \<not> feq a b then Inr (Some (flt a b)) else compare_coordinates as bs)"

definition GEOSGeomCmp :: "point list \<Rightarrow> point list \<Rightarrow> bool res" where
  "GEOSGeomCmp a b =
     bindE (compare_coordinates (map fst a) (map fst b)) (\<lambda>x.
     case x of Some r \<Rightarrow> Inr r
     | None \<Rightarrow> bindE (compare_coordinates (map snd a) (map snd b)) (\<lambda>y.
         case y of Some r \<Rightarrow> Inr r | None \<Rightarrow> Inr False))"

definition geom_less :: "point list \<Rightarrow> point list \<Rightarrow> bool" where
  "geom_less a b \<longleftrightarrow> GEOSGeomCmp a b = Inr True"

section \<open>They are strict weak orderings\<close>

definition orders :: "('k \<Rightarrow> bool) \<Rightarrow> ('k \<Rightarrow> 'k \<Rightarrow> bool) \<Rightarrow> ('k \<Rightarrow> 'k \<Rightarrow> bool) \<Rightarrow> bool" where
  "orders valid lt same \<longleftrightarrow>
     (\<forall>a. valid a \<longrightarrow> \<not> lt a a)
   \<and> (\<forall>a b c. valid a \<longrightarrow> valid b \<longrightarrow> valid c \<longrightarrow> lt a b \<longrightarrow> lt b c \<longrightarrow> lt a c)
   \<and> (\<forall>a b. valid a \<longrightarrow> valid b \<longrightarrow> (\<not> lt a b \<and> \<not> lt b a \<longleftrightarrow> same a b))"

lemma orders_lex:
  assumes f: "orders (\<lambda>x. \<exists>a. valid a \<and> x = f a) R (=)" and rest: "orders valid lt same"
    and same: "\<And>a b c. same a b \<Longrightarrow> same b c \<Longrightarrow> same a c"
  shows "orders valid (\<lambda>a b. if f a \<noteq> f b then R (f a) (f b) else lt a b) (\<lambda>a b. f a = f b \<and> same a b)"
proof -
  have irr: "valid a \<Longrightarrow> \<not> R (f a) (f a)" for a using f unfolding orders_def by blast
  have tr: "valid a \<Longrightarrow> valid b \<Longrightarrow> valid c \<Longrightarrow> R (f a) (f b) \<Longrightarrow> R (f b) (f c) \<Longrightarrow> R (f a) (f c)" for a b c
    using f unfolding orders_def by blast
  have tot: "valid a \<Longrightarrow> valid b \<Longrightarrow> \<not> R (f a) (f b) \<and> \<not> R (f b) (f a) \<longleftrightarrow> f a = f b" for a b
    using f unfolding orders_def by blast
  have r: "valid a \<Longrightarrow> \<not> lt a a" "valid a \<Longrightarrow> valid b \<Longrightarrow> valid c \<Longrightarrow> lt a b \<Longrightarrow> lt b c \<Longrightarrow> lt a c"
      "valid a \<Longrightarrow> valid b \<Longrightarrow> \<not> lt a b \<and> \<not> lt b a \<longleftrightarrow> same a b" for a b c
    using rest unfolding orders_def by blast+
  show ?thesis
    unfolding orders_def
  proof (intro conjI allI impI)
    fix a b c
    assume v: "valid a" "valid b" "valid c"
      and ab: "if f a \<noteq> f b then R (f a) (f b) else lt a b" and bc: "if f b \<noteq> f c then R (f b) (f c) else lt b c"
    show "if f a \<noteq> f c then R (f a) (f c) else lt a c"
    proof (cases "f a = f b \<or> f b = f c")
      case True
      then show ?thesis using ab bc r(2) [OF v] by (auto split: if_splits)
    next
      case False
      with ab bc have "R (f a) (f b)" "R (f b) (f c)" by simp_all
      from tr [OF v this] irr [OF v(1)] show ?thesis by auto
    qed
  next
    fix a b
    assume v: "valid a" "valid b"
    show "\<not> (if f a \<noteq> f b then R (f a) (f b) else lt a b) \<and> \<not> (if f b \<noteq> f a then R (f b) (f a) else lt b a)
        \<longleftrightarrow> f a = f b \<and> same a b"
      using tot [OF v] r(3) [OF v] by auto
  qed (use r(1) in simp)
qed

lemma flt_orders: "orders (\<lambda>x. x \<noteq> NaN) flt (=)"
proof -
  have "flt a b \<Longrightarrow> flt b c \<Longrightarrow> flt a c" for a b c by (cases a; cases b; cases c) auto
  moreover have "a \<noteq> NaN \<Longrightarrow> b \<noteq> NaN \<Longrightarrow> \<not> flt a b \<and> \<not> flt b a \<longleftrightarrow> a = b" for a b
    by (cases a; cases b) auto
  moreover have "\<not> flt a a" for a by (cases a) auto
  ultimately show ?thesis unfolding orders_def by blast
qed

lemma orders_sub: "orders V lt same \<Longrightarrow> (\<And>x. W x \<Longrightarrow> V x) \<Longrightarrow> orders W lt same"
  unfolding orders_def by (elim conjE, intro conjI allI impI) metis+

lemma strcmp_orders: "orders (\<lambda>_. True) strcmp_less (=)"
proof -
  have irr: "\<not> strcmp_less a a" for a by (induction a) auto
  have tr: "strcmp_less a b \<Longrightarrow> strcmp_less b c \<Longrightarrow> strcmp_less a c" for a b c
  proof (induction a b arbitrary: c rule: strcmp_less.induct)
    case (2 y ys)
    then show ?case by (cases c) auto
  next
    case (3 x xs y ys)
    then show ?case by (cases c) (auto split: if_splits)
  qed simp
  have tot: "\<not> strcmp_less a b \<and> \<not> strcmp_less b a \<longleftrightarrow> a = b" for a b
  proof (induction a b rule: strcmp_less.induct)
    case (1 a)
    then show ?case by (cases a) auto
  next
    case (3 x xs y ys)
    have "code x = code y \<longleftrightarrow> x = y" by (simp add: code_of_nat)
    with 3 show ?case by auto
  qed simp
  show ?thesis unfolding orders_def using irr tr tot by blast
qed

lemma orders_key_order:
  assumes "orders valid lt same" and "\<And>a b. same a b \<Longrightarrow> same b a" and "\<And>a b c. same a b \<Longrightarrow> same b c \<Longrightarrow> same a c"
  shows "key_order lt same valid"
proof
  note o = assms(1) [unfolded orders_def]
  show "valid a \<Longrightarrow> \<not> lt a a" for a using o by blast
  show "valid a \<Longrightarrow> valid b \<Longrightarrow> valid c \<Longrightarrow> lt a b \<Longrightarrow> lt b c \<Longrightarrow> lt a c" for a b c
    using o [THEN conjunct2, THEN conjunct1] by blast
  show "valid a \<Longrightarrow> valid b \<Longrightarrow> (\<not> lt a b \<and> \<not> lt b a) = same a b" for a b
    using o [THEN conjunct2, THEN conjunct2] by blast
qed (use assms(2,3) in blast)+

text \<open>Place specifications: no NaN in the four coordinates; the SRID is not compared.\<close>

definition place_valid :: "PlaceSpecification \<Rightarrow> bool" where
  "place_valid p \<longleftrightarrow> startX p \<noteq> NaN \<and> startY p \<noteq> NaN \<and> xIncrement p \<noteq> NaN \<and> yIncrement p \<noteq> NaN"

definition same_grid :: "PlaceSpecification \<Rightarrow> PlaceSpecification \<Rightarrow> bool" where
  "same_grid a b \<longleftrightarrow> startX a = startX b \<and> startY a = startY b \<and> xNumber a = xNumber b \<and> yNumber a = yNumber b
     \<and> xIncrement a = xIncrement b \<and> yIncrement a = yIncrement b \<and> projDefinition a = projDefinition b"

lemma word_orders: "orders (\<lambda>_. True) (\<lambda>a b :: 32 word. a < b) (=)"
  unfolding orders_def by (auto simp: not_less)

lemma place_orders:
  "orders place_valid (\<lambda>a b.
     if startX a \<noteq> startX b then flt (startX a) (startX b)
     else if startY a \<noteq> startY b then flt (startY a) (startY b)
     else if xNumber a \<noteq> xNumber b then xNumber a < xNumber b
     else if yNumber a \<noteq> yNumber b then yNumber a < yNumber b
     else if xIncrement a \<noteq> xIncrement b then flt (xIncrement a) (xIncrement b)
     else if yIncrement a \<noteq> yIncrement b then flt (yIncrement a) (yIncrement b)
     else if projDefinition a \<noteq> projDefinition b then strcmp_less (projDefinition a) (projDefinition b) else False) same_grid"
proof -
  have base: "orders place_valid (\<lambda>_ _. False) (\<lambda>_ _. True)" by (simp add: orders_def)
  have fin: "orders (\<lambda>x. \<exists>a. place_valid a \<and> x = f a) flt (=)" if "\<And>a. place_valid a \<Longrightarrow> f a \<noteq> NaN" for f
    by (rule orders_sub [OF flt_orders]) (use that in auto)
  have w: "orders (\<lambda>x. \<exists>a. place_valid a \<and> x = f a) (\<lambda>a b :: 32 word. a < b) (=)" for f
    by (rule orders_sub [OF word_orders]) simp
  have s: "orders (\<lambda>x. \<exists>a. place_valid a \<and> x = f a) strcmp_less (=)" for f
    by (rule orders_sub [OF strcmp_orders]) simp
  show ?thesis
    unfolding same_grid_def conj_assoc
    by (rule orders_lex [OF fin] orders_lex [OF w] | (rule orders_lex [OF s base, simplified]; simp) | (simp add: place_valid_def; fail) | (auto; fail))+
qed

lemma orders_cong:
  assumes "orders valid lt same" and "\<And>a b. valid a \<Longrightarrow> valid b \<Longrightarrow> lt' a b = lt a b"
  shows "orders valid lt' same"
  unfolding orders_def
proof (intro conjI allI impI)
  note o = assms(1) [unfolded orders_def]
  show "\<not> lt' a a" if "valid a" for a using o [THEN conjunct1] that assms(2) by blast
  show "lt' a c" if v: "valid a" "valid b" "valid c" and "lt' a b" "lt' b c" for a b c
    using o [THEN conjunct2, THEN conjunct1, rule_format, OF v] that(4,5) assms(2) v by blast
  show "(\<not> lt' a b \<and> \<not> lt' b a) = same a b" if v: "valid a" "valid b" for a b
    using o [THEN conjunct2, THEN conjunct2, rule_format, OF v] assms(2) v by simp
qed

lemma place_order_fields:
  assumes "place_valid a" and "place_valid b"
  shows "ltPlaceSpecification a b = (
     if startX a \<noteq> startX b then flt (startX a) (startX b)
     else if startY a \<noteq> startY b then flt (startY a) (startY b)
     else if xNumber a \<noteq> xNumber b then xNumber a < xNumber b
     else if yNumber a \<noteq> yNumber b then yNumber a < yNumber b
     else if xIncrement a \<noteq> xIncrement b then flt (xIncrement a) (xIncrement b)
     else if yIncrement a \<noteq> yIncrement b then flt (yIncrement a) (yIncrement b)
     else if projDefinition a \<noteq> projDefinition b then strcmp_less (projDefinition a) (projDefinition b) else False)"
proof -
  have "\<not> strcmp_less s s" for s
    using strcmp_orders by (simp add: orders_def)
  then have last: "strcmp_less (projDefinition a) (projDefinition b) = (if projDefinition a \<noteq> projDefinition b
      then strcmp_less (projDefinition a) (projDefinition b) else False)" by auto
  have eqs: "feq (startX a) (startX b) \<longleftrightarrow> startX a = startX b" "feq (startY a) (startY b) \<longleftrightarrow> startY a = startY b"
    "feq (xIncrement a) (xIncrement b) \<longleftrightarrow> xIncrement a = xIncrement b"
    "feq (yIncrement a) (yIncrement b) \<longleftrightarrow> yIncrement a = yIncrement b"
    using assms by (auto simp: feq_def place_valid_def)
  show ?thesis
    unfolding ltPlaceSpecification_def eqs by (subst last) (rule refl)
qed

interpretation place_order: key_order ltPlaceSpecification same_grid place_valid
  by (rule orders_key_order [OF orders_cong [OF place_orders place_order_fields]])
    (auto simp: same_grid_def)

definition point_valid :: "point \<Rightarrow> bool" where
  "point_valid p \<longleftrightarrow> fst p \<noteq> NaN \<and> snd p \<noteq> NaN"

lemma point_orders:
  "orders point_valid (\<lambda>a b. if fst a \<noteq> fst b then flt (fst a) (fst b)
     else if snd a \<noteq> snd b then flt (snd a) (snd b) else False) (\<lambda>a b. fst a = fst b \<and> snd a = snd b)"
proof -
  have base: "orders point_valid (\<lambda>_ _. False) (\<lambda>_ _. True)" by (simp add: orders_def)
  have 1: "orders (\<lambda>x. \<exists>a. point_valid a \<and> x = fst a) flt (=)" "orders (\<lambda>x. \<exists>a. point_valid a \<and> x = snd a) flt (=)"
    by (rule orders_sub [OF flt_orders]; force simp: point_valid_def)+
  show ?thesis
    by (rule orders_lex [OF 1(1) orders_lex [OF 1(2) base, simplified]]) simp_all
qed

lemma flt_irrefl: "\<not> flt a a"
  by (cases a) auto

lemma flt_total: "a \<noteq> NaN \<Longrightarrow> b \<noteq> NaN \<Longrightarrow> a \<noteq> b \<Longrightarrow> flt b a \<longleftrightarrow> \<not> flt a b"
  by (cases a; cases b) auto

lemma lt_pair_fields: "point_valid a \<Longrightarrow> point_valid b \<Longrightarrow> lt_pair a b = (if fst a \<noteq> fst b then flt (fst a) (fst b)
     else if snd a \<noteq> snd b then flt (snd a) (snd b) else False)"
  using flt_total [of "fst a" "fst b"] by (auto simp: lt_pair_def point_valid_def flt_irrefl)

lemma same_point: "(\<lambda>a b :: point. fst a = fst b \<and> snd a = snd b) = (=)"
  by (auto simp: fun_eq_iff)

interpretation pair_order: key_order lt_pair "(=)" point_valid
  by (rule orders_key_order [OF orders_cong [OF point_orders [unfolded same_point] lt_pair_fields]]) auto

text \<open>Geometries that are single points.\<close>

definition one_point :: "point list \<Rightarrow> bool" where
  "one_point g \<longleftrightarrow> (\<exists>p. g = [p] \<and> point_valid p)"

lemma geom_less_point: "point_valid p \<Longrightarrow> point_valid q \<Longrightarrow>
    GEOSGeomCmp [p] [q] = Inr (if fst p \<noteq> fst q then flt (fst p) (fst q)
      else if snd p \<noteq> snd q then flt (snd p) (snd q) else False)"
  by (cases "fst p = fst q"; cases "snd p = snd q") (simp_all add: GEOSGeomCmp_def feq_def point_valid_def)

interpretation geom_order: key_order geom_less "(=)" one_point
proof -
  have "orders one_point (\<lambda>a b. if fst (hd a) \<noteq> fst (hd b) then flt (fst (hd a)) (fst (hd b))
     else if snd (hd a) \<noteq> snd (hd b) then flt (snd (hd a)) (snd (hd b)) else False) (=)"
    (is "orders _ ?lt _")
    unfolding orders_def
  proof (intro conjI allI impI)
    note o = point_orders [unfolded orders_def]
    fix a assume "one_point a"
    then show "\<not> ?lt a a" by auto
  next
    note o = point_orders [unfolded orders_def, THEN conjunct2, THEN conjunct1, rule_format]
    fix a b c assume "one_point a" "one_point b" "one_point c" and lt: "?lt a b" "?lt b c"
    then obtain p q r where pqr: "a = [p]" "b = [q]" "c = [r]" "point_valid p" "point_valid q" "point_valid r"
      by (auto simp: one_point_def)
    from o [OF pqr(4-6)] lt show "?lt a c" unfolding pqr(1-3) list.sel(1) by blast
  next
    note o = point_orders [unfolded orders_def, THEN conjunct2, THEN conjunct2, rule_format]
    fix a b assume "one_point a" "one_point b"
    then obtain p q where pq: "a = [p]" "b = [q]" "point_valid p" "point_valid q"
      by (auto simp: one_point_def)
    from o [OF pq(3,4)] show "(\<not> ?lt a b \<and> \<not> ?lt b a) = (a = b)"
      unfolding pq(1,2) list.sel(1) by (simp add: prod_eq_iff)
  qed
  then show "key_order geom_less (=) one_point"
    by (rule orders_key_order [OF orders_cong]) (auto simp: one_point_def geom_less_def geom_less_point)
qed

end
