(* ===== verification/GeometryCache.thy ===== *)
theory GeometryCache
  imports OrderedMap FileBlob CacheInterface
begin

text \<open>
  The caches behind the reading of grid points (\<open>GeometryCache.cpp\<close>, \<open>readCache.cpp\<close>) and
  the reader of a grid (\<open>BaseDataReader.cpp\<close>). GEOS is third-party code: a geometry is a value
  of any type, its operations are a record. A geometry used as a key is compared by its coordinate
  sequence. The state of a session is one record; every operation is a call on it. The lemmas say
  when a cached answer is the one that would be computed, and that a point outside the grid is never
  read from the file.
\<close>

section \<open>GEOS\<close>

text \<open>An operation that GEOS refuses goes through the error handler of \<open>wdb_geos.c\<close>, which leaves
  the function; otherwise it returns a value or NULL.\<close>

definition geosLogError :: "string \<Rightarrow> 'a res" where
  "geosLogError fmt = Inl (Ereport ERRCODE_DATA_EXCEPTION fmt)"

record 'g geos =
  GEOSGeomTypeId :: "'g \<Rightarrow> int"
  GEOSGeom_getCoordSeq :: "'g \<Rightarrow> point list option res"
  GEOSCoordSeq_getSize :: "point list \<Rightarrow> nat option res"
  GEOSGeom_createPoint :: "point \<Rightarrow> 'g"
  GEOSIntersects :: "'g \<Rightarrow> 'g \<Rightarrow> int"
  GEOSGetNumGeometries :: "'g \<Rightarrow> nat"
  GEOSGetGeometryN :: "'g \<Rightarrow> nat \<Rightarrow> 'g option"
  GEOSGetExteriorRing :: "'g \<Rightarrow> 'g option res"
  GEOSGeomFromWKT :: "string \<Rightarrow> 'g option"
  GEOSGeomToWKT :: "'g \<Rightarrow> string"

definition GEOS_POINT :: int where "GEOS_POINT = 0"
definition GEOS_POLYGON :: int where "GEOS_POLYGON = 3"
definition GEOS_MULTIPOLYGON :: int where "GEOS_MULTIPOLYGON = 6"

definition coordinates :: "'g geos \<Rightarrow> 'g \<Rightarrow> point list res" where
  "coordinates G g = bindE (GEOSGeom_getCoordSeq G g) (\<lambda>s. case s of
     None \<Rightarrow> Inl (Undefined ''use of a null coordinate sequence'')
   | Some ps \<Rightarrow> Inr ps)"

section \<open>The caches of a session\<close>

record 'g geometry_cache =
  lonLatToGeom :: "(point \<times> 'g) list"
  geomToLonLat :: "(point list \<times> point) list"

record 'g session =
  cache_collection :: "(PlaceSpecification \<times> 'g geometry_cache) list"
  geomToWkt :: "(point list \<times> string) list"
  readerCache :: "(PlaceSpecification \<times> PlaceSpecification) list"
  proj_cache :: projections
  blob_store :: storage

definition empty_geometry_cache :: "'g geometry_cache" where
  "empty_geometry_cache = \<lparr>lonLatToGeom = [], geomToLonLat = []\<rparr>"

definition find_cache :: "PlaceSpecification \<Rightarrow> 'g session \<Rightarrow> 'g geometry_cache" where
  "find_cache ps s = (case map_find ltPlaceSpecification ps (cache_collection s) of
     None \<Rightarrow> empty_geometry_cache
   | Some c \<Rightarrow> c)"

text \<open>\<open>GeometryCache::get\<close> with an update of the cache it returns; a missing one is inserted.\<close>

definition with_cache :: "PlaceSpecification \<Rightarrow> ('g geometry_cache \<Rightarrow> 'g geometry_cache) \<Rightarrow> 'g session \<Rightarrow> 'g session" where
  "with_cache ps f s = s\<lparr>cache_collection :=
     map_assign ltPlaceSpecification ps (f (find_cache ps s)) (cache_collection s)\<rparr>"

definition setGeomCache :: "PlaceSpecification \<Rightarrow> point \<Rightarrow> 'g \<Rightarrow> ('g session, unit) call" where
  "setGeomCache ps xy g = modifyS (with_cache ps (\<lambda>c. c\<lparr>lonLatToGeom := map_assign lt_pair xy g (lonLatToGeom c)\<rparr>))"

definition getGeomFromCache :: "PlaceSpecification \<Rightarrow> point \<Rightarrow> ('g session, 'g option) call" where
  "getGeomFromCache ps xy = bindS (modifyS (with_cache ps (\<lambda>c. c))) (\<lambda>_.
     getS (\<lambda>s. map_find lt_pair xy (lonLatToGeom (find_cache ps s))))"

definition setLLCache :: "'g geos \<Rightarrow> PlaceSpecification \<Rightarrow> 'g \<Rightarrow> point \<Rightarrow> ('g session, unit) call" where
  "setLLCache G ps g ll = bindS (liftS (coordinates G g)) (\<lambda>key.
     modifyS (with_cache ps (\<lambda>c. c\<lparr>geomToLonLat := map_assign geom_less key ll (geomToLonLat c)\<rparr>)))"

definition getLLFromCache :: "'g geos \<Rightarrow> PlaceSpecification \<Rightarrow> 'g \<Rightarrow> ('g session, point option) call" where
  "getLLFromCache G ps g = bindS (liftS (coordinates G g)) (\<lambda>key.
     bindS (modifyS (with_cache ps (\<lambda>c. c))) (\<lambda>_.
     getS (\<lambda>s. map_find geom_less key (geomToLonLat (find_cache ps s)))))"

definition setWktCache :: "'g geos \<Rightarrow> 'g \<Rightarrow> string \<Rightarrow> ('g session, unit) call" where
  "setWktCache G g wkt = bindS (liftS (coordinates G g)) (\<lambda>key.
     modifyS (\<lambda>s. s\<lparr>geomToWkt := map_assign geom_less key wkt (geomToWkt s)\<rparr>))"

definition getWktFromCache :: "'g geos \<Rightarrow> 'g \<Rightarrow> ('g session, string option) call" where
  "getWktFromCache G g = bindS (liftS (coordinates G g)) (\<lambda>key.
     getS (\<lambda>s. map_find geom_less key (geomToWkt s)))"

text \<open>The cache of readers is not cleared.\<close>

definition purgeAllCaches :: "'g session \<Rightarrow> 'g session" where
  "purgeAllCaches s = s\<lparr>cache_collection := [], geomToWkt := []\<rparr>"

section \<open>The reader of a grid\<close>

text \<open>What every read needs: GEOS, PROJ, the queries of the file storage and the system.\<close>

record 'g reading =
  geos_of :: "'g geos"
  proj_of :: proj
  storage_spi :: "string option spi"
  os_of :: os

text \<open>A reader is its place specification; the projection is created with it and may throw.\<close>

definition BaseDataReader_getInstance :: "'g reading \<Rightarrow> PlaceSpecification \<Rightarrow> ('g session, PlaceSpecification) call" where
  "BaseDataReader_getInstance R ps = bindS (getS (\<lambda>s. map_find ltPlaceSpecification ps (readerCache s))) (\<lambda>found.
     case found of
       Some r \<Rightarrow> retS r
     | None \<Rightarrow> bindS (liftS (WdbProjection_new (proj_of R) (projDefinition ps))) (\<lambda>_.
         bindS (modifyS (\<lambda>s. s\<lparr>readerCache := (ps, ps) # readerCache s\<rparr>)) (\<lambda>_. retS ps)))"

definition with_projections :: "(projections \<Rightarrow> 'a res \<times> projections) \<Rightarrow> ('g session, 'a) call" where
  "with_projections f = zoomS proj_cache (\<lambda>p s. s\<lparr>proj_cache := p\<rparr>) f"

definition with_storage :: "(storage \<Rightarrow> 'a res \<times> storage) \<Rightarrow> ('g session, 'a) call" where
  "with_storage f = zoomS blob_store (\<lambda>p s. s\<lparr>blob_store := p\<rparr>) f"

definition getGeometry :: "'g reading \<Rightarrow> PlaceSpecification \<Rightarrow> point \<Rightarrow> ('g session, 'g) call" where
  "getGeometry R ps xy = bindS (getGeomFromCache ps xy) (\<lambda>found.
     case found of
       Some g \<Rightarrow> retS g
     | None \<Rightarrow> bindS (with_projections (\<lambda>pc. wdbTransform (proj_of R) pc (fst xy) (snd xy) (Some ps))) (\<lambda>ll.
         let g = GEOSGeom_createPoint (geos_of R) ll in
         bindS (setGeomCache ps xy g) (\<lambda>_. retS g)))"

definition first_coordinate :: "point list \<Rightarrow> point res" where
  "first_coordinate ps = (case ps of
     [] \<Rightarrow> Inl (Undefined ''coordinates of an empty sequence'')
   | p # _ \<Rightarrow> Inr p)"

definition getExactIndex :: "'g reading \<Rightarrow> PlaceSpecification \<Rightarrow> 'g \<Rightarrow> ('g session, point) call" where
  "getExactIndex R ps location = bindS (getLLFromCache (geos_of R) ps location) (\<lambda>cached.
     case cached of
       Some ll \<Rightarrow> retS ll
     | None \<Rightarrow> bindS (liftS (bindE (coordinates (geos_of R) location) first_coordinate)) (\<lambda>ll.
         bindS (with_projections (\<lambda>pc. rTransform (proj_of R) pc ll (Some ps))) (\<lambda>ret.
         bindS (setLLCache (geos_of R) ps location ret) (\<lambda>_. retS ret))))"

definition unsigned_double :: "32 word \<Rightarrow> fp" where
  "unsigned_double n = of_integer (uint n)"

definition indexRefersToPointOutsideFile :: "PlaceSpecification \<Rightarrow> fp \<Rightarrow> fp \<Rightarrow> bool" where
  "indexRefersToPointOutsideFile ps x y \<longleftrightarrow> flt x (Fin 0) \<or> flt y (Fin 0)
     \<or> fle (unsigned_double (xNumber ps)) x \<or> fle (unsigned_double (yNumber ps)) y"

record 'g GridPointData =
  gp_location :: 'g
  gp_value :: fp
  gp_x :: fp
  gp_y :: fp

text \<open>\<open>readPoint\<close>: \<open>None\<close> when it returns false. The indexes are \<open>int\<close>s.\<close>

definition readPoint :: "'g reading \<Rightarrow> PlaceSpecification \<Rightarrow> int \<Rightarrow> int \<Rightarrow> FileId \<Rightarrow> ('g session, 'g GridPointData option) call" where
  "readPoint R ps x y dataId =
     (if indexRefersToPointOutsideFile ps (of_integer x) (of_integer y) then retS None
      else bindS (getGeometry R ps (of_integer x, of_integer y)) (\<lambda>g.
        bindS (with_storage (readFloatFromFile (storage_spi R) (os_of R) dataId
          (sint (indexFromXy (word_of_int x) (word_of_int y) ps)))) (\<lambda>v.
        retS (Some \<lparr>gp_location = g, gp_value = v, gp_x = of_integer x, gp_y = of_integer y\<rparr>))))"

section \<open>Inside and outside\<close>

lemma uint_less_2_52: "uint (n :: 32 word) < 2 ^ 32"
  using uint_lt2p [of n] by simp

lemma outside_iff:
  assumes "int_range x" and "int_range y"
  shows "\<not> indexRefersToPointOutsideFile ps (of_integer x) (of_integer y)
    \<longleftrightarrow> 0 \<le> x \<and> x < uint (xNumber ps) \<and> 0 \<le> y \<and> y < uint (yNumber ps)"
proof -
  have "\<bar>x\<bar> \<le> 2 ^ 52" "\<bar>y\<bar> \<le> 2 ^ 52"
    using assms by (auto simp: int_range_def INT_MIN_def INT_MAX_def)
  then have xy: "of_integer x = Fin (of_int x)" "of_integer y = Fin (of_int y)"
    by (simp_all add: of_integer_exact)
  have u: "unsigned_double n = Fin (of_int (uint n))" for n
    unfolding unsigned_double_def using uint_less_2_52 [of n] by (intro of_integer_exact) simp
  have le: "fle (Fin (of_int a)) (Fin (of_int b)) \<longleftrightarrow> a \<le> b" for a b
    by (auto simp: fle_def feq_def)
  have neg: "flt (Fin (of_int a)) (Fin 0) \<longleftrightarrow> a < 0" for a by simp
  show ?thesis
    unfolding indexRefersToPointOutsideFile_def xy u le neg by auto
qed

text \<open>Inside a grid of at most \<open>2 ^ 31\<close> points the file index of a point is its number in row order,
  also as an \<open>int\<close>.\<close>

lemma sint_small: "0 \<le> v \<Longrightarrow> v < 2 ^ 31 \<Longrightarrow> sint (word_of_int v :: 32 word) = v"
  by (subst sint_sbintrunc') (simp add: signed_take_bit_int_eq_self)

lemma file_index:
  assumes "0 \<le> x" "x < uint (xNumber ps)" and "0 \<le> y" "y < uint (yNumber ps)"
    and size: "uint (xNumber ps) * uint (yNumber ps) \<le> 2 ^ 31"
  shows "sint (indexFromXy (word_of_int x) (word_of_int y) ps) = y * uint (xNumber ps) + x
    \<and> 0 \<le> y * uint (xNumber ps) + x \<and> y * uint (xNumber ps) + x < uint (xNumber ps) * uint (yNumber ps)"
proof -
  let ?n = "uint (xNumber ps)"
  have "y * ?n + x < (y + 1) * ?n" using assms(2) by (simp add: algebra_simps)
  also have "\<dots> \<le> uint (yNumber ps) * ?n" using assms by (intro mult_right_mono) auto
  finally have b: "y * ?n + x < ?n * uint (yNumber ps)" by (simp add: mult.commute)
  have nn: "0 \<le> y * ?n + x" using assms by (intro add_nonneg_nonneg mult_nonneg_nonneg) auto
  have "indexFromXy (word_of_int x) (word_of_int y) ps = word_of_int (y * ?n + x)"
    by (simp add: indexFromXy_def index_from_xy_def)
  moreover have "sint (word_of_int (y * ?n + x) :: 32 word) = y * ?n + x"
    by (rule sint_small) (use b nn size in linarith)+
  ultimately show ?thesis using b nn by simp
qed

section \<open>The caches are transparent\<close>

text \<open>The answers without a cache.\<close>

definition place_of_index :: "proj \<Rightarrow> PlaceSpecification \<Rightarrow> point \<Rightarrow> point res" where
  "place_of_index P ps xy = fst (wdbTransform P [] (fst xy) (snd xy) (Some ps))"

definition index_of_place :: "proj \<Rightarrow> PlaceSpecification \<Rightarrow> point \<Rightarrow> point res" where
  "index_of_place P ps ll = fst (rTransform P [] ll (Some ps))"

definition cache_ok :: "'g geos \<Rightarrow> proj \<Rightarrow> PlaceSpecification \<Rightarrow> 'g geometry_cache \<Rightarrow> bool" where
  "cache_ok G P ps c \<longleftrightarrow>
     (\<forall>(xy, g) \<in> set (lonLatToGeom c). point_valid xy \<and> mapE (GEOSGeom_createPoint G) (place_of_index P ps xy) = Inr g)
   \<and> (\<forall>(key, ll) \<in> set (geomToLonLat c). one_point key \<and> index_of_place P ps (hd key) = Inr ll)"

definition session_ok :: "'g geos \<Rightarrow> proj \<Rightarrow> 'g session \<Rightarrow> bool" where
  "session_ok G P s \<longleftrightarrow>
     (\<forall>(ps, c) \<in> set (cache_collection s). place_valid ps \<and> cache_ok G P ps c)
   \<and> (\<forall>(ps, r) \<in> set (readerCache s). place_valid ps \<and> r = ps)
   \<and> projection_cache.correct P (proj_cache s)"

lemma cached_transform:
  assumes "projection_cache.correct P pc"
  shows "fst (wdbTransform P pc x y (Some ps)) = place_of_index P ps (x, y)
    \<and> projection_cache.correct P (snd (wdbTransform P pc x y (Some ps)))"
    and "fst (rTransform P pc ll (Some ps)) = index_of_place P ps ll
    \<and> projection_cache.correct P (snd (rTransform P pc ll (Some ps)))"
proof -
  have e: "projection_cache.correct P []" by simp
  show "fst (wdbTransform P pc x y (Some ps)) = place_of_index P ps (x, y)
      \<and> projection_cache.correct P (snd (wdbTransform P pc x y (Some ps)))"
    using reproject_cached [OF assms] reproject_cached [OF e]
    by (simp add: wdbTransform_def place_of_index_def transform_points_def Let_def case_prod_beta)
  show "fst (rTransform P pc ll (Some ps)) = index_of_place P ps ll
      \<and> projection_cache.correct P (snd (rTransform P pc ll (Some ps)))"
    using reproject_cached [OF assms] reproject_cached [OF e]
    by (simp add: rTransform_def index_of_place_def Let_def case_prod_beta)
qed

lemma same_grid_answers:
  assumes "same_grid a b"
  shows "place_of_index P a = place_of_index P b" and "index_of_place P a = index_of_place P b"
  using assms by (auto simp: fun_eq_iff place_of_index_def index_of_place_def wdbTransform_def rTransform_def
      transform_points_def grid_coordinate_def same_grid_def Let_def)

lemma cache_ok_same: "same_grid a b \<Longrightarrow> cache_ok G P a c = cache_ok G P b c"
  by (simp add: cache_ok_def same_grid_answers)

lemma find_cache_ok:
  assumes "session_ok G P s" and "place_valid ps"
  shows "cache_ok G P ps (find_cache ps s)"
proof (cases "map_find ltPlaceSpecification ps (cache_collection s)")
  case None
  then show ?thesis by (simp add: find_cache_def cache_ok_def empty_geometry_cache_def)
next
  case (Some c)
  have "place_order.keys_ok (cache_collection s)"
    using assms(1) by (auto simp: session_ok_def place_order.keys_ok_def)
  from place_order.find_SomeD [OF Some this assms(2)] obtain k where "(k, c) \<in> set (cache_collection s)" "same_grid ps k"
    by blast
  with assms(1) cache_ok_same [of ps k G P c] have "cache_ok G P ps c" by (auto simp: session_ok_def)
  with Some show ?thesis by (simp add: find_cache_def)
qed

lemma assign_all:
  assumes "\<forall>(k, c) \<in> set m. Q k c" and "Q ps c0" and "\<And>k. \<not> lt ps k \<Longrightarrow> \<not> lt k ps \<Longrightarrow> k \<in> fst ` set m \<Longrightarrow> Q k c0"
  shows "\<forall>(k, c) \<in> set (map_assign lt ps c0 m). Q k c"
  using assms by (induction lt ps c0 m rule: map_assign.induct) auto

lemma with_cache_ok:
  assumes s: "session_ok G P s" and ps: "place_valid ps"
    and f: "cache_ok G P ps (find_cache ps s) \<Longrightarrow> cache_ok G P ps (f (find_cache ps s))"
  shows "session_ok G P (with_cache ps f s)" and "find_cache ps (with_cache ps f s) = f (find_cache ps s)"
proof -
  let ?c = "f (find_cache ps s)"
  have c: "cache_ok G P ps ?c" by (rule f [OF find_cache_ok [OF s ps]])
  have keys: "place_order.keys_ok (cache_collection s)"
    using s by (auto simp: session_ok_def place_order.keys_ok_def)
  have "\<forall>(k, c) \<in> set (map_assign ltPlaceSpecification ps ?c (cache_collection s)). place_valid k \<and> cache_ok G P k c"
  proof (rule assign_all)
    show "\<forall>(k, c) \<in> set (cache_collection s). place_valid k \<and> cache_ok G P k c"
      using s by (simp add: session_ok_def)
    show "place_valid ps \<and> cache_ok G P ps ?c" using ps c by simp
    fix k
    assume k: "\<not> ltPlaceSpecification ps k" "\<not> ltPlaceSpecification k ps" "k \<in> fst ` set (cache_collection s)"
    then have "place_valid k" using s by (auto simp: session_ok_def)
    with place_order.lt_same [OF ps this] k(1,2) cache_ok_same [of ps k G P ?c] c show "place_valid k \<and> cache_ok G P k ?c" by simp
  qed
  then show "session_ok G P (with_cache ps f s)"
    using s by (simp add: session_ok_def with_cache_def)
  show "find_cache ps (with_cache ps f s) = ?c"
    using place_order.find_assign [OF keys ps ps, of ?c]
    unfolding find_cache_def [of ps "with_cache ps f s"] by (simp add: with_cache_def same_grid_def)
qed

lemma with_projections_ok:
  assumes "session_ok G P s" and "fst (f (proj_cache s)) = r \<and> projection_cache.correct P (snd (f (proj_cache s)))"
  shows "\<exists>s1. with_projections f s = (r, s1) \<and> session_ok G P s1 \<and> cache_collection s1 = cache_collection s
    \<and> blob_store s1 = blob_store s"
  using assms by (cases "f (proj_cache s)") (auto simp: with_projections_def zoomS_def session_ok_def)

lemma find_cache_cong: "cache_collection s = cache_collection t \<Longrightarrow> find_cache ps s = find_cache ps t"
  by (simp add: find_cache_def)

lemma assign_in: "x \<in> set (map_assign lt k v m) \<Longrightarrow> (\<exists>q. x = (q, v) \<and> \<not> lt k q \<and> \<not> lt q k \<and> q \<in> fst ` set m) \<or> x = (k, v) \<or> x \<in> set m"
  by (induction lt k v m rule: map_assign.induct) (auto split: if_splits)

lemma cache_ok_geom:
  assumes c: "cache_ok G P ps c" and xy: "point_valid xy"
    and g: "mapE (GEOSGeom_createPoint G) (place_of_index P ps xy) = Inr g"
  shows "cache_ok G P ps (c\<lparr>lonLatToGeom := map_assign lt_pair xy g (lonLatToGeom c)\<rparr>)"
proof -
  have "\<forall>(q, v) \<in> set (map_assign lt_pair xy g (lonLatToGeom c)).
      point_valid q \<and> mapE (GEOSGeom_createPoint G) (place_of_index P ps q) = Inr v"
  proof (rule assign_all)
    fix k
    assume k: "\<not> lt_pair xy k" "\<not> lt_pair k xy" "k \<in> fst ` set (lonLatToGeom c)"
    then have "point_valid k" using c by (auto simp: cache_ok_def)
    with pair_order.lt_same [OF xy this] k have "k = xy" by simp
    then show "point_valid k \<and> mapE (GEOSGeom_createPoint G) (place_of_index P ps k) = Inr g" using xy g by simp
  qed (use c xy g in \<open>simp_all add: cache_ok_def\<close>)
  then show ?thesis using c by (simp add: cache_ok_def)
qed

lemma cache_ok_ll:
  assumes c: "cache_ok G P ps c" and key: "one_point key" and ll: "index_of_place P ps (hd key) = Inr ll"
  shows "cache_ok G P ps (c\<lparr>geomToLonLat := map_assign geom_less key ll (geomToLonLat c)\<rparr>)"
proof -
  have "\<forall>(q, v) \<in> set (map_assign geom_less key ll (geomToLonLat c)). one_point q \<and> index_of_place P ps (hd q) = Inr v"
  proof (rule assign_all)
    fix k
    assume k: "\<not> geom_less key k" "\<not> geom_less k key" "k \<in> fst ` set (geomToLonLat c)"
    then have "one_point k" using c by (auto simp: cache_ok_def)
    with geom_order.lt_same [OF key this] k have "k = key" by simp
    then show "one_point k \<and> index_of_place P ps (hd k) = Inr ll" using key ll by simp
  qed (use c key ll in \<open>simp_all add: cache_ok_def\<close>)
  then show ?thesis using c by (simp add: cache_ok_def)
qed

lemma getGeometry_ok:
  assumes s: "session_ok (geos_of R) (proj_of R) s" and ps: "place_valid ps" and xy: "point_valid xy"
  shows "fst (getGeometry R ps xy s) = mapE (GEOSGeom_createPoint (geos_of R)) (place_of_index (proj_of R) ps xy)
    \<and> session_ok (geos_of R) (proj_of R) (snd (getGeometry R ps xy s))"
proof -
  let ?G = "geos_of R" and ?P = "proj_of R"
  define s1 where "s1 = with_cache ps (\<lambda>c. c) s"
  have s1: "session_ok ?G ?P s1" "find_cache ps s1 = find_cache ps s"
    unfolding s1_def by (rule with_cache_ok [OF s ps]; simp)+
  have get: "getGeomFromCache ps xy s = (Inr (map_find lt_pair xy (lonLatToGeom (find_cache ps s))), s1)"
    using s1(2) by (simp add: getGeomFromCache_def bindS_def s1_def [symmetric])
  have c: "cache_ok ?G ?P ps (find_cache ps s)" by (rule find_cache_ok [OF s ps])
  show ?thesis
  proof (cases "map_find lt_pair xy (lonLatToGeom (find_cache ps s))")
    case (Some g)
    have "pair_order.keys_ok (lonLatToGeom (find_cache ps s))"
      using c by (auto simp: cache_ok_def pair_order.keys_ok_def)
    from pair_order.find_SomeD [OF Some this xy] c have "mapE (GEOSGeom_createPoint ?G) (place_of_index ?P ps xy) = Inr g"
      by (auto simp: cache_ok_def)
    with get Some s1(1) show ?thesis by (simp add: getGeometry_def bindS_Inr)
  next
    case None
    have pc: "projection_cache.correct ?P (proj_cache s1)" using s1(1) by (simp add: session_ok_def)
    have tr: "fst (wdbTransform ?P (proj_cache s1) (fst xy) (snd xy) (Some ps)) = place_of_index ?P ps xy
        \<and> projection_cache.correct ?P (snd (wdbTransform ?P (proj_cache s1) (fst xy) (snd xy) (Some ps)))"
      using cached_transform(1) [OF pc, of "fst xy" "snd xy" ps] by simp
    obtain s2 where s2: "with_projections (\<lambda>pc. wdbTransform ?P pc (fst xy) (snd xy) (Some ps)) s1
        = (place_of_index ?P ps xy, s2)" "session_ok ?G ?P s2" "cache_collection s2 = cache_collection s1"
      using with_projections_ok [OF s1(1), where f = "\<lambda>pc. wdbTransform ?P pc (fst xy) (snd xy) (Some ps)", OF tr] by blast
    show ?thesis
    proof (cases "place_of_index ?P ps xy")
      case (Inl e)
      with get None s2 show ?thesis by (simp add: getGeometry_def bindS_Inr bindS_Inl)
    next
      case (Inr ll)
      have "session_ok ?G ?P (with_cache ps (\<lambda>c. c\<lparr>lonLatToGeom :=
          map_assign lt_pair xy (GEOSGeom_createPoint ?G ll) (lonLatToGeom c)\<rparr>) s2)"
        by (rule with_cache_ok(1) [OF s2(2) ps]) (use Inr in \<open>simp add: cache_ok_geom [OF _ xy]\<close>)
      with get None s2(1) Inr show ?thesis
        by (simp add: getGeometry_def bindS_Inr setGeomCache_def Let_def)
    qed
  qed
qed

lemma getExactIndex_ok:
  assumes s: "session_ok (geos_of R) (proj_of R) s" and ps: "place_valid ps"
    and loc: "GEOSGeom_getCoordSeq (geos_of R) location = Inr (Some [ll])" "point_valid ll"
  shows "fst (getExactIndex R ps location s) = index_of_place (proj_of R) ps ll
    \<and> session_ok (geos_of R) (proj_of R) (snd (getExactIndex R ps location s))"
proof -
  let ?G = "geos_of R" and ?P = "proj_of R"
  define s1 where "s1 = with_cache ps (\<lambda>c. c) s"
  have s1: "session_ok ?G ?P s1" "find_cache ps s1 = find_cache ps s"
    unfolding s1_def by (rule with_cache_ok [OF s ps]; simp)+
  have co: "coordinates ?G location = Inr [ll]" using loc(1) by (simp add: coordinates_def)
  have key: "one_point [ll]" using loc(2) by (simp add: one_point_def)
  have get: "getLLFromCache ?G ps location s = (Inr (map_find geom_less [ll] (geomToLonLat (find_cache ps s))), s1)"
    using s1(2) co by (simp add: getLLFromCache_def bindS_def s1_def [symmetric])
  have c: "cache_ok ?G ?P ps (find_cache ps s)" by (rule find_cache_ok [OF s ps])
  show ?thesis
  proof (cases "map_find geom_less [ll] (geomToLonLat (find_cache ps s))")
    case (Some r)
    have "geom_order.keys_ok (geomToLonLat (find_cache ps s))"
      using c by (auto simp: cache_ok_def geom_order.keys_ok_def)
    from geom_order.find_SomeD [OF Some this key] c have "index_of_place ?P ps ll = Inr r"
      by (auto simp: cache_ok_def)
    with get Some s1(1) show ?thesis by (simp add: getExactIndex_def bindS_Inr)
  next
    case None
    have first: "liftS (bindE (coordinates ?G location) first_coordinate) s1 = (Inr ll, s1)"
      using co by (simp add: first_coordinate_def)
    have pc: "projection_cache.correct ?P (proj_cache s1)" using s1(1) by (simp add: session_ok_def)
    obtain s2 where s2: "with_projections (\<lambda>pc. rTransform ?P pc ll (Some ps)) s1
        = (index_of_place ?P ps ll, s2)" "session_ok ?G ?P s2" "cache_collection s2 = cache_collection s1"
      using with_projections_ok [OF s1(1), where f = "\<lambda>pc. rTransform ?P pc ll (Some ps)", OF cached_transform(2) [OF pc]] by blast
    show ?thesis
    proof (cases "index_of_place ?P ps ll")
      case (Inl e)
      with get None s2 first show ?thesis by (simp add: getExactIndex_def bindS_Inr bindS_Inl)
    next
      case (Inr r)
      have "session_ok ?G ?P (with_cache ps (\<lambda>c. c\<lparr>geomToLonLat := map_assign geom_less [ll] r (geomToLonLat c)\<rparr>) s2)"
        by (rule with_cache_ok(1) [OF s2(2) ps]) (use Inr in \<open>simp add: cache_ok_ll [OF _ key]\<close>)
      with get None s2(1) Inr first co show ?thesis
        by (simp add: getExactIndex_def bindS_Inr setLLCache_def bindS_def)
    qed
  qed
qed

lemma purge_ok: "session_ok G P s \<Longrightarrow> session_ok G P (purgeAllCaches s)"
  by (simp add: session_ok_def purgeAllCaches_def)

definition new_session :: "storage \<Rightarrow> 'g session" where
  "new_session st = \<lparr>cache_collection = [], geomToWkt = [], readerCache = [], proj_cache = [], blob_store = st\<rparr>"

lemma new_session_ok: "session_ok G P (new_session st)"
  by (simp add: session_ok_def new_session_def)

lemma point_valid_index: "int_range x \<Longrightarrow> int_range y \<Longrightarrow> point_valid (of_integer x, of_integer y)"
  by (auto simp: point_valid_def of_integer_exact int_range_def INT_MIN_def INT_MAX_def)

lemma readPoint_outside:
  "int_range x \<Longrightarrow> int_range y \<Longrightarrow> \<not> (0 \<le> x \<and> x < uint (xNumber ps) \<and> 0 \<le> y \<and> y < uint (yNumber ps)) \<Longrightarrow>
    readPoint R ps x y dataId s = (Inr None, s)"
  using outside_iff [of x y ps] by (cases "indexRefersToPointOutsideFile ps (of_integer x) (of_integer y)")
    (simp_all add: readPoint_def)

lemma with_storage_ok: "session_ok G P s \<Longrightarrow> session_ok G P (snd (with_storage f s))"
  by (auto simp: with_storage_def zoomS_def session_ok_def split: prod.split)

lemma readPoint_ok:
  assumes s: "session_ok (geos_of R) (proj_of R) s" and ps: "place_valid ps" and i: "int_range x" "int_range y"
  shows "session_ok (geos_of R) (proj_of R) (snd (readPoint R ps x y dataId s))"
proof (cases "indexRefersToPointOutsideFile ps (of_integer x) (of_integer y)")
  case False
  let ?xy = "(of_integer x, of_integer y)"
  obtain r s1 where g: "getGeometry R ps ?xy s = (r, s1)" by (cases "getGeometry R ps ?xy s")
  have s1: "session_ok (geos_of R) (proj_of R) s1"
    using getGeometry_ok [OF s ps point_valid_index [OF i]] g by simp
  obtain r2 s2 where v: "with_storage (readFloatFromFile (storage_spi R) (os_of R) dataId
      (sint (indexFromXy (word_of_int x) (word_of_int y) ps))) s1 = (r2, s2)" by fastforce
  from with_storage_ok [OF s1] v have "session_ok (geos_of R) (proj_of R) s2" by (metis snd_conv)
  with False g s1 v show ?thesis
    by (cases r; cases r2) (simp_all add: readPoint_def bindS_Inr bindS_Inl)
qed (simp add: readPoint_def s)

lemma getInstance_ok:
  assumes ps: "place_valid ps"
  shows "keepsS (session_ok G P) (BaseDataReader_getInstance R ps) (\<lambda>r. place_valid r \<and> same_grid ps r)"
  unfolding keepsS_def
proof (intro allI impI)
  fix s :: "'a session"
  assume s: "session_ok G P s"
  show "session_ok G P (snd (BaseDataReader_getInstance R ps s)) \<and>
      (\<forall>r. fst (BaseDataReader_getInstance R ps s) = Inr r \<longrightarrow> place_valid r \<and> same_grid ps r)"
  proof (cases "map_find ltPlaceSpecification ps (readerCache s)")
    case None
    with s ps show ?thesis
      by (cases "WdbProjection_new (proj_of R) (projDefinition ps)")
        (auto simp: BaseDataReader_getInstance_def bindS_def session_ok_def same_grid_def)
  next
    case (Some r)
    have "place_order.keys_ok (readerCache s)" using s by (auto simp: session_ok_def place_order.keys_ok_def)
    from place_order.find_SomeD [OF Some this ps] s have "place_valid r \<and> same_grid ps r"
      by (auto simp: session_ok_def)
    with Some s show ?thesis by (simp add: BaseDataReader_getInstance_def bindS_def)
  qed
qed

definition inside :: "PlaceSpecification \<Rightarrow> int \<Rightarrow> int \<Rightarrow> bool" where
  "inside ps x y \<longleftrightarrow> 0 \<le> x \<and> x < uint (xNumber ps) \<and> 0 \<le> y \<and> y < uint (yNumber ps)"

definition read_result :: "PlaceSpecification \<Rightarrow> int \<Rightarrow> int \<Rightarrow> 'g GridPointData option \<Rightarrow> bool" where
  "read_result ps x y r = (case r of
     None \<Rightarrow> \<not> inside ps x y
   | Some d \<Rightarrow> inside ps x y \<and> gp_x d = of_integer x \<and> gp_y d = of_integer y)"

lemma readPoint_keeps:
  assumes "place_valid ps" and "int_range x" "int_range y"
  shows "keepsS (session_ok (geos_of R) (proj_of R)) (readPoint R ps x y dataId) (read_result ps x y)"
  unfolding keepsS_def
proof (intro allI impI conjI)
  fix s r
  assume s: "session_ok (geos_of R) (proj_of R) s"
  show "session_ok (geos_of R) (proj_of R) (snd (readPoint R ps x y dataId s))"
    by (rule readPoint_ok [OF s assms])
  assume "fst (readPoint R ps x y dataId s) = Inr r"
  then obtain s1 where "readPoint R ps x y dataId s = (Inr r, s1)" by (metis prod.collapse)
  with outside_iff [OF assms(2,3), of ps] show "read_result ps x y r"
    by (auto simp: readPoint_def read_result_def inside_def bindS_eq_Inr split: if_splits)
qed

section \<open>Properties\<close>

text \<open>C19: the geometry caches are transparent. In any session whose caches are consistent (an empty
  one is, and stays so under reads and purges), the geometry of a grid point and the grid index of a
  place are the ones that the projection gives without a cache, errors included.\<close>

theorem geometry_caches_transparent:
  assumes "session_ok (geos_of R) (proj_of R) s" and "place_valid ps" and "point_valid xy"
    and "GEOSGeom_getCoordSeq (geos_of R) location = Inr (Some [ll])" and "point_valid ll"
  shows "fst (getGeometry R ps xy s) = mapE (GEOSGeom_createPoint (geos_of R)) (place_of_index (proj_of R) ps xy)
    \<and> session_ok (geos_of R) (proj_of R) (snd (getGeometry R ps xy s))
    \<and> fst (getExactIndex R ps location s) = index_of_place (proj_of R) ps ll
    \<and> session_ok (geos_of R) (proj_of R) (snd (getExactIndex R ps location s))
    \<and> session_ok (geos_of R) (proj_of R) (purgeAllCaches s)"
  using getGeometry_ok [OF assms(1-3)] getExactIndex_ok [OF assms(1,2,4,5)] purge_ok [OF assms(1)] by blast

text \<open>A GEOS whose geometries are lists of points.\<close>

definition point_geos :: "point list geos" where
  "point_geos = \<lparr>GEOSGeomTypeId = (\<lambda>g. if length g = 1 then 0 else 3), GEOSGeom_getCoordSeq = (\<lambda>g. Inr (Some g)),
     GEOSCoordSeq_getSize = (\<lambda>cs. Inr (Some (length cs))),
     GEOSGeom_createPoint = (\<lambda>p. [p]), GEOSIntersects = (\<lambda>a b. if set b \<subseteq> set a then 1 else 0),
     GEOSGetNumGeometries = (\<lambda>_. 1), GEOSGetGeometryN = (\<lambda>g _. Some g), GEOSGetExteriorRing = (\<lambda>g. if length g = 1
       then geosLogError ''Invalid argument (must be a Polygon)'' else Inr (Some g)),
     GEOSGeomFromWKT = (\<lambda>_. None), GEOSGeomToWKT = (\<lambda>_. '''')\<rparr>"

definition plain_proj :: proj where
  "plain_proj = \<lparr>pj_init = \<lambda>_. True, pj_transform = \<lambda>_ _ pts. (0, pts),
     pj_datum_transform = \<lambda>_ _ pts. (0, pts), pj_strerrno = \<lambda>_. ''error'', DEG_TO_RAD = Fin 1, RAD_TO_DEG = Fin 1\<rparr>"

definition sample_reading :: "point list reading" where
  "sample_reading = \<lparr>geos_of = point_geos, proj_of = plain_proj, storage_spi = (\<lambda>_ _. Spi_other), os_of = sample_os\<rparr>"

theorem geometry_caches_transparent_witness:
  "fst (getGeometry sample_reading sample_place (Fin 2, Fin 1) (new_session sample_storage))
     = mapE (\<lambda>p. [p]) (place_of_index plain_proj sample_place (Fin 2, Fin 1))"
proof -
  have R: "geos_of sample_reading = point_geos" "proj_of sample_reading = plain_proj"
      "GEOSGeom_createPoint point_geos = (\<lambda>p. [p])" "GEOSGeom_getCoordSeq point_geos [(Fin 1, Fin 1)] = Inr (Some [(Fin 1, Fin 1)])"
    by (simp_all add: sample_reading_def point_geos_def)
  have v: "place_valid sample_place" "point_valid (Fin 2, Fin 1)" "point_valid (Fin 1, Fin 1)"
    by (simp_all add: place_valid_def sample_place_def point_valid_def)
  have s: "session_ok (geos_of sample_reading) (proj_of sample_reading) (new_session sample_storage)"
    by (rule new_session_ok)
  have c: "GEOSGeom_getCoordSeq (geos_of sample_reading) [(Fin 1, Fin 1)] = Inr (Some [(Fin 1, Fin 1)])"
    by (simp add: R)
  from geometry_caches_transparent [OF s v(1,2) c v(3)] show ?thesis unfolding R by blast
qed

text \<open>What is stored in the maps of the caches is found again. After an assignment a lookup finds
  the new value exactly for the keys that count as the same (grids that agree in everything but the SRID,
  equal pairs of numbers, equal points) and the old entry for all others, as long as no key has a NaN.\<close>

theorem cache_maps_lookup:
  assumes "place_order.keys_ok pm" and "place_valid p" and "place_valid p'"
    and "pair_order.keys_ok dm" and "point_valid d" and "point_valid d'"
    and "geom_order.keys_ok gm" and "one_point g" and "one_point g'"
  shows "map_find ltPlaceSpecification p' (map_assign ltPlaceSpecification p v pm)
      = (if same_grid p' p then Some v else map_find ltPlaceSpecification p' pm)
    \<and> map_find lt_pair d' (map_assign lt_pair d w dm) = (if d' = d then Some w else map_find lt_pair d' dm)
    \<and> map_find geom_less g' (map_assign geom_less g u gm) = (if g' = g then Some u else map_find geom_less g' gm)"
  using place_order.find_assign [OF assms(1-3)] pair_order.find_assign [OF assms(4-6)]
    geom_order.find_assign [OF assms(7-9)] by blast

theorem cache_maps_lookup_witness:
  "map_find ltPlaceSpecification (sample_place\<lparr>srid := 1\<rparr>) (map_assign ltPlaceSpecification sample_place ''a'' [])
     = Some ''a''"
proof -
  have h: "place_valid sample_place" "place_valid (sample_place\<lparr>srid := 1\<rparr>)" "point_valid (Fin 0, Fin 0)"
      "one_point [(Fin 0, Fin 0)]" "same_grid (sample_place\<lparr>srid := 1\<rparr>) sample_place"
    by (simp_all add: place_valid_def sample_place_def point_valid_def one_point_def same_grid_def)
  note c = cache_maps_lookup [of "[]", OF place_order.keys_ok_simps(1) h(1,2) pair_order.keys_ok_simps(1) h(3,3)
      geom_order.keys_ok_simps(1) h(4,4), of "''a''", THEN conjunct1]
  show ?thesis unfolding c using h(5) by simp
qed

lemma compare_prefix: "NaN \<notin> set as \<Longrightarrow> compare_coordinates as (as @ bs) = Inr None"
  by (induction as) (auto simp: feq_def)

lemma compare_longer:
  "NaN \<notin> set as \<Longrightarrow> bs \<noteq> [] \<Longrightarrow> compare_coordinates (as @ bs) as = Inl (Undefined ''an uninitialised coordinate is compared'')"
proof (induction as)
  case Nil
  then show ?case by (cases bs) simp_all
qed (auto simp: feq_def)

text \<open>The comparison of geometries ignores their sizes. A sequence and a longer one that begins with
  it count as the same key in one order, and in the other order the comparison reads coordinates that were
  never set.\<close>

theorem geometry_comparison_sizes:
  assumes "\<forall>p \<in> set a. point_valid p" and "b \<noteq> []"
  shows "GEOSGeomCmp a (a @ b) = Inr False
    \<and> GEOSGeomCmp (a @ b) a = Inl (Undefined ''an uninitialised coordinate is compared'')"
proof -
  have "NaN \<notin> set (map fst a)" "NaN \<notin> set (map snd a)" using assms(1) by (auto simp: point_valid_def)
  with compare_prefix [of "map fst a" "map fst b"] compare_prefix [of "map snd a" "map snd b"]
    compare_longer [of "map fst a" "map fst b"] assms(2)
  show ?thesis by (simp add: GEOSGeomCmp_def)
qed

theorem geometry_comparison_sizes_witness:
  "GEOSGeomCmp [(Fin 1, Fin 2)] [(Fin 1, Fin 2), (Fin 3, Fin 4)] = Inr False"
  using geometry_comparison_sizes [of "[(Fin 1, Fin 2)]" "[(Fin 3, Fin 4)]"] by (simp add: point_valid_def)

end
