(* ===== verification/Readers.thy ===== *)
theory Readers
  imports GeometryCache Location GridGeometry
begin

text \<open>
  The point readers of \<open>extractGridData\<close>: \<open>SinglePointReader.cpp\<close> (exact, nearest,
  surrounding and bilinear), \<open>PolygonReader.cpp\<close>, \<open>AllPointsReader.cpp\<close>, the choice
  between them in \<open>readPoints.cpp\<close>, and the list of points with its iterator
  (\<open>GridPointData.c\<close>). The lemmas bound the arrays that are written, say which grid points are
  read and in which order, and what is returned at the edges.
\<close>

section \<open>Lists of points and their iterators\<close>

type_synonym 'g GridPointDataList = "'g GridPointData list"

text \<open>An iterator is the list and the current position.\<close>

type_synonym 'g point_iterator = "'g GridPointDataList \<times> nat"

definition GridPointDataListIteratorNew :: "'g GridPointDataList \<Rightarrow> 'g point_iterator" where
  "GridPointDataListIteratorNew list = (list, 0)"

definition GridPointDataListIteratorAtEnd :: "'g point_iterator \<Rightarrow> bool" where
  "GridPointDataListIteratorAtEnd it \<longleftrightarrow> length (fst it) \<le> snd it"

definition GridPointDataListIteratorNext :: "'g point_iterator \<Rightarrow> 'g GridPointData option \<times> 'g point_iterator" where
  "GridPointDataListIteratorNext it =
     (if GridPointDataListIteratorAtEnd it then (None, it)
      else (Some (fst it ! snd it), (fst it, snd it + 1)))"

section \<open>Single points\<close>

text \<open>\<open>math::round\<close>: the conversion to \<open>int\<close> is undefined out of its range.\<close>

definition math_round :: "fp \<Rightarrow> int res" where
  "math_round val = double_to_int (ffloor (dadd val (Fin (1 / 2))))"

definition distanceToNearestInteger :: "fp \<Rightarrow> fp res" where
  "distanceToNearestInteger a = mapE (\<lambda>r. fabs (dsub a (of_integer r))) (math_round a)"

definition optional_list :: "'a option \<Rightarrow> 'a list" where
  "optional_list v = (case v of None \<Rightarrow> [] | Some x \<Rightarrow> [x])"

definition readNearest :: "'g reading \<Rightarrow> PlaceSpecification \<Rightarrow> point \<Rightarrow> FileId \<Rightarrow> ('g session, 'g GridPointDataList) call" where
  "readNearest R ps exact dataId =
     bindS (liftS (math_round (fst exact))) (\<lambda>x.
     bindS (liftS (math_round (snd exact))) (\<lambda>y.
     mapS optional_list (readPoint R ps x y dataId)))"

text \<open>The second distance is only taken when the first one is small.\<close>

definition readExact :: "'g reading \<Rightarrow> PlaceSpecification \<Rightarrow> point \<Rightarrow> FileId \<Rightarrow> ('g session, 'g GridPointDataList) call" where
  "readExact R ps exact dataId =
     bindS (liftS (distanceToNearestInteger (fst exact))) (\<lambda>dx.
     if flt (rnd binary64 (1 / 1000)) dx then retS []
     else bindS (liftS (distanceToNearestInteger (snd exact))) (\<lambda>dy.
       if flt (rnd binary64 (1 / 1000)) dy then retS []
       else readNearest R ps exact dataId))"

text \<open>A position on a grid line is moved by a half.\<close>

definition off_grid_line :: "fp \<Rightarrow> fp res" where
  "off_grid_line v = mapE (\<lambda>i. if feq v (of_integer i) then dadd v (Fin (1 / 2)) else v) (double_to_int v)"

definition int_result :: "int \<Rightarrow> int res" where
  "int_result i = (if int_range i then Inr i else Inl (Undefined ''int overflow''))"

text \<open>\<open>std::floor(exact) - (param - 1)\<close> and \<open>std::ceil(exact) + (param - 1)\<close>, in
  double arithmetic.\<close>

definition surround_range :: "fp \<Rightarrow> int \<Rightarrow> (int \<times> int) res" where
  "surround_range exact param =
     bindE (double_to_int (dsub (ffloor exact) (of_integer (param - 1)))) (\<lambda>start.
     bindE (double_to_int (dadd (fceil exact) (of_integer (param - 1)))) (\<lambda>end_at. 
     if end_at = INT_MAX then Inl (Undefined ''int overflow of the loop variable'') else Inr (start, end_at)))"

text \<open>The grid points of a square in the order of the loops.\<close>

definition square :: "int \<times> int \<Rightarrow> int \<times> int \<Rightarrow> (int \<times> int) list" where
  "square xs ys = concat (map (\<lambda>y. map (\<lambda>x. (x, y)) [fst xs..snd xs]) [fst ys..snd ys])"

text \<open>The array on the stack has room for \<open>sizeRet\<close> points; the next free element is handed to
  every call.\<close>

fun read_into :: "'g reading \<Rightarrow> PlaceSpecification \<Rightarrow> FileId \<Rightarrow> int \<Rightarrow> (int \<times> int) list \<Rightarrow> 'g GridPointDataList \<Rightarrow>
    ('g session, 'g GridPointDataList) call" where
  "read_into R ps dataId sizeRet [] out = retS out"
| "read_into R ps dataId sizeRet ((x, y) # ps') out =
     (if sizeRet \<le> int (length out) then failS (Undefined ''a write past the end of an array'')
      else bindS (readPoint R ps x y dataId) (\<lambda>r.
        read_into R ps dataId sizeRet ps' (out @ optional_list r)))"

definition readSurround :: "'g reading \<Rightarrow> PlaceSpecification \<Rightarrow> point \<Rightarrow> int \<Rightarrow> FileId \<Rightarrow> ('g session, 'g GridPointDataList) call" where
  "readSurround R ps exact param dataId =
     bindS (liftS (off_grid_line (fst exact))) (\<lambda>exactX.
     bindS (liftS (off_grid_line (snd exact))) (\<lambda>exactY.
     bindS (liftS (bindE (int_result (param * 2)) (\<lambda>w. int_result (w * w)))) (\<lambda>sizeRet.
     bindS (liftS (surround_range exactX param)) (\<lambda>xs.
     bindS (liftS (surround_range exactY param)) (\<lambda>ys.
     read_into R ps dataId sizeRet (square xs ys) [])))))"

text \<open>\<open>interpolate::linear\<close>: two floats in double arithmetic, returned as a float.\<close>

definition linear :: "fp \<Rightarrow> fp \<Rightarrow> fp \<Rightarrow> fp" where
  "linear low high pos = to_float (dadd (dmul low (dsub (Fin 1) pos)) (dmul high pos))"

definition fraction :: "fp \<Rightarrow> fp res" where
  "fraction v = mapE (\<lambda>i. dsub v (of_integer i)) (double_to_int v)"

definition bilinear :: "'g GridPointDataList \<Rightarrow> point \<Rightarrow> fp res" where
  "bilinear dl exact =
     bindE (fraction (fst exact)) (\<lambda>fx.
     bindE (fraction (snd exact)) (\<lambda>fy.
     let tmp0 = linear (gp_value (dl ! 0)) (gp_value (dl ! 1)) fx;
         tmp1 = linear (gp_value (dl ! 2)) (gp_value (dl ! 3)) fx
     in Inr (linear tmp0 tmp1 fy)))"

definition readBilinear :: "'g reading \<Rightarrow> PlaceSpecification \<Rightarrow> 'g \<Rightarrow> point \<Rightarrow> FileId \<Rightarrow> ('g session, 'g GridPointDataList) call" where
  "readBilinear R ps location exact dataId =
     bindS (readSurround R ps exact 1 dataId) (\<lambda>surrounding.
     if length surrounding < 4 then retS []
     else liftS (mapE (\<lambda>v. [\<lparr>gp_location = location, gp_value = v, gp_x = fst exact, gp_y = snd exact\<rparr>])
       (bilinear surrounding exact)))"

definition SinglePointReader_read :: "'g reading \<Rightarrow> PlaceSpecification \<Rightarrow> 'g \<Rightarrow> InterpolationType \<Rightarrow> int \<Rightarrow> FileId \<Rightarrow>
    ('g session, 'g GridPointDataList) call" where
  "SinglePointReader_read R ps location kind param dataId =
     bindS (getExactIndex R ps location) (\<lambda>exact.
     case kind of
       Exact \<Rightarrow> readExact R ps exact dataId
     | Nearest \<Rightarrow> readNearest R ps exact dataId
     | Surround \<Rightarrow> readSurround R ps exact param dataId
     | Bilinear \<Rightarrow> readBilinear R ps location exact dataId)"

section \<open>Polygons\<close>

record BoundingBox =
  left_edge :: fp
  bottom_edge :: fp
  top_edge :: fp
  right_edge :: fp

definition degrees_unless_metric :: "fp \<Rightarrow> string \<Rightarrow> point \<Rightarrow> point" where
  "degrees_unless_metric k def p = (if isMetric def then p else scale k p)"

text \<open>A coordinate of a ring, in the projection of the grid.\<close>

definition ring_coordinate :: "proj \<Rightarrow> PlaceSpecification \<Rightarrow> point \<Rightarrow> point res" where
  "ring_coordinate P ps p =
     mapE (\<lambda>out. degrees_unless_metric (RAD_TO_DEG P) (projDefinition ps) (hd out))
       (transformFromDefault P DEFAULT_PROJECTION (projDefinition ps)
         [degrees_unless_metric (DEG_TO_RAD P) DEFAULT_PROJECTION p])"

text \<open>The members of the box are \<open>float\<close>s, the coordinates \<open>double\<close>s.\<close>

definition start_box :: "point \<Rightarrow> BoundingBox" where
  "start_box c = \<lparr>left_edge = to_float (fst c), bottom_edge = to_float (snd c), top_edge = to_float (snd c),
     right_edge = to_float (fst c)\<rparr>"

definition widen_box :: "point \<Rightarrow> BoundingBox \<Rightarrow> BoundingBox" where
  "widen_box c b =
     (let b1 = (if flt (fst c) (left_edge b) then b\<lparr>left_edge := to_float (fst c)\<rparr>
                else if flt (right_edge b) (fst c) then b\<lparr>right_edge := to_float (fst c)\<rparr> else b)
      in if flt (snd c) (bottom_edge b1) then b1\<lparr>bottom_edge := to_float (snd c)\<rparr>
         else if flt (top_edge b1) (snd c) then b1\<lparr>top_edge := to_float (snd c)\<rparr> else b1)"

fun widen_all :: "proj \<Rightarrow> PlaceSpecification \<Rightarrow> point list \<Rightarrow> BoundingBox \<Rightarrow> BoundingBox res" where
  "widen_all P ps [] b = Inr b"
| "widen_all P ps (c # cs) b = bindE (ring_coordinate P ps c) (\<lambda>p. widen_all P ps cs (widen_box p b))"

text \<open>The coordinates of a ring that are read: the first one and those up to the size.\<close>

definition outer_ring :: "'g geos \<Rightarrow> 'g \<Rightarrow> nat \<Rightarrow> point list res" where
  "outer_ring G polygons n =
     bindE (if 1 < GEOSGetNumGeometries G polygons
            then (case GEOSGetGeometryN G polygons n of
                None \<Rightarrow> Inl (Runtime_error ''Multigeometry returned is NULL'')
              | Some polygon \<Rightarrow> GEOSGetExteriorRing G polygon)
            else GEOSGetExteriorRing G polygons) (\<lambda>ring.
     case ring of
       None \<Rightarrow> Inl (Runtime_error ''Outer ring of polygon/shape is NULL.'')
     | Some r \<Rightarrow> bindE (GEOSGeom_getCoordSeq G r) (\<lambda>seq.
         case seq of
           None \<Rightarrow> Inl (Runtime_error ''Coordinate sequence of polygon/shape returned NULL'')
         | Some cs \<Rightarrow> bindE (GEOSCoordSeq_getSize G cs) (\<lambda>size.
             case size of
               None \<Rightarrow> Inl (Runtime_error ''Error when getting size of outer ring of polygon/shape'')
             | Some n \<Rightarrow> Inr (take (max 1 n) cs))))"

text \<open>The box is uninitialised before the first ring.\<close>

definition ring_bounds :: "proj \<Rightarrow> PlaceSpecification \<Rightarrow> point list \<Rightarrow> BoundingBox option \<Rightarrow> BoundingBox res" where
  "ring_bounds P ps cs box =
     bindE (WdbProjection_new P (projDefinition ps)) (\<lambda>_.
     bindE (first_coordinate cs) (\<lambda>c.
     bindE (ring_coordinate P ps c) (\<lambda>p.
     widen_all P ps (tl cs) (case box of None \<Rightarrow> start_box p | Some b \<Rightarrow> b))))"

fun bounds_from :: "proj \<Rightarrow> 'g geos \<Rightarrow> PlaceSpecification \<Rightarrow> 'g \<Rightarrow> nat list \<Rightarrow> BoundingBox option \<Rightarrow> BoundingBox option res" where
  "bounds_from P G ps polygons [] box = Inr box"
| "bounds_from P G ps polygons (n # ns) box =
     bindE (outer_ring G polygons n) (\<lambda>cs.
     bindE (ring_bounds P ps cs box) (\<lambda>b. bounds_from P G ps polygons ns (Some b)))"

definition getBounds :: "proj \<Rightarrow> 'g geos \<Rightarrow> PlaceSpecification \<Rightarrow> 'g \<Rightarrow> BoundingBox res" where
  "getBounds P G ps polygons =
     bindE (bounds_from P G ps polygons [0..<GEOSGetNumGeometries G polygons] None) (\<lambda>box.
     case box of
       None \<Rightarrow> Inl (Undefined ''uninitialised bounding box'')
     | Some b \<Rightarrow> Inr b)"

text \<open>The first index is cut at zero; the end is compared with the unsigned size, so that a negative
  end counts as a large number.\<close>

definition first_index :: "fp \<Rightarrow> fp \<Rightarrow> fp \<Rightarrow> int res" where
  "first_index edge start increment =
     mapE (\<lambda>i. if i < 0 then 0 else i) (double_to_int (ddiv (dsub edge start) increment))"

definition end_index :: "fp \<Rightarrow> fp \<Rightarrow> fp \<Rightarrow> 32 word \<Rightarrow> int res" where
  "end_index edge start increment number =
     mapE (\<lambda>i. if number < word_of_int i then sint number else i)
       (double_to_int (dadd (ddiv (dsub edge start) increment) (Fin 1)))"

definition index_ranges :: "PlaceSpecification \<Rightarrow> BoundingBox \<Rightarrow> ((int \<times> int) \<times> (int \<times> int)) res" where
  "index_ranges ps b =
     bindE (first_index (left_edge b) (startX ps) (xIncrement ps)) (\<lambda>startI.
     bindE (end_index (right_edge b) (startX ps) (xIncrement ps) (xNumber ps)) (\<lambda>endI.
     bindE (first_index (bottom_edge b) (startY ps) (yIncrement ps)) (\<lambda>startJ.
     bindE (end_index (top_edge b) (startY ps) (yIncrement ps) (yNumber ps)) (\<lambda>endJ.
     Inr ((startI, endI - 1), (startJ, endJ - 1))))))"

definition grid_point_place :: "proj \<Rightarrow> PlaceSpecification \<Rightarrow> int \<Rightarrow> int \<Rightarrow> point res" where
  "grid_point_place P ps i j =
     bindE (WdbProjection_new P (projDefinition ps)) (\<lambda>_.
     mapE (\<lambda>out. degrees_unless_metric (RAD_TO_DEG P) DEFAULT_PROJECTION (hd out))
       (transformToDefault P DEFAULT_PROJECTION (projDefinition ps)
         [degrees_unless_metric (DEG_TO_RAD P) (projDefinition ps) (grid_coordinate ps (of_integer i) (of_integer j))]))"

fun intersecting :: "proj \<Rightarrow> 'g geos \<Rightarrow> PlaceSpecification \<Rightarrow> 'g \<Rightarrow> (int \<times> int) list \<Rightarrow> (int \<times> int) list res" where
  "intersecting P G ps polygon [] = Inr []"
| "intersecting P G ps polygon ((i, j) # ij) =
     bindE (grid_point_place P ps i j) (\<lambda>place.
     bindE (intersecting P G ps polygon ij) (\<lambda>rest.
     Inr (if GEOSIntersects G polygon (GEOSGeom_createPoint G place) = 1 then (i, j) # rest else rest)))"

definition gridPointsInPolygon :: "proj \<Rightarrow> 'g geos \<Rightarrow> PlaceSpecification \<Rightarrow> 'g \<Rightarrow> (int \<times> int) list res" where
  "gridPointsInPolygon P G ps polygon =
     bindE (getBounds P G ps polygon) (\<lambda>b.
     bindE (index_ranges ps b) (\<lambda>(xs, ys).
     intersecting P G ps polygon (square xs ys)))"

definition MAX_RETURN :: nat where "MAX_RETURN = 100000"

fun read_counted :: "'g reading \<Rightarrow> PlaceSpecification \<Rightarrow> FileId \<Rightarrow> nat \<Rightarrow> (int \<times> int) list \<Rightarrow> 'g GridPointDataList \<Rightarrow>
    ('g session, 'g GridPointDataList) call" where
  "read_counted R ps dataId n [] out = retS out"
| "read_counted R ps dataId n ((x, y) # ps') out =
     (if n \<le> length out then retS out
      else bindS (readPoint R ps x y dataId) (\<lambda>r. read_counted R ps dataId n ps' (out @ optional_list r)))"

definition inside_count :: "PlaceSpecification \<Rightarrow> (int \<times> int) list \<Rightarrow> nat" where
  "inside_count ps pts =
     length (filter (\<lambda>(x, y). \<not> indexRefersToPointOutsideFile ps (of_integer x) (of_integer y)) pts)"

text \<open>A list that is allocated for more points than were read keeps unset elements.\<close>

definition readPolygon :: "'g reading \<Rightarrow> PlaceSpecification \<Rightarrow> (int \<times> int) list \<Rightarrow> FileId \<Rightarrow> ('g session, 'g GridPointDataList) call" where
  "readPolygon R ps pts dataId =
     (let n = inside_count ps pts in
      if MAX_RETURN < n
      then failS (Runtime_error (''Too many rows to return! A single field will return '' @ show_nat n
        @ '' rows, but maximum is '' @ show_nat MAX_RETURN))
      else bindS (read_counted R ps dataId n pts []) (\<lambda>out.
        if length out < n then failS (Undefined ''unset elements of the list'') else retS out))"

definition PolygonReader_read :: "'g reading \<Rightarrow> PlaceSpecification \<Rightarrow> 'g \<Rightarrow> FileId \<Rightarrow> ('g session, 'g GridPointDataList) call" where
  "PolygonReader_read R ps location dataId =
     bindS (liftS (gridPointsInPolygon (proj_of R) (geos_of R) ps location)) (\<lambda>pts.
     if pts = [] then retS [] else readPolygon R ps pts dataId)"

section \<open>All points, and the choice\<close>

definition AllPointsReader_read :: "'g reading \<Rightarrow> PlaceSpecification \<Rightarrow> FileId \<Rightarrow> ('g session, 'g GridPointDataList) call" where
  "AllPointsReader_read R ps dataId =
     (if place_points ps \<noteq> unat (xNumber ps) * unat (yNumber ps)
      then failS (Undefined ''a write past the end of the list'')
      else bindS (forS (concat (map (\<lambda>x. map (\<lambda>y. (x, y)) [0..<unat (yNumber ps)]) [0..<unat (xNumber ps)]))
          (\<lambda>(x, y). readPoint R ps (sint (word_of_nat x :: 32 word)) (sint (word_of_nat y :: 32 word)) dataId)) (\<lambda>rs.
        if None \<in> set rs then failS (Undefined ''unset elements of the list'')
        else retS (concat (map optional_list rs))))"

text \<open>\<open>catch (std::exception)\<close> around a call.\<close>

definition reportS :: "errcode \<Rightarrow> ('s, 'a) call \<Rightarrow> ('s, 'a) call" where
  "reportS c m = (\<lambda>s. case m s of (r, s1) \<Rightarrow> (report_std c r, s1))"

text \<open>The reader is looked up outside the \<open>try\<close> block.\<close>

definition readPoints :: "'g reading \<Rightarrow> PlaceSpecification \<Rightarrow> 'g option \<Rightarrow> InterpolationType \<Rightarrow> int \<Rightarrow> FileId \<Rightarrow>
    ('g session, 'g point_iterator) call" where
  "readPoints R ps location kind param dataId =
     bindS (BaseDataReader_getInstance R ps) (\<lambda>reader.
     reportS ERRCODE_DATA_EXCEPTION (mapS GridPointDataListIteratorNew (case location of
       None \<Rightarrow> retS []
     | Some g \<Rightarrow>
         (let t = GEOSGeomTypeId (geos_of R) g in
          if t = GEOS_POINT then SinglePointReader_read R reader g kind param dataId
          else if t = GEOS_POLYGON \<or> t = GEOS_MULTIPOLYGON then PolygonReader_read R reader g dataId
          else failS (Runtime_error ''This geometry type is not supported'')))))"

section \<open>Ranges\<close>

lemma double_to_int_Inr: "double_to_int v = Inr i \<longleftrightarrow> (\<exists>q. v = Fin q \<and> i = trunc q \<and> int_range i)"
  by (cases v) auto

lemma int_range_bounds: "int_range i \<longleftrightarrow> - (2 ^ 31) \<le> i \<and> i < 2 ^ 31"
  by (auto simp: int_range_def INT_MIN_def INT_MAX_def)

text \<open>A position off the grid lines: its floor and ceiling are neighbours.\<close>

lemma trunc_integer_iff: "q = of_int (trunc q) \<longleftrightarrow> q = of_int \<lfloor>q\<rfloor>"
  by (auto simp: trunc_def) (metis ceiling_of_int floor_of_int)+

lemma trunc_floor: "\<lfloor>q\<rfloor> \<le> trunc q \<and> trunc q \<le> \<lceil>q\<rceil>"
  by (auto simp: trunc_def floor_le_ceiling)

lemma ceiling_next: "q \<noteq> of_int \<lfloor>q\<rfloor> \<Longrightarrow> \<lceil>q\<rceil> = \<lfloor>q\<rfloor> + 1" for q :: rat
  by (metis ceiling_altdef)

lemma off_grid_line_Inr:
  assumes "off_grid_line v = Inr w"
  shows "\<exists>q. w = Fin q \<and> \<lceil>q\<rceil> = \<lfloor>q\<rfloor> + 1 \<and> - (2 ^ 31) - 1 \<le> \<lfloor>q\<rfloor> \<and> \<lfloor>q\<rfloor> < 2 ^ 31"
proof -
  from assms obtain i where i: "double_to_int v = Inr i"
    and w: "w = (if feq v (of_integer i) then dadd v (Fin (1 / 2)) else v)"
    by (auto simp: off_grid_line_def err_simps)
  then obtain q where q: "v = Fin q" "i = trunc q" "int_range i" by (auto simp: double_to_int_Inr)
  then have r: "- (2 ^ 31) \<le> i" "i < 2 ^ 31" by (simp_all add: int_range_bounds)
  then have oi: "of_integer i = Fin (of_int i)" by (intro of_integer_exact) simp
  show ?thesis
  proof (cases "q = of_int i")
    case True
    have "\<bar>2 * i + 1\<bar> \<le> 2 ^ 53" using r by simp
    from rnd_half [OF this] have "dadd v (Fin (1 / 2)) = Fin (of_int i + 1 / 2)"
      by (simp add: q(1) True dadd_def add_divide_distrib)
    then have "w = Fin (of_int i + 1 / 2)" using w q(1) True oi by (simp add: feq_def)
    moreover have "\<lfloor>of_int i + 1 / 2 :: rat\<rfloor> = i" by (simp add: floor_eq_iff)
    moreover have "\<lceil>of_int i + 1 / 2 :: rat\<rceil> = i + 1" by (simp add: ceiling_eq_iff)
    ultimately show ?thesis using r by auto
  next
    case False
    then have "w = Fin q" using w q(1) oi by (simp add: feq_def)
    moreover have "q \<noteq> of_int \<lfloor>q\<rfloor>" using False q(2) trunc_integer_iff by metis
    moreover from this have "\<lceil>q\<rceil> = \<lfloor>q\<rfloor> + 1" by (rule ceiling_next)
    moreover have "- (2 ^ 31) - 1 \<le> \<lfloor>q\<rfloor>" "\<lfloor>q\<rfloor> < 2 ^ 31"
      using r trunc_floor [of q] calculation(3) unfolding q(2) by linarith+
    ultimately show ?thesis by blast
  qed
qed

lemma dsub_int: "\<bar>a - b\<bar> \<le> 2 ^ 52 \<Longrightarrow> dsub (Fin (of_int a)) (Fin (of_int b)) = Fin (of_int (a - b))"
  using rnd_int [of "a - b"] by (simp add: dsub_def fsub_def)

lemma small_sums:
  fixes f p :: int
  assumes "- (2 ^ 31) - 1 \<le> f" and "f < 2 ^ 31" and "- (2 ^ 31) \<le> p" and "p < 2 ^ 31"
  shows "\<bar>f - (p - 1)\<bar> \<le> 2 ^ 52 \<and> \<bar>f + 1 + (p - 1)\<bar> \<le> 2 ^ 52"
  using assms by (auto simp: abs_le_iff)

lemma surround_range_Inr:
  assumes "surround_range (Fin q) p = Inr (a, b)" and next_q: "\<lceil>q\<rceil> = \<lfloor>q\<rfloor> + 1"
    and "- (2 ^ 31) - 1 \<le> \<lfloor>q\<rfloor>" and "\<lfloor>q\<rfloor> < 2 ^ 31" and p: "int_range p"
  shows "a = \<lfloor>q\<rfloor> - (p - 1) \<and> b = \<lfloor>q\<rfloor> + p \<and> int_range a \<and> int_range b"
proof -
  have pr: "- (2 ^ 31) \<le> p" "p < 2 ^ 31" using p by (simp_all add: int_range_bounds)
  then have op: "of_integer (p - 1) = Fin (of_int (p - 1))" by (intro of_integer_exact) (simp add: abs_le_iff)
  have s: "\<bar>\<lfloor>q\<rfloor> - (p - 1)\<bar> \<le> 2 ^ 52" "\<bar>\<lfloor>q\<rfloor> + 1 + (p - 1)\<bar> \<le> 2 ^ 52"
    using small_sums [OF assms(3,4) pr] by blast+
  define A B where "A = \<lfloor>q\<rfloor> - (p - 1)" and "B = \<lfloor>q\<rfloor> + 1 + (p - 1)"
  have "dsub (ffloor (Fin q)) (of_integer (p - 1)) = Fin (of_int A)"
    unfolding op ffloor.simps A_def by (rule dsub_int [OF s(1)])
  moreover have "dadd (fceil (Fin q)) (of_integer (p - 1)) = Fin (of_int B)"
    unfolding op fceil.simps next_q B_def by (rule dadd_int [OF s(2)])
  moreover have "trunc (of_int k) = k" for k by (simp add: trunc_def)
  ultimately have "a = A \<and> b = B \<and> int_range A \<and> int_range B"
    using assms(1) by (auto simp: surround_range_def err_simps double_to_int_Inr split: if_splits)
  then show ?thesis by (auto simp: A_def B_def)
qed

lemma square_simps: "square (a, b) (c, d) = concat (map (\<lambda>y. map (\<lambda>x. (x, y)) [a..b]) [c..d])"
  by (simp add: square_def)

lemma length_square: "length (square (a, b) (c, d)) = nat (b - a + 1) * nat (d - c + 1)"
proof -
  have "sum_list (map (\<lambda>y. n) xs) = n * length xs" for n and xs :: "int list"
    by (induction xs) simp_all
  then show ?thesis by (simp add: square_def length_concat comp_def)
qed

lemma in_square: "(x, y) \<in> set (square (a, b) (c, d)) \<longleftrightarrow> a \<le> x \<and> x \<le> b \<and> c \<le> y \<and> y \<le> d"
  unfolding square_simps by (auto intro!: bexI [of _ y] imageI)

lemma distinct_square: "distinct (square xs ys)"
proof -
  have "distinct (concat (map (\<lambda>y. map (\<lambda>x. (x, y)) as) bs))" if "distinct as" "distinct bs" for as bs :: "int list"
    using that(2) by (induction bs) (use that(1) in \<open>auto simp: distinct_map inj_on_def\<close>)
  then show ?thesis by (simp add: square_def)
qed

text \<open>The loop over the array, without the array.\<close>

lemma read_into_eq:
  "int (length out + length pts) \<le> n \<Longrightarrow>
    read_into R ps dataId n pts out s =
      mapS (\<lambda>rs. out @ concat (map optional_list rs)) (forS pts (\<lambda>(x, y). readPoint R ps x y dataId)) s"
proof (induction pts arbitrary: out s)
  case (Cons p pts)
  obtain x y where p: "p = (x, y)" by (cases p)
  have room: "\<not> n \<le> int (length out)" using Cons.prems by simp
  obtain r s1 where r: "readPoint R ps x y dataId s = (r, s1)" by fastforce
  show ?case
  proof (cases r)
    case (Inl e)
    with r p room show ?thesis by (simp add: mapS_def bindS_Inl)
  next
    case (Inr v)
    have "length (optional_list v) \<le> 1" by (cases v) (simp_all add: optional_list_def)
    then have "int (length (out @ optional_list v) + length pts) \<le> n" using Cons.prems by simp
    note IH = Cons.IH [OF this, of s1]
    obtain r2 s2 where r2: "forS pts (\<lambda>(x, y). readPoint R ps x y dataId) s1 = (r2, s2)" by fastforce
    with r p room Inr IH show ?thesis
      by (cases r2) (simp_all add: mapS_def bindS_Inr bindS_Inl)
  qed
qed (simp add: mapS_def)

lemma surround_ranges:
  assumes "off_grid_line v = Inr w" and "surround_range w p = Inr (a, b)" and "int_range p"
  shows "b - a + 1 = 2 * p \<and> int_range a \<and> int_range b"
proof -
  from off_grid_line_Inr [OF assms(1)] obtain q where q: "w = Fin q" "\<lceil>q\<rceil> = \<lfloor>q\<rfloor> + 1"
    "- (2 ^ 31) - 1 \<le> \<lfloor>q\<rfloor>" "\<lfloor>q\<rfloor> < 2 ^ 31" by blast
  from surround_range_Inr [OF assms(2) [unfolded q(1)] q(2-4) assms(3)] show ?thesis by auto
qed

lemma square_room:
  assumes "off_grid_line vx = Inr wx" and "surround_range wx p = Inr xs"
    and "off_grid_line vy = Inr wy" and "surround_range wy p = Inr ys" and "int_range p"
  shows "int (length (square xs ys)) \<le> (p * 2) * (p * 2) \<and> (1 \<le> p \<longrightarrow> length (square xs ys) = nat (p * 2) * nat (p * 2))
    \<and> (\<forall>(x, y) \<in> set (square xs ys). int_range x \<and> int_range y)"
proof -
  obtain a b c d where s: "xs = (a, b)" "ys = (c, d)" by (cases xs, cases ys)
  have x: "b - a + 1 = 2 * p" "int_range a" "int_range b"
    using surround_ranges [OF assms(1) assms(2) [unfolded s] assms(5)] by simp_all
  have y: "d - c + 1 = 2 * p" "int_range c" "int_range d"
    using surround_ranges [OF assms(3) assms(4) [unfolded s] assms(5)] by simp_all
  have len: "length (square xs ys) = nat (p * 2) * nat (p * 2)"
    by (simp add: s length_square x(1) y(1) mult.commute)
  have "int (nat (p * 2) * nat (p * 2)) \<le> (p * 2) * (p * 2)"
    by (cases "0 \<le> p") (simp_all add: mult_nonpos_nonpos)
  moreover have "int_range u \<and> int_range v" if "(u, v) \<in> set (square xs ys)" for u v
    using that x(2,3) y(2,3) by (auto simp: s in_square int_range_bounds)
  ultimately show ?thesis using len by auto
qed

lemma readSurround_eq:
  assumes "off_grid_line vx = Inr wx" and "surround_range wx p = Inr xs"
    and "off_grid_line vy = Inr wy" and "surround_range wy p = Inr ys"
    and "int_range p" and "int_range (p * 2)" and "int_range (p * 2 * (p * 2))"
  shows "readSurround R ps (vx, vy) p dataId s =
    mapS (\<lambda>rs. concat (map optional_list rs)) (forS (square xs ys) (\<lambda>(x, y). readPoint R ps x y dataId)) s"
proof -
  have "int (length (square xs ys)) \<le> p * 2 * (p * 2)"
    using square_room [OF assms(1-5)] by blast
  then have r: "read_into R ps dataId (p * 2 * (p * 2)) (square xs ys) [] s =
      mapS (\<lambda>rs. concat (map optional_list rs)) (forS (square xs ys) (\<lambda>(x, y). readPoint R ps x y dataId)) s"
    using read_into_eq [of "[]" "square xs ys" "p * 2 * (p * 2)" R ps dataId s] by simp
  show ?thesis
    using assms r by (simp add: readSurround_def bindS_def int_result_def)
qed

section \<open>What the readers keep\<close>

definition in_grid :: "PlaceSpecification \<Rightarrow> 'g GridPointData \<Rightarrow> bool" where
  "in_grid ps d \<longleftrightarrow> (\<exists>x y. inside ps x y \<and> gp_x d = of_integer x \<and> gp_y d = of_integer y)"

abbreviation ok :: "'g reading \<Rightarrow> 'g session \<Rightarrow> bool" where
  "ok R \<equiv> session_ok (geos_of R) (proj_of R)"

lemma keepsS_mapS: "keepsS I m Q \<Longrightarrow> (\<And>x. Q x \<Longrightarrow> T (f x)) \<Longrightarrow> keepsS I (mapS f m) T"
  by (fastforce simp: keepsS_def mapS_def mapE_eq_Inr split: prod.splits)

lemma read_result_list:
  "read_result ps x y r \<Longrightarrow> length (optional_list r) \<le> 1 \<and> (\<forall>d \<in> set (optional_list r). in_grid ps d)"
  by (cases r) (auto simp: read_result_def optional_list_def in_grid_def)

lemma math_round_range: "math_round v = Inr i \<Longrightarrow> int_range i"
  by (auto simp: math_round_def double_to_int_Inr)

lemma readNearest_keeps:
  assumes "place_valid ps"
  shows "keepsS (ok R) (readNearest R ps exact dataId) (\<lambda>l. length l \<le> 1 \<and> (\<forall>d \<in> set l. in_grid ps d))"
  unfolding readNearest_def
  by (rule keepsS_bind [where Q = int_range], rule keepsS_simple, erule math_round_range,
      rule keepsS_bind [where Q = int_range], rule keepsS_simple, erule math_round_range,
      rule keepsS_mapS [OF readPoint_keeps [OF assms]]) (auto dest: read_result_list)

lemma readExact_keeps:
  assumes "place_valid ps"
  shows "keepsS (ok R) (readExact R ps exact dataId) (\<lambda>l. length l \<le> 1 \<and> (\<forall>d \<in> set l. in_grid ps d))"
  unfolding readExact_def
  by (intro keepsS_bind [where Q = "\<lambda>_. True"] keepsS_simple)
    (auto intro!: keepsS_bind [where Q = "\<lambda>_. True"] keepsS_simple readNearest_keeps [OF assms, unfolded One_nat_def])

lemma forS_points_keeps:
  assumes "place_valid ps" and "\<forall>(x, y) \<in> set pts. int_range x \<and> int_range y"
  shows "keepsS (ok R) (mapS (\<lambda>rs. concat (map optional_list rs)) (forS pts (\<lambda>(x, y). readPoint R ps x y dataId)))
    (\<lambda>l. length l \<le> length pts \<and> (\<forall>d \<in> set l. in_grid ps d))"
proof (rule keepsS_mapS)
  show "keepsS (ok R) (forS pts (\<lambda>(x, y). readPoint R ps x y dataId)) (list_all2 (\<lambda>(x, y). read_result ps x y) pts)"
    by (rule keepsS_for) (use assms in \<open>auto intro!: readPoint_keeps\<close>)
  fix rs
  assume "list_all2 (\<lambda>(x, y). read_result ps x y) pts rs"
  then show "length (concat (map optional_list rs)) \<le> length pts \<and> (\<forall>d \<in> set (concat (map optional_list rs)). in_grid ps d)"
    by (induction rule: list_all2_induct) (auto dest!: read_result_list)
qed

lemma keepsS_cong: "(\<And>s. m s = m' s) \<Longrightarrow> keepsS I m Q = keepsS I m' Q"
  by (simp add: keepsS_def)

lemma readSurround_keeps:
  assumes "place_valid ps" and "int_range p"
  shows "keepsS (ok R) (readSurround R ps exact p dataId) (\<lambda>l. \<forall>d \<in> set l. in_grid ps d)"
proof -
  obtain vx vy where e: "exact = (vx, vy)" by (cases exact)
  show ?thesis
  proof (cases "\<exists>wx wy xs ys. off_grid_line vx = Inr wx \<and> off_grid_line vy = Inr wy \<and> surround_range wx p = Inr xs
      \<and> surround_range wy p = Inr ys \<and> int_range (p * 2) \<and> int_range (p * 2 * (p * 2))")
    case True
    then obtain wx wy xs ys where r: "off_grid_line vx = Inr wx" "surround_range wx p = Inr xs"
        "off_grid_line vy = Inr wy" "surround_range wy p = Inr ys"
        "int_range (p * 2)" "int_range (p * 2 * (p * 2))" by blast
    note eq = readSurround_eq [OF r(1-4) assms(2) r(5,6), of R ps dataId]
    have "\<forall>(x, y) \<in> set (square xs ys). int_range x \<and> int_range y"
      using square_room [OF r(1-4) assms(2)] by blast
    from forS_points_keeps [OF assms(1) this, of R dataId] show ?thesis
      unfolding e keepsS_cong [OF eq] by (rule keepsS_weaken) blast
  next
    case False
    have "fst (readSurround R ps exact p dataId s) = Inr x \<Longrightarrow> False" for s x
      using False unfolding e
      by (auto simp: readSurround_def bindS_def int_result_def err_simps split: sum.splits prod.splits if_splits)
    moreover have "snd (readSurround R ps exact p dataId s) = s" for s
      using False unfolding e
      by (auto simp: readSurround_def bindS_def int_result_def err_simps split: sum.splits prod.splits if_splits)
    ultimately show ?thesis by (auto simp: keepsS_def)
  qed
qed

lemma readBilinear_keeps:
  assumes "place_valid ps"
  shows "keepsS (ok R) (readBilinear R ps location exact dataId) (\<lambda>l. length l \<le> 1)"
  unfolding readBilinear_def
  by (rule keepsS_bind [OF readSurround_keeps [OF assms]])
    (auto simp: int_range_bounds err_simps intro!: keepsS_simple)

definition point_location :: "'g geos \<Rightarrow> 'g \<Rightarrow> bool" where
  "point_location G g \<longleftrightarrow> (\<exists>ll. GEOSGeom_getCoordSeq G g = Inr (Some [ll]) \<and> point_valid ll)"

lemma getExactIndex_keeps:
  assumes "place_valid ps" and "point_location (geos_of R) g"
  shows "keepsS (ok R) (getExactIndex R ps g) (\<lambda>_. True)"
proof -
  from assms(2) obtain ll where ll: "GEOSGeom_getCoordSeq (geos_of R) g = Inr (Some [ll])" "point_valid ll"
    by (auto simp: point_location_def)
  show ?thesis
    unfolding keepsS_def using getExactIndex_ok [of R _ ps, OF _ assms(1) ll] by blast
qed

lemma SinglePointReader_keeps:
  assumes "place_valid ps" and "point_location (geos_of R) g" and "int_range param"
  shows "keepsS (ok R) (SinglePointReader_read R ps g kind param dataId)
    (\<lambda>l. (kind \<noteq> Surround \<longrightarrow> length l \<le> 1) \<and> (kind \<noteq> Bilinear \<longrightarrow> (\<forall>d \<in> set l. in_grid ps d)))"
  unfolding SinglePointReader_read_def
proof (rule keepsS_bind [OF getExactIndex_keeps [OF assms(1,2)]])
  fix exact
  show "keepsS (ok R) (case kind of Exact \<Rightarrow> readExact R ps exact dataId | Nearest \<Rightarrow> readNearest R ps exact dataId
       | Surround \<Rightarrow> readSurround R ps exact param dataId | Bilinear \<Rightarrow> readBilinear R ps g exact dataId)
     (\<lambda>l. (kind \<noteq> Surround \<longrightarrow> length l \<le> 1) \<and> (kind \<noteq> Bilinear \<longrightarrow> (\<forall>d \<in> set l. in_grid ps d)))"
    using readExact_keeps [OF assms(1)] readNearest_keeps [OF assms(1)] readSurround_keeps [OF assms(1,3)]
      readBilinear_keeps [OF assms(1)]
    by (cases kind) simp_all
qed

lemma read_counted_keeps:
  assumes "place_valid ps" and "\<forall>(x, y) \<in> set pts. int_range x \<and> int_range y" and "\<forall>d \<in> set out. in_grid ps d"
    and "length out \<le> n"
  shows "keepsS (ok R) (read_counted R ps dataId n pts out) (\<lambda>l. length l \<le> n \<and> (\<forall>d \<in> set l. in_grid ps d))"
  using assms
proof (induction pts arbitrary: out)
  case (Cons p pts)
  obtain x y where p: "p = (x, y)" by (cases p)
  show ?case
  proof (cases "n \<le> length out")
    case True
    then have done_eq: "read_counted R ps dataId n (p # pts) out = retS out" by (simp add: p)
    show ?thesis
      unfolding done_eq by (rule keepsS_simple(1)) (use Cons.prems(3,4) in blast)
  next
    case False
    have xy: "int_range x" "int_range y" using Cons.prems(2) p by simp_all
    have "keepsS (ok R) (read_counted R ps dataId n pts (out @ optional_list r)) (\<lambda>l. length l \<le> n \<and> (\<forall>d \<in> set l. in_grid ps d))"
      if "read_result ps x y r" for r
      using read_result_list [OF that] False Cons.prems by (intro Cons.IH) auto
    then show ?thesis
      unfolding p read_counted.simps using False
      by (simp add: keepsS_bind [OF readPoint_keeps [OF Cons.prems(1) xy]])
  qed
qed (auto intro!: keepsS_simple)

lemma index_ranges_ranges:
  assumes "index_ranges ps b = Inr (xs, ys)"
  shows "\<forall>(x, y) \<in> set (square xs ys). int_range x \<and> int_range y"
proof -
  have f: "0 \<le> i \<and> int_range i" if "first_index e s k = Inr i" for e s k i
  proof -
    from that obtain j where "int_range j" "i = (if j < 0 then 0 else j)"
      unfolding first_index_def mapE_eq_Inr double_to_int_Inr by blast
    then show ?thesis by (auto simp: int_range_bounds)
  qed
  have n: "i < 2 ^ 31" if "end_index e s k m = Inr i" for e s k m i
  proof -
    from that obtain j where "int_range j" "i = (if m < word_of_int j then sint m else j)"
      unfolding end_index_def mapE_eq_Inr double_to_int_Inr by blast
    moreover have "sint m < 2 ^ 31" using sint_lt [of m] by simp
    ultimately show ?thesis by (auto simp: int_range_bounds)
  qed
  from assms obtain sI eI sJ eJ where r: "first_index (left_edge b) (startX ps) (xIncrement ps) = Inr sI"
      "end_index (right_edge b) (startX ps) (xIncrement ps) (xNumber ps) = Inr eI"
      "first_index (bottom_edge b) (startY ps) (yIncrement ps) = Inr sJ"
      "end_index (top_edge b) (startY ps) (yIncrement ps) (yNumber ps) = Inr eJ"
      "xs = (sI, eI - 1)" "ys = (sJ, eJ - 1)"
    unfolding index_ranges_def bindE_eq_Inr by blast
  have "int_range z" if "0 \<le> s" "e < 2 ^ 31" "s \<le> z" "z \<le> e - 1" for s e z
    using that by (simp add: int_range_bounds)
  from this [OF conjunct1 [OF f [OF r(1)]] n [OF r(2)]] this [OF conjunct1 [OF f [OF r(3)]] n [OF r(4)]]
  show ?thesis unfolding r(5,6) by (auto simp: in_square)
qed

lemma intersecting_spec:
  assumes "intersecting P G ps polygon pts = Inr r"
  shows "r = filter (\<lambda>(i, j). \<exists>place. grid_point_place P ps i j = Inr place
    \<and> GEOSIntersects G polygon (GEOSGeom_createPoint G place) = 1) pts"
  using assms
  by (induction pts arbitrary: r) (auto simp: err_simps)

lemma gridPointsInPolygon_spec:
  assumes "gridPointsInPolygon P G ps polygon = Inr r"
  shows "(\<forall>(x, y) \<in> set r. int_range x \<and> int_range y \<and> (\<exists>place. grid_point_place P ps x y = Inr place
      \<and> GEOSIntersects G polygon (GEOSGeom_createPoint G place) = 1)) \<and> distinct r"
proof -
  from assms obtain b xs ys where b: "index_ranges ps b = Inr (xs, ys)" and r: "intersecting P G ps polygon (square xs ys) = Inr r"
    by (auto simp: gridPointsInPolygon_def err_simps)
  show ?thesis
    using index_ranges_ranges [OF b] distinct_square [of xs ys] unfolding intersecting_spec [OF r] by auto
qed

lemma PolygonReader_keeps:
  assumes "place_valid ps"
  shows "keepsS (ok R) (PolygonReader_read R ps g dataId) (\<lambda>l. length l \<le> MAX_RETURN \<and> (\<forall>d \<in> set l. in_grid ps d))"
  unfolding PolygonReader_read_def
proof (rule keepsS_bind [where Q = "\<lambda>r. \<forall>(x, y) \<in> set r. int_range x \<and> int_range y"])
  show "keepsS (ok R) (liftS (gridPointsInPolygon (proj_of R) (geos_of R) ps g)) (\<lambda>r. \<forall>(x, y) \<in> set r. int_range x \<and> int_range y)"
    by (rule keepsS_simple) (use gridPointsInPolygon_spec in fast)
  fix pts :: "(int \<times> int) list"
  assume r: "\<forall>(x, y) \<in> set pts. int_range x \<and> int_range y"
  have "keepsS (ok R) (bindS (read_counted R ps dataId (inside_count ps pts) pts []) (\<lambda>out.
        if length out < inside_count ps pts then failS (Undefined ''unset elements of the list'') else retS out))
      (\<lambda>l. length l \<le> MAX_RETURN \<and> (\<forall>d \<in> set l. in_grid ps d))" if "inside_count ps pts \<le> MAX_RETURN"
    by (rule keepsS_bind [OF read_counted_keeps [OF assms r]]) (use that in \<open>auto intro!: keepsS_simple\<close>)
  then show "keepsS (ok R) (if pts = [] then retS [] else readPolygon R ps pts dataId)
      (\<lambda>l. length l \<le> MAX_RETURN \<and> (\<forall>d \<in> set l. in_grid ps d))"
    by (auto simp: readPolygon_def Let_def intro!: keepsS_simple)
qed

definition index_pair :: "int \<times> int \<Rightarrow> point" where
  "index_pair xy = (of_integer (fst xy), of_integer (snd xy))"

definition data_index :: "'g GridPointData \<Rightarrow> point" where
  "data_index d = (gp_x d, gp_y d)"

text \<open>A polygon read fills the whole list, with the points inside the grid in their order.\<close>

lemma read_counted_spec:
  assumes "place_valid ps" and "ok R s" and "\<forall>(x, y) \<in> set pts. int_range x \<and> int_range y"
    and "n = length out + length (filter (\<lambda>(x, y). inside ps x y) pts)"
    and "read_counted R ps dataId n pts out s = (Inr l, s1)"
  shows "map data_index l = map data_index out @ map index_pair (filter (\<lambda>(x, y). inside ps x y) pts)"
  using assms(2-)
proof (induction pts arbitrary: out s)
  case (Cons p pts)
  obtain x y where p: "p = (x, y)" by (cases p)
  have xy: "int_range x" "int_range y" using Cons.prems(2) p by simp_all
  show ?case
  proof (cases "n \<le> length out")
    case True
    then have "filter (\<lambda>(x, y). inside ps x y) (p # pts) = []" using Cons.prems(3) by simp
    moreover have "l = out" using Cons.prems(4) True p by simp
    ultimately show ?thesis by (simp only: list.map append_Nil2)
  next
    case False
    then obtain r s2 where r: "readPoint R ps x y dataId s = (Inr r, s2)"
        "read_counted R ps dataId n pts (out @ optional_list r) s2 = (Inr l, s1)"
      using Cons.prems(4) by (auto simp: p bindS_eq_Inr)
    note k = keepsS_D(2) [OF readPoint_keeps [OF assms(1) xy] Cons.prems(1) r(1)]
    have n: "n = length (out @ optional_list r) + length (filter (\<lambda>(x, y). inside ps x y) pts)"
      using Cons.prems(3) k by (cases r) (auto simp: p read_result_def optional_list_def)
    from Cons.IH [OF _ _ n r(2)] Cons.prems(2) k have
      "map data_index l = map data_index (out @ optional_list r) @ map index_pair (filter (\<lambda>(x, y). inside ps x y) pts)"
      by simp
    moreover have "map data_index (optional_list r) = (if inside ps x y then [index_pair (x, y)] else [])"
      using k by (cases r) (auto simp: read_result_def optional_list_def data_index_def index_pair_def)
    ultimately show ?thesis by (simp add: p)
  qed
qed simp

lemma inside_count_eq:
  assumes "\<forall>(x, y) \<in> set pts. int_range x \<and> int_range y"
  shows "inside_count ps pts = length (filter (\<lambda>(x, y). inside ps x y) pts)"
proof -
  have "filter (\<lambda>(x, y). \<not> indexRefersToPointOutsideFile ps (of_integer x) (of_integer y)) pts
      = filter (\<lambda>(x, y). inside ps x y) pts"
  proof (rule filter_cong [OF refl])
    fix xy
    assume "xy \<in> set pts"
    moreover obtain x y where xy: "xy = (x, y)" by (cases xy)
    ultimately have "int_range x" "int_range y" using assms by auto
    from outside_iff [OF this, of ps]
    show "(case xy of (x, y) \<Rightarrow> \<not> indexRefersToPointOutsideFile ps (of_integer x) (of_integer y))
        = (case xy of (x, y) \<Rightarrow> inside ps x y)"
      by (simp only: xy prod.case inside_def)
  qed
  then show ?thesis unfolding inside_count_def by (rule arg_cong)
qed

lemma PolygonReader_spec:
  assumes ps: "place_valid ps" and s: "ok R s" and read: "PolygonReader_read R ps g dataId s = (Inr l, s1)"
  shows "\<exists>pts. gridPointsInPolygon (proj_of R) (geos_of R) ps g = Inr pts
    \<and> map data_index l = map index_pair (filter (\<lambda>(x, y). inside ps x y) pts)"
proof -
  from read obtain pts where pts: "gridPointsInPolygon (proj_of R) (geos_of R) ps g = Inr pts"
    and l: "(if pts = [] then retS [] else readPolygon R ps pts dataId) s = (Inr l, s1)"
    by (auto simp: PolygonReader_read_def bindS_eq_Inr)
  have r: "\<forall>(x, y) \<in> set pts. int_range x \<and> int_range y" using gridPointsInPolygon_spec [OF pts] by fast
  have "map data_index l = map index_pair (filter (\<lambda>(x, y). inside ps x y) pts)"
  proof (cases "pts = []")
    case True
    with l show ?thesis by simp
  next
    case False
    let ?n = "inside_count ps pts"
    from l False obtain out s2 where c: "read_counted R ps dataId ?n pts [] s = (Inr out, s2)" "l = out"
      by (auto simp: readPolygon_def Let_def bindS_eq_Inr split: if_splits)
    have n: "?n = length [] + length (filter (\<lambda>(x, y). inside ps x y) pts)"
      using inside_count_eq [OF r] by simp
    from read_counted_spec [OF ps s r n c(1)] c(2) show ?thesis by simp
  qed
  with pts show ?thesis by blast
qed

lemma report_keeps: "keepsS I m Q \<Longrightarrow> keepsS I (reportS c m) Q"
  by (fastforce simp: keepsS_def reportS_def report_std_eq_Inr split: prod.splits)

lemma readPoints_keeps:
  assumes "place_valid ps" and "int_range param"
    and "\<And>g. location = Some g \<Longrightarrow> GEOSGeomTypeId (geos_of R) g = GEOS_POINT \<Longrightarrow> point_location (geos_of R) g"
  shows "keepsS (ok R) (readPoints R ps location kind param dataId)
    (\<lambda>it. snd it = 0 \<and> (kind \<noteq> Bilinear \<longrightarrow> (\<forall>d \<in> set (fst it). in_grid ps d)))"
  unfolding readPoints_def
proof (rule keepsS_bind [OF getInstance_ok [OF assms(1)]], elim conjE, intro report_keeps keepsS_mapS)
  fix r
  assume r: "place_valid r" "same_grid ps r"
  have grid: "in_grid r = (in_grid ps :: 'a GridPointData \<Rightarrow> bool)"
    using r(2) by (auto simp: fun_eq_iff in_grid_def inside_def same_grid_def)
  let ?call = "case location of None \<Rightarrow> retS [] | Some g \<Rightarrow>
      (let t = GEOSGeomTypeId (geos_of R) g in
       if t = GEOS_POINT then SinglePointReader_read R r g kind param dataId
       else if t = GEOS_POLYGON \<or> t = GEOS_MULTIPOLYGON then PolygonReader_read R r g dataId
       else failS (Runtime_error ''This geometry type is not supported''))"
  show "keepsS (ok R) ?call (\<lambda>l. kind \<noteq> Bilinear \<longrightarrow> (\<forall>d \<in> set l. in_grid ps d))"
  proof (cases location)
    case None
    then show ?thesis by (auto intro!: keepsS_simple)
  next
    case (Some g)
    have single: "keepsS (ok R) (SinglePointReader_read R r g kind param dataId) (\<lambda>l. kind \<noteq> Bilinear \<longrightarrow> (\<forall>d \<in> set l. in_grid ps d))"
      if "GEOSGeomTypeId (geos_of R) g = GEOS_POINT"
      using SinglePointReader_keeps [OF r(1) assms(3) [OF Some that] assms(2), of kind dataId]
      by (rule keepsS_weaken) (simp add: grid)
    have poly: "keepsS (ok R) (PolygonReader_read R r g dataId) (\<lambda>l. kind \<noteq> Bilinear \<longrightarrow> (\<forall>d \<in> set l. in_grid ps d))"
      using PolygonReader_keeps [OF r(1), of R g dataId] by (rule keepsS_weaken) (simp add: grid)
    show ?thesis
      unfolding Some option.case Let_def using single poly by (auto intro!: keepsS_simple)
  qed
qed (auto simp: GridPointDataListIteratorNew_def)

lemma reportS_errors: "reportS c m s = (Inl e, s1) \<Longrightarrow> \<not> is_std_exception e"
  using report_std_no_std by (fastforce simp: reportS_def split: prod.splits)

text \<open>Taking everything from an iterator, as the callers do.\<close>

function drain :: "'g point_iterator \<Rightarrow> 'g GridPointDataList" where
  "drain it = (case GridPointDataListIteratorNext it of
     (None, _) \<Rightarrow> []
   | (Some d, it') \<Rightarrow> d # drain it')"
  by auto

termination drain
  by (relation "measure (\<lambda>it. length (fst it) - snd it)")
    (auto simp: GridPointDataListIteratorNext_def GridPointDataListIteratorAtEnd_def split: if_splits)

declare drain.simps [simp del]

lemma drain_drop: "drain (list, pos) = drop pos list"
proof (induction "length list - pos" arbitrary: pos)
  case 0
  then show ?case
    by (subst drain.simps) (simp add: GridPointDataListIteratorNext_def GridPointDataListIteratorAtEnd_def)
next
  case (Suc n)
  then have "pos < length list" "drain (list, pos + 1) = drop (pos + 1) list" by simp_all
  then show ?case
    by (subst drain.simps) (simp add: GridPointDataListIteratorNext_def GridPointDataListIteratorAtEnd_def Cons_nth_drop_Suc)
qed

end
