(* ===== verification/ReadResults.thy ===== *)
theory ReadResults
  imports Readers
begin

text \<open>
  What reading points of a grid gives. The lemmas say which indexes a list of read points has, where the
  surrounding square of a position lies, and which value each point gets from the file; the properties
  state this for each kind of read that \<open>readPoints.cpp\<close> chooses between.
\<close>

section \<open>Surrounding squares\<close>

lemma map_index_points:
  assumes "place_valid ps" and "\<forall>(x, y) \<in> set pts. int_range x \<and> int_range y" and "ok R s"
    and "mapS (\<lambda>rs. concat (map optional_list rs)) (forS pts (\<lambda>(x, y). readPoint R ps x y dataId)) s = (Inr l, s1)"
  shows "map data_index l = map index_pair (filter (\<lambda>(x, y). inside ps x y) pts)"
proof -
  have k: "keepsS (ok R) (forS pts (\<lambda>(x, y). readPoint R ps x y dataId)) (list_all2 (\<lambda>(x, y). read_result ps x y) pts)"
    by (rule keepsS_for) (use assms(1,2) in \<open>auto intro!: readPoint_keeps\<close>)
  from assms(4) obtain rs where rs: "forS pts (\<lambda>(x, y). readPoint R ps x y dataId) s = (Inr rs, s1)"
      "l = concat (map optional_list rs)"
    by (auto simp: mapS_eq_Inr)
  from keepsS_D(2) [OF k assms(3) rs(1)] have "list_all2 (\<lambda>(x, y). read_result ps x y) pts rs" by (rule conjunct1)
  then show ?thesis
    unfolding rs(2)
    by (induction rule: list_all2_induct)
      (auto simp: read_result_def optional_list_def data_index_def index_pair_def split: option.splits)
qed

lemma off_grid_line_floor:
  assumes "\<bar>q\<bar> < 2 ^ 30"
  shows "\<exists>w. off_grid_line (Fin q) = Inr (Fin w) \<and> \<lfloor>w\<rfloor> = \<lfloor>q\<rfloor> \<and> \<lceil>w\<rceil> = \<lfloor>q\<rfloor> + 1"
proof -
  have fl: "- (2 ^ 30) \<le> \<lfloor>q\<rfloor>" "\<lceil>q\<rceil> \<le> 2 ^ 30"
    using assms by (simp_all add: le_floor_iff ceiling_le_iff)
  have tr: "- (2 ^ 30) \<le> trunc q" "trunc q \<le> 2 ^ 30" using fl trunc_floor [of q] by linarith+
  have r: "int_range (trunc q)" "of_integer (trunc q) = Fin (of_int (trunc q))"
    using tr by (auto simp: int_range_bounds intro!: of_integer_exact)
  show ?thesis
  proof (cases "q = of_int (trunc q)")
    case True
    define k where "k = trunc q"
    have k: "q = of_int k" "\<bar>2 * k + 1\<bar> \<le> 2 ^ 53" using True tr by (simp_all add: k_def abs_le_iff)
    have "dadd (Fin q) (Fin (1 / 2)) = Fin (of_int k + 1 / 2)"
      using rnd_half [OF k(2)] unfolding k(1) by (simp add: dadd_def add_divide_distrib)
    moreover have "trunc q = k" by (simp add: k_def)
    ultimately have "off_grid_line (Fin q) = Inr (Fin (of_int k + 1 / 2))"
      using r k(1) by (simp add: off_grid_line_def feq_def)
    moreover have "\<lfloor>of_int k + 1 / 2 :: rat\<rfloor> = k" "\<lceil>of_int k + 1 / 2 :: rat\<rceil> = k + 1"
      by (simp_all add: floor_eq_iff ceiling_eq_iff)
    ultimately show ?thesis using k(1) by auto
  next
    case False
    then have "off_grid_line (Fin q) = Inr (Fin q)" using r by (simp add: off_grid_line_def feq_def)
    moreover have "\<lceil>q\<rceil> = \<lfloor>q\<rfloor> + 1" using False trunc_integer_iff by (intro ceiling_next) metis
    ultimately show ?thesis by blast
  qed
qed

lemma surround_range_floor:
  assumes w: "\<lfloor>w\<rfloor> = f" "\<lceil>w\<rceil> = f + 1" and f: "- (2 ^ 30) \<le> f" "f \<le> 2 ^ 30" and p: "0 \<le> p" "p \<le> 2 ^ 20"
  shows "surround_range (Fin w) p = Inr (f - (p - 1), f + p)"
proof -
  have op: "of_integer (p - 1) = Fin (of_int (p - 1))" using p by (intro of_integer_exact) simp
  define A B where "A = f - (p - 1)" and "B = f + 1 + (p - 1)"
  have "dsub (ffloor (Fin w)) (of_integer (p - 1)) = Fin (of_int A)"
    unfolding op ffloor.simps w A_def by (rule dsub_int) (use f p in \<open>simp add: abs_le_iff\<close>)
  moreover have "dadd (fceil (Fin w)) (of_integer (p - 1)) = Fin (of_int B)"
    unfolding op fceil.simps w B_def by (rule dadd_int) (use f p in \<open>simp add: abs_le_iff\<close>)
  moreover have "trunc (of_int k) = k" for k by (simp add: trunc_def)
  moreover have "int_range A" "int_range B" "B \<noteq> INT_MAX"
    using f p by (auto simp: A_def B_def int_range_bounds INT_MAX_def)
  ultimately have "surround_range (Fin w) p = Inr (A, B)" by (simp add: surround_range_def)
  then show ?thesis by (simp add: A_def B_def)
qed

section \<open>What is read\<close>

text \<open>The file of a grid is there and holds a float for every point.\<close>

definition grid_readable :: "'g reading \<Rightarrow> PlaceSpecification \<Rightarrow> FileId \<Rightarrow> string \<Rightarrow> 'g session \<Rightarrow> bool" where
  "grid_readable R ps dataId c s \<longleftrightarrow> (\<exists>base. ready (blob_store s) base
     \<and> content_of (blob_store s) (PathGenerator_path base dataId) = Some c
     \<and> can_open (os_of R) (PathGenerator_path base dataId))
   \<and> uint (xNumber ps) * uint (yNumber ps) \<le> 2 ^ 31
   \<and> 4 * (uint (xNumber ps) * uint (yNumber ps)) \<le> int (length c)"

definition grid_places :: "'g reading \<Rightarrow> PlaceSpecification \<Rightarrow> bool" where
  "grid_places R ps \<longleftrightarrow> (\<forall>x y. inside ps x y \<longrightarrow> (\<exists>p. place_of_index (proj_of R) ps (of_integer x, of_integer y) = Inr p))"

text \<open>The point with the float at its place in row order.\<close>

definition stored_point :: "'g reading \<Rightarrow> PlaceSpecification \<Rightarrow> string \<Rightarrow> int \<times> int \<Rightarrow> 'g GridPointData option" where
  "stored_point R ps c = (\<lambda>(x, y). if inside ps x y
     then Some \<lparr>gp_location = GEOSGeom_createPoint (geos_of R) (projr (place_of_index (proj_of R) ps (of_integer x, of_integer y))),
       gp_value = read_floats c 0 ! nat (y * uint (xNumber ps) + x), gp_x = of_integer x, gp_y = of_integer y\<rparr>
     else None)"

lemma getGeometry_store: "blob_store (snd (getGeometry R ps xy s)) = blob_store s"
  by (simp add: getGeometry_def getGeomFromCache_def setGeomCache_def with_projections_def zoomS_def bindS_def
      modifyS_def getS_def retS_def with_cache_def Let_def split: option.split prod.split sum.split)

lemma readFloat_grid:
  assumes "grid_readable R ps dataId c s" and "inside ps x y"
  shows "with_storage (readFloatFromFile (storage_spi R) (os_of R) dataId (sint (indexFromXy (word_of_int x) (word_of_int y) ps))) s
    = (Inr (read_floats c 0 ! nat (y * uint (xNumber ps) + x)), s)"
proof -
  from assms(1) obtain base where b: "ready (blob_store s) base" "content_of (blob_store s) (PathGenerator_path base dataId) = Some c"
      "can_open (os_of R) (PathGenerator_path base dataId)"
    and size: "uint (xNumber ps) * uint (yNumber ps) \<le> 2 ^ 31" "4 * (uint (xNumber ps) * uint (yNumber ps)) \<le> int (length c)"
    unfolding grid_readable_def by blast
  define i where "i = y * uint (xNumber ps) + x"
  have i: "sint (indexFromXy (word_of_int x) (word_of_int y) ps) = i" "0 \<le> i" "i < uint (xNumber ps) * uint (yNumber ps)"
    using file_index [of x ps y] assms(2) size(1) unfolding inside_def i_def by blast+
  from i(3) size(2) have "4 * i + 4 \<le> int (length c)" by linarith
  then have "nat i < (length c - 0) div 4" using i(2) by linarith
  then have "readFloat_next c (nat i * 4) = Inr (read_floats c 0 ! nat i)"
    using read_floats_nth [of c 0] by (simp add: mult.commute)
  then have "readFloat_at (Some c) i = Inr (read_floats c 0 ! nat i)"
    using i(2) by (simp add: readFloat_at_def)
  then show ?thesis
    unfolding i(1) i_def [symmetric]
    by (simp add: with_storage_def zoomS_def readFloatFromFile_def with_blob_ready [OF b(1)] b(2,3))
qed

lemma readPoint_value:
  assumes "place_valid ps" and "ok R s" and "int_range x" "int_range y"
    and "grid_places R ps" and "grid_readable R ps dataId c s"
  shows "\<exists>s1. readPoint R ps x y dataId s = (Inr (stored_point R ps c (x, y)), s1) \<and> ok R s1 \<and> grid_readable R ps dataId c s1"
proof (cases "inside ps x y")
  case False
  then have "readPoint R ps x y dataId s = (Inr None, s)"
    unfolding inside_def by (rule readPoint_outside [OF assms(3,4)])
  with False assms(2,6) show ?thesis by (simp add: stored_point_def)
next
  case True
  then obtain p where p: "place_of_index (proj_of R) ps (of_integer x, of_integer y) = Inr p"
    using assms(5) unfolding grid_places_def by blast
  obtain r s1 where g: "getGeometry R ps (of_integer x, of_integer y) s = (r, s1)" by fastforce
  from getGeometry_ok [OF assms(2,1) point_valid_index [OF assms(3,4)]] g p
  have r: "r = Inr (GEOSGeom_createPoint (geos_of R) p)" "ok R s1" by simp_all
  have "grid_readable R ps dataId c s1"
    using getGeometry_store [of R ps "(of_integer x, of_integer y)" s] g assms(6) by (simp add: grid_readable_def)
  moreover from readFloat_grid [OF this True]
  have "readPoint R ps x y dataId s = (Inr (stored_point R ps c (x, y)), s1)"
    using True outside_iff [OF assms(3,4), of ps] g r p
    by (simp add: readPoint_def bindS_Inr stored_point_def inside_def)
  ultimately show ?thesis using r(2) by blast
qed

lemma readPoints_values:
  assumes "place_valid ps" and "grid_places R ps" and "\<forall>(x, y) \<in> set pts. int_range x \<and> int_range y"
    and "ok R s" and "grid_readable R ps dataId c s"
  shows "\<exists>s1. forS pts (\<lambda>(x, y). readPoint R ps x y dataId) s = (Inr (map (stored_point R ps c) pts), s1)
    \<and> ok R s1 \<and> grid_readable R ps dataId c s1"
  using assms(3-)
proof (induction pts arbitrary: s)
  case (Cons p pts)
  obtain x y where p: "p = (x, y)" by (cases p)
  have xy: "int_range x" "int_range y" using Cons.prems(1) p by simp_all
  from readPoint_value [OF assms(1) Cons.prems(2) xy assms(2) Cons.prems(3)] obtain s1
    where s1: "readPoint R ps x y dataId s = (Inr (stored_point R ps c (x, y)), s1)" "ok R s1" "grid_readable R ps dataId c s1"
    by blast
  have r: "\<forall>(x, y) \<in> set pts. int_range x \<and> int_range y" using Cons.prems(1) by simp
  from Cons.IH [OF r s1(2,3)] obtain s2
    where "forS pts (\<lambda>(x, y). readPoint R ps x y dataId) s1 = (Inr (map (stored_point R ps c) pts), s2)"
      "ok R s2" "grid_readable R ps dataId c s2" by blast
  then show ?case using s1(1) by (simp add: p bindS_Inr)
qed simp

text \<open>The points of a grid column by column, as \<open>AllPointsReader\<close> lists them.\<close>

definition all_indexes :: "PlaceSpecification \<Rightarrow> (int \<times> int) list" where
  "all_indexes ps = concat (map (\<lambda>x. map (\<lambda>y. (int x, int y)) [0..<unat (yNumber ps)]) [0..<unat (xNumber ps)])"

lemma forS_map: "forS (map g xs) f s = forS xs (\<lambda>x. f (g x)) s"
  by (induction xs arbitrary: s) (auto simp: bindS_def split: prod.split sum.split)

lemma forS_cong: "(\<And>x s. x \<in> set xs \<Longrightarrow> f x s = g x s) \<Longrightarrow> forS xs f s = forS xs g s"
proof (induction xs arbitrary: s)
  case (Cons x xs)
  have "forS xs f = forS xs g" using Cons by (intro ext) simp
  then show ?case using Cons.prems [of x] by (simp add: bindS_def)
qed simp

lemma in_all_indexes: "(x, y) \<in> set (all_indexes ps) \<longleftrightarrow> inside ps x y"
proof -
  have "(x, y) \<in> set (all_indexes ps) \<longleftrightarrow>
      (\<exists>a < unat (xNumber ps). \<exists>b < unat (yNumber ps). x = int a \<and> y = int b)"
    unfolding all_indexes_def set_concat set_map set_upt by force
  also have "\<dots> \<longleftrightarrow> 0 \<le> x \<and> nat x < unat (xNumber ps) \<and> 0 \<le> y \<and> nat y < unat (yNumber ps)"
    by (metis int_nat_eq nat_int of_nat_0_le_iff)
  also have "\<dots> \<longleftrightarrow> inside ps x y"
    unfolding inside_def unat_eq_nat_uint using nat_less_eq_zless [of x "uint (xNumber ps)"] nat_less_eq_zless [of y "uint (yNumber ps)"]
    by blast
  finally show ?thesis .
qed

lemma grid_fits:
  assumes "uint (xNumber ps) * uint (yNumber ps) \<le> 2 ^ 31"
  shows "place_points ps = unat (xNumber ps) * unat (yNumber ps)"
    and "inside ps x y \<Longrightarrow> int_range x \<and> int_range y"
proof -
  have u: "uint (xNumber ps * yNumber ps) = uint (xNumber ps) * uint (yNumber ps)"
    unfolding uint_word_ariths by (rule mod_pos_pos_trivial) (use assms in simp_all)
  show "place_points ps = unat (xNumber ps) * unat (yNumber ps)"
    unfolding place_points_def unat_eq_nat_uint u by (rule nat_mult_distrib) simp
  assume "inside ps x y"
  then have xy: "0 \<le> x" "x < uint (xNumber ps)" "0 \<le> y" "y < uint (yNumber ps)" by (simp_all add: inside_def)
  have "uint (xNumber ps) * 1 \<le> uint (xNumber ps) * uint (yNumber ps)" "1 * uint (yNumber ps) \<le> uint (xNumber ps) * uint (yNumber ps)"
    by (rule mult_left_mono, use xy in linarith, use xy in linarith) (rule mult_right_mono, use xy in linarith, use xy in linarith)
  with assms have "uint (xNumber ps) \<le> 2 ^ 31" "uint (yNumber ps) \<le> 2 ^ 31" by linarith+
  with xy show "int_range x \<and> int_range y" by (auto simp: int_range_bounds)
qed

lemma AllPointsReader_values:
  assumes "place_valid ps" and "grid_places R ps" and "ok R s" and "grid_readable R ps dataId c s"
  shows "\<exists>s1. AllPointsReader_read R ps dataId s = (Inr (map (the \<circ> stored_point R ps c) (all_indexes ps)), s1) \<and> ok R s1"
proof -
  have size: "uint (xNumber ps) * uint (yNumber ps) \<le> 2 ^ 31" using assms(4) by (simp add: grid_readable_def)
  have r: "\<forall>(x, y) \<in> set (all_indexes ps). int_range x \<and> int_range y"
    using grid_fits(2) [OF size] in_all_indexes by auto
  let ?read = "\<lambda>(x, y). readPoint R ps x y dataId"
  let ?pairs = "concat (map (\<lambda>x. map (\<lambda>y. (x, y)) [0..<unat (yNumber ps)]) [0..<unat (xNumber ps)])"
  have pairs: "all_indexes ps = map (\<lambda>(x, y). (int x, int y)) ?pairs"
    by (simp add: all_indexes_def map_concat comp_def)
  have conv: "forS ?pairs (\<lambda>(x, y). readPoint R ps (sint (word_of_nat x :: 32 word)) (sint (word_of_nat y :: 32 word)) dataId) s
      = forS (all_indexes ps) ?read s"
    unfolding pairs forS_map
  proof (rule forS_cong)
    fix ab s'
    assume ab_in: "ab \<in> set ?pairs"
    obtain a b where ab: "ab = (a, b)" by (cases ab)
    from ab_in have "(int a, int b) \<in> set (all_indexes ps)" unfolding pairs ab by force
    with r have "int a < 2 ^ 31" "int b < 2 ^ 31" by (auto simp: int_range_bounds)
    then have "sint (word_of_nat a :: 32 word) = int a" "sint (word_of_nat b :: 32 word) = int b"
      using sint_small [of "int a"] sint_small [of "int b"] by simp_all
    then show "(case ab of (x, y) \<Rightarrow> readPoint R ps (sint (word_of_nat x :: 32 word)) (sint (word_of_nat y :: 32 word)) dataId) s'
        = (case case ab of (x, y) \<Rightarrow> (int x, int y) of (x, y) \<Rightarrow> readPoint R ps x y dataId) s'"
      by (simp add: ab)
  qed
  from readPoints_values [OF assms(1,2) r assms(3,4)] obtain s1
    where s1: "forS (all_indexes ps) ?read s = (Inr (map (stored_point R ps c) (all_indexes ps)), s1)" "ok R s1" by blast
  have some: "stored_point R ps c p \<noteq> None" if "p \<in> set (all_indexes ps)" for p
    using that in_all_indexes [of "fst p" "snd p" ps] by (simp add: stored_point_def case_prod_beta)
  have "concat (map optional_list (map (stored_point R ps c) ps')) = map (the \<circ> stored_point R ps c) ps'"
    if "\<forall>p \<in> set ps'. stored_point R ps c p \<noteq> None" for ps'
    using that by (induction ps') (auto simp: optional_list_def)
  with some have "concat (map optional_list (map (stored_point R ps c) (all_indexes ps)))
      = map (the \<circ> stored_point R ps c) (all_indexes ps)" by blast
  moreover have "None \<notin> set (map (stored_point R ps c) (all_indexes ps))" using some by force
  moreover from s1(1) conv have
    "forS ?pairs (\<lambda>(x, y). readPoint R ps (sint (word_of_nat x :: 32 word)) (sint (word_of_nat y :: 32 word)) dataId) s
      = (Inr (map (stored_point R ps c) (all_indexes ps)), s1)" by simp
  ultimately show ?thesis
    unfolding AllPointsReader_read_def using grid_fits(1) [OF size] s1(2) by (simp add: bindS_def retS_def del: map_map)
qed

section \<open>Properties\<close>

text \<open>The square of points around a position.\<close>

definition around :: "rat \<Rightarrow> rat \<Rightarrow> int \<Rightarrow> (int \<times> int) list" where
  "around qx qy p = square (\<lfloor>qx\<rfloor> - (p - 1), \<lfloor>qx\<rfloor> + p) (\<lfloor>qy\<rfloor> - (p - 1), \<lfloor>qy\<rfloor> + p)"

lemma around_room:
  assumes "\<bar>qx\<bar> < 2 ^ 30" and "\<bar>qy\<bar> < 2 ^ 30" and "0 \<le> p" "p \<le> 2 ^ 14"
  shows "length (around qx qy p) = nat (p * 2) * nat (p * 2)"
    and "\<forall>(x, y) \<in> set (around qx qy p). int_range x \<and> int_range y"
    and "readSurround R ps (Fin qx, Fin qy) p dataId s =
      mapS (\<lambda>rs. concat (map optional_list rs)) (forS (around qx qy p) (\<lambda>(x, y). readPoint R ps x y dataId)) s"
proof -
  have f: "- (2 ^ 30) \<le> \<lfloor>qx\<rfloor>" "\<lfloor>qx\<rfloor> \<le> 2 ^ 30" "- (2 ^ 30) \<le> \<lfloor>qy\<rfloor>" "\<lfloor>qy\<rfloor> \<le> 2 ^ 30"
    using assms(1,2) by (simp_all add: le_floor_iff floor_le_iff)
  have p: "p \<le> 2 ^ 20" "int_range p" "int_range (p * 2)" using assms(3,4) by (simp_all add: int_range_bounds)
  have "p * p \<le> 2 ^ 14 * 2 ^ 14" using assms(3,4) by (intro mult_mono) simp_all
  moreover have "0 \<le> p * p" by simp
  ultimately have "- 536870912 \<le> p * p" "p * p < 536870912" by (simp, linarith, simp)
  then have p2: "int_range (p * 2 * (p * 2))" by (simp add: int_range_bounds)
  from off_grid_line_floor [OF assms(1)] obtain wx
    where wx: "off_grid_line (Fin qx) = Inr (Fin wx)" "\<lfloor>wx\<rfloor> = \<lfloor>qx\<rfloor>" "\<lceil>wx\<rceil> = \<lfloor>qx\<rfloor> + 1" by blast
  from off_grid_line_floor [OF assms(2)] obtain wy
    where wy: "off_grid_line (Fin qy) = Inr (Fin wy)" "\<lfloor>wy\<rfloor> = \<lfloor>qy\<rfloor>" "\<lceil>wy\<rceil> = \<lfloor>qy\<rfloor> + 1" by blast
  note xs = surround_range_floor [OF wx(2,3) f(1,2) assms(3) p(1)]
  note ys = surround_range_floor [OF wy(2,3) f(3,4) assms(3) p(1)]
  show "\<forall>(x, y) \<in> set (around qx qy p). int_range x \<and> int_range y"
    unfolding around_def using square_room [OF wx(1) xs wy(1) ys p(2)] by blast
  show "length (around qx qy p) = nat (p * 2) * nat (p * 2)"
    unfolding around_def length_square by (simp add: algebra_simps)
  show "readSurround R ps (Fin qx, Fin qy) p dataId s =
      mapS (\<lambda>rs. concat (map optional_list rs)) (forS (around qx qy p) (\<lambda>(x, y). readPoint R ps x y dataId)) s"
    unfolding around_def by (rule readSurround_eq [OF wx(1) xs wy(1) ys p(2,3) p2])
qed

lemma readSurround_indexes:
  assumes "place_valid ps" and "ok R s" and b: "\<bar>qx\<bar> < 2 ^ 30" "\<bar>qy\<bar> < 2 ^ 30" "0 \<le> p" "p \<le> 2 ^ 14"
    and read: "readSurround R ps (Fin qx, Fin qy) p dataId s = (Inr l, s1)"
  shows "map data_index l = map index_pair (filter (\<lambda>(x, y). inside ps x y) (around qx qy p))"
  by (rule map_index_points [OF assms(1) around_room(2) [OF b] assms(2)])
    (rule read [unfolded around_room(3) [OF b]])

text \<open>C20: reading the surrounding points of a position never writes past its array: the loops visit
  exactly the \<open>(2p)\<^sup>2\<close> points of the square of cells around the position, also when the position is on a
  grid line, row by row from the south, and return those of them that are inside the grid.\<close>

theorem surround_points:
  assumes "place_valid ps" and "ok R s" and "\<bar>qx\<bar> < 2 ^ 30" and "\<bar>qy\<bar> < 2 ^ 30" and "0 \<le> p" and "p \<le> 2 ^ 14"
  shows "length (around qx qy p) = nat (p * 2) * nat (p * 2)
    \<and> readSurround R ps (Fin qx, Fin qy) p dataId s =
      mapS (\<lambda>rs. concat (map optional_list rs)) (forS (around qx qy p) (\<lambda>(x, y). readPoint R ps x y dataId)) s
    \<and> (\<forall>l s1. readSurround R ps (Fin qx, Fin qy) p dataId s = (Inr l, s1) \<longrightarrow>
        map data_index l = map index_pair (filter (\<lambda>(x, y). inside ps x y) (around qx qy p)))"
  using around_room (1,2) [OF assms(3-6)] around_room(3) [OF assms(3-6), of R ps dataId s]
    readSurround_indexes [OF assms] by blast

text \<open>The value of a grid point survives the interpolation with fraction zero.\<close>

definition float_value :: "fp \<Rightarrow> bool" where
  "float_value v \<longleftrightarrow> (\<exists>q. v = Fin q \<and> representable binary32 q)"

lemma representable_widen: "representable binary32 q \<Longrightarrow> representable binary64 q"
proof -
  assume "representable binary32 q"
  then obtain m e where q: "-149 \<le> e" "\<bar>m\<bar> \<le> 2 ^ 24" "q = of_int m * pow2 e" "\<bar>q\<bar> < pow2 128"
    unfolding representable_def by (auto simp: binary32_def)
  have "\<bar>m\<bar> \<le> 2 ^ 53" using q(2) by simp
  moreover have "\<bar>q\<bar> < pow2 1024" using q(4) pow2_mono [of 128 1024] by simp
  ultimately show ?thesis unfolding representable_def using q(1,3)
    by (intro conjI exI [of _ m] exI [of _ e]) (simp_all add: binary64_def)
qed

lemma linear_start:
  assumes "float_value low" and "high = Fin h"
  shows "linear low high (Fin 0) = low"
proof -
  from assms(1) obtain q where q: "low = Fin q" "representable binary32 q" by (auto simp: float_value_def)
  have r: "rnd binary64 q = Fin q" by (rule rnd_exact [OF representable_widen [OF q(2)]]) (simp_all add: binary64_def)
  have r32: "rnd binary32 q = Fin q" by (rule rnd_exact [OF q(2)]) (simp_all add: binary32_def)
  have one: "rnd binary64 1 = Fin 1" using rnd_int [of 1] by simp
  have zero: "rnd binary64 0 = Fin 0" by (simp add: rnd_def)
  show ?thesis by (simp add: linear_def q(1) assms(2) dsub_def fsub_def dmul_def dadd_def one zero r r32)
qed

lemma fraction_integer: "int_range x \<Longrightarrow> fraction (of_integer x) = Inr (Fin 0)"
proof -
  assume x: "int_range x"
  then have "of_integer x = Fin (of_int x)" by (intro of_integer_exact) (auto simp: int_range_bounds)
  moreover have "trunc (of_int x) = x" by (simp add: trunc_def)
  moreover have "dsub (Fin (of_int x)) (Fin (of_int x)) = Fin 0" using dsub_int [of x x] by simp
  ultimately show ?thesis using x by (simp add: fraction_def)
qed

lemma bilinear_start:
  assumes "int_range x" "int_range y" and "length dl = 4" and "\<forall>d \<in> set dl. float_value (gp_value d)"
  shows "bilinear dl (of_integer x, of_integer y) = Inr (gp_value (dl ! 0))"
proof -
  have v: "float_value (gp_value (dl ! i))" if "i < 4" for i using that assms(3,4) by simp
  have h: "\<exists>h. w = Fin h" if "float_value w" for w using that by (auto simp: float_value_def)
  have l: "linear a b (Fin 0) = a" if "float_value a" "float_value b" for a b
    using linear_start [OF that(1)] h [OF that(2)] by blast
  show ?thesis
    unfolding bilinear_def fst_conv snd_conv fraction_integer [OF assms(1)] fraction_integer [OF assms(2)] Let_def
    by (simp add: l v)
qed

lemma around_point:
  assumes "-(2 ^ 30) < x" "x < 2 ^ 30" and "-(2 ^ 30) < y" "y < 2 ^ 30"
  shows "around (of_int x) (of_int y) 1 = [(x, y), (x + 1, y), (x, y + 1), (x + 1, y + 1)]"
proof -
  have u: "[a..a + 1] = [a, a + 1]" for a :: int by (simp add: upto_rec1)
  show ?thesis by (simp add: around_def square_def u)
qed

text \<open>C22: bilinear interpolation at a grid point reads the cell to the north-east of the point. Where that
  cell is inside the grid it returns one point with the asked location whose value is that of the grid
  point; in the last row and the last column, which have no such cell, it returns nothing although the
  grid point itself exists.\<close>

theorem bilinear_at_grid_point:
  assumes "place_valid ps" and "ok R s" and "inside ps x y" and "x < 2 ^ 30" and "y < 2 ^ 30"
    and read: "readBilinear R ps location (of_integer x, of_integer y) dataId s = (Inr l, s1)"
  shows "\<exists>near. readSurround R ps (of_integer x, of_integer y) 1 dataId s = (Inr near, s1)
    \<and> map data_index near
      = map index_pair (filter (\<lambda>(x, y). inside ps x y) [(x, y), (x + 1, y), (x, y + 1), (x + 1, y + 1)])
    \<and> (if x + 1 < uint (xNumber ps) \<and> y + 1 < uint (yNumber ps)
       then (\<forall>d \<in> set near. float_value (gp_value d)) \<longrightarrow>
         l = [\<lparr>gp_location = location, gp_value = gp_value (near ! 0), gp_x = of_integer x, gp_y = of_integer y\<rparr>]
       else l = [])"
proof -
  have xy: "0 \<le> x" "0 \<le> y" using assms(3) by (simp_all add: inside_def)
  have i: "int_range x" "int_range y" using xy assms(4,5) by (simp_all add: int_range_bounds)
  have fin: "of_integer x = Fin (of_int x)" "of_integer y = Fin (of_int y)"
    using xy assms(4,5) by (simp_all add: of_integer_exact)
  have small: "\<bar>of_int x :: rat\<bar> < 2 ^ 30" "\<bar>of_int y :: rat\<bar> < 2 ^ 30"
    using of_int_less_iff [of x "2 ^ 30", where 'a = rat] of_int_less_iff [of y "2 ^ 30", where 'a = rat] xy assms(4,5)
    by (simp_all del: of_int_less_iff)
  have q: "around (of_int x) (of_int y) 1 = [(x, y), (x + 1, y), (x, y + 1), (x + 1, y + 1)]"
    by (rule around_point) (use xy assms(4,5) in simp_all)
  from read obtain near s2 where near: "readSurround R ps (of_integer x, of_integer y) 1 dataId s = (Inr near, s2)"
    and l: "(if length near < 4 then retS [] else liftS (mapE (\<lambda>v. [\<lparr>gp_location = location, gp_value = v,
        gp_x = of_integer x, gp_y = of_integer y\<rparr>]) (bilinear near (of_integer x, of_integer y)))) s2 = (Inr l, s1)"
    unfolding readBilinear_def bindS_eq_Inr fst_conv snd_conv by blast
  have idx: "map data_index near
      = map index_pair (filter (\<lambda>(x, y). inside ps x y) [(x, y), (x + 1, y), (x, y + 1), (x + 1, y + 1)])"
    using readSurround_indexes [OF assms(1,2) small zero_le_one _ near [unfolded fin]] unfolding q by simp
  have s: "s2 = s1" using l by (cases "length near < 4") (simp_all add: liftS_def retS_def)
  let ?cell = "x + 1 < uint (xNumber ps) \<and> y + 1 < uint (yNumber ps)"
  have len: "length near = length (filter (\<lambda>(x, y). inside ps x y) [(x, y), (x + 1, y), (x, y + 1), (x + 1, y + 1)])"
    using arg_cong [OF idx, of length] by simp
  have "length near = 4 \<longleftrightarrow> ?cell" "length near \<le> 4"
    using assms(3) xy unfolding len by (auto simp: inside_def)
  then consider (cell) "?cell" "length near = 4" | (edge) "\<not> ?cell" "length near < 4" by linarith
  then have "if ?cell then (\<forall>d \<in> set near. float_value (gp_value d)) \<longrightarrow>
         l = [\<lparr>gp_location = location, gp_value = gp_value (near ! 0), gp_x = of_integer x, gp_y = of_integer y\<rparr>]
       else l = []"
  proof cases
    case cell
    then show ?thesis using l bilinear_start [OF i cell(2)] by (auto simp: liftS_def)
  next
    case edge
    from edge(2) l have "l = []" by (simp add: retS_def)
    then show ?thesis unfolding if_not_P [OF edge(1)] .
  qed
  with near idx s show ?thesis by blast
qed

section \<open>A small grid\<close>

definition cell_place :: PlaceSpecification where
  "cell_place = \<lparr>startX = Fin 0, startY = Fin 0, xNumber = 2, yNumber = 2, xIncrement = Fin 1,
     yIncrement = Fin 1, srid = 4030, projDefinition = ''+proj=longlat''\<rparr>"

definition cell_storage :: storage where
  "cell_storage = \<lparr>initialized = True, base_path = Some ''/wdb'', directories = [''/wdb''],
     files = [(PathGenerator_path ''/wdb'' 7, \<lparr>content = replicate 16 (CHR 0x00), write_time = 0\<rparr>)]\<rparr>"

definition cell_session :: "point list session" where
  "cell_session = new_session cell_storage"

lemma cell_ok: "ok sample_reading cell_session" "place_valid cell_place"
  by (simp_all add: cell_session_def new_session_ok place_valid_def cell_place_def)

lemma cell_inside: "inside cell_place x y \<longleftrightarrow> 0 \<le> x \<and> x < 2 \<and> 0 \<le> y \<and> y < 2"
  by (simp add: inside_def cell_place_def)

lemma cell_readable: "grid_readable sample_reading cell_place 7 (replicate 16 (CHR 0x00)) cell_session"
proof -
  have "ready (blob_store cell_session) ''/wdb''"
    "content_of (blob_store cell_session) (PathGenerator_path ''/wdb'' 7) = Some (replicate 16 (CHR 0x00))"
    "can_open (os_of sample_reading) (PathGenerator_path ''/wdb'' 7)"
    by (simp_all add: ready_def cell_session_def new_session_def cell_storage_def content_of_def sample_reading_def sample_os_def)
  then show ?thesis by (auto simp: grid_readable_def cell_place_def)
qed

lemma cell_places: "grid_places sample_reading cell_place"
proof -
  have v: "reproject_value plain_proj a b pts = Inr pts" for a b pts
    by (simp add: reproject_value_def WdbProjection_new_def transform_def plain_proj_def)
  have e: "projection_cache.correct plain_proj []" by simp
  have r: "fst (reproject plain_proj [] a b pts) = Inr pts" for a b pts
    using reproject_cached [OF e, of a b pts] v by simp
  have "\<exists>p. place_of_index plain_proj ps xy = Inr p" for ps xy
    unfolding place_of_index_def wdbTransform_def transform_points_def Let_def case_prod_beta option.case fst_conv r mapE_Inr
    by (rule exI, rule refl)
  moreover have "proj_of sample_reading = plain_proj" by (simp add: sample_reading_def)
  ultimately show ?thesis by (simp add: grid_places_def)
qed

lemma cell_zero: "float_value (read_floats (replicate 16 (CHR 0x00)) 0 ! k)" if "k < 4"
proof -
  have "readFloat_next (replicate 16 (CHR 0x00)) (0 + 4 * k) = Inr (read_floats (replicate 16 (CHR 0x00)) 0 ! k)"
    using read_floats_nth [of "replicate 16 (CHR 0x00)" 0] that by simp
  moreover have "readFloat_next (replicate 16 (CHR 0x00)) (0 + 4 * k) = Inr (Fin 0)"
  proof -
    have "take 4 (drop (4 * k) (replicate 16 (CHR 0x00))) = replicate 4 (CHR 0x00)" "4 * k + 4 \<le> 16"
      using that by (simp_all add: take_replicate drop_replicate min_def)
    moreover have "float_of_bytes (replicate 4 (CHR 0x00)) = Fin 0"
      by (simp add: float_of_bytes_def float_of_bits_def code_def)
    ultimately show ?thesis by (simp add: readFloat_next_def)
  qed
  ultimately have "read_floats (replicate 16 (CHR 0x00)) 0 ! k = Fin 0" by simp
  moreover have "representable binary32 0"
    unfolding representable_def by (intro conjI exI [of _ 0]) (simp_all add: binary32_def)
  ultimately show ?thesis by (simp add: float_value_def)
qed

text \<open>C21: a grid whose file is there, holds a float for every point and whose points can be projected is
  read completely. Any list of points gives for each point inside the grid the float at its place in row
  order, with its geometry and index, whatever the caches hold, and \<open>AllPointsReader\<close> returns every
  grid point exactly once, column by column.\<close>

theorem stored_values_are_read:
  assumes "place_valid ps" and "grid_places R ps" and "ok R s" and "grid_readable R ps dataId c s"
    and "\<forall>(x, y) \<in> set pts. int_range x \<and> int_range y"
  shows "fst (forS pts (\<lambda>(x, y). readPoint R ps x y dataId) s) = Inr (map (stored_point R ps c) pts)
    \<and> fst (AllPointsReader_read R ps dataId s) = Inr (map (the \<circ> stored_point R ps c) (all_indexes ps))
    \<and> (\<forall>x y. (x, y) \<in> set (all_indexes ps) \<longleftrightarrow> inside ps x y)
    \<and> length (all_indexes ps) = unat (xNumber ps) * unat (yNumber ps)"
proof -
  have "length (all_indexes ps) = unat (xNumber ps) * unat (yNumber ps)"
    by (simp add: all_indexes_def length_concat comp_def sum_list_triv)
  with readPoints_values [OF assms(1,2,5,3,4)] AllPointsReader_values [OF assms(1-4)] in_all_indexes show ?thesis
    by fastforce
qed

theorem stored_values_are_read_witness:
  "fst (readPoint sample_reading cell_place 5 1 7 cell_session) = Inr None
   \<and> (\<exists>l. fst (AllPointsReader_read sample_reading cell_place 7 cell_session) = Inr l \<and> length l = 4)"
proof -
  note t = stored_values_are_read [OF cell_ok(2) cell_places cell_ok(1) cell_readable]
  have one: "forS [p] f s = (Inr [r], s1) \<longleftrightarrow> f p s = (Inr r, s1)" for p and f :: "'a \<Rightarrow> ('s, 'b) call" and s r s1
    by (auto simp: bindS_def retS_def split: prod.split sum.split)
  obtain s1 where "forS [(5, 1)] (\<lambda>(x, y). readPoint sample_reading cell_place x y 7) cell_session = (Inr [None], s1)"
    using t [of "[(5, 1)]", THEN conjunct1]
    by (cases "forS [(5, 1)] (\<lambda>(x, y). readPoint sample_reading cell_place x y 7) cell_session")
      (simp add: stored_point_def cell_inside int_range_bounds)
  then have "readPoint sample_reading cell_place 5 1 7 cell_session = (Inr None, s1)" unfolding one by simp
  moreover have "unat (xNumber cell_place) * unat (yNumber cell_place) = 4" by (simp add: cell_place_def)
  ultimately show ?thesis using t [of "[]"] by simp
qed

theorem surround_points_witness:
  "length (around (1 / 2) 1 1) = 4
   \<and> (\<exists>l. fst (readSurround sample_reading cell_place (Fin (1 / 2), Fin 1) 1 7 cell_session) = Inr l
      \<and> map data_index l = [(Fin 0, Fin 1), (Fin 1, Fin 1)])"
proof -
  have i: "filter (\<lambda>(x, y). inside cell_place x y) (around (1 / 2) 1 1) = [(0, 1), (1, 1)]"
    using floor_eq_iff [of "1 / 2 :: rat" 0] by (simp add: around_def square_def upto_rec1 cell_inside)
  have z: "index_pair (0, 1) = (Fin 0, Fin 1)" "index_pair (1, 1) = (Fin 1, Fin 1)"
    using of_integer_exact [of 0] of_integer_exact [of 1] by (simp_all add: index_pair_def)
  have "\<forall>(x, y) \<in> set (around (1 / 2) 1 1). int_range x \<and> int_range y" by (rule around_room(2)) simp_all
  note vs = readPoints_values [OF cell_ok(2) cell_places this cell_ok(1) cell_readable]
  note t = surround_points [OF cell_ok(2,1), of "1 / 2" 1 1 7]
  from vs t obtain l s1 where l: "readSurround sample_reading cell_place (Fin (1 / 2), Fin 1) 1 7 cell_session = (Inr l, s1)"
    by (fastforce simp: mapS_def)
  with t i z show ?thesis by fastforce
qed

theorem bilinear_at_grid_point_witness:
  "\<exists>v. fst (readBilinear sample_reading cell_place [(Fin 0, Fin 0)] (of_integer 0, of_integer 0) 7 cell_session)
     = Inr [\<lparr>gp_location = [(Fin 0, Fin 0)], gp_value = v, gp_x = Fin 0, gp_y = Fin 0\<rparr>] \<and> float_value v"
proof -
  let ?c = "replicate 16 (CHR 0x00)" and ?p = "stored_point sample_reading cell_place (replicate 16 (CHR 0x00))"
  have o: "of_integer 0 = Fin 0" by (simp add: of_integer_exact)
  have a: "around 0 0 1 = [(0, 0), (1, 0), (0, 1), (1, 1)]" by (simp add: around_def square_def upto_rec1)
  have r: "\<forall>(x, y) \<in> set (around 0 0 1). int_range x \<and> int_range y" by (rule around_room(2)) simp_all
  have eq: "readSurround sample_reading cell_place (Fin 0, Fin 0) 1 7 cell_session =
      mapS (\<lambda>rs. concat (map optional_list rs)) (forS (around 0 0 1) (\<lambda>(x, y). readPoint sample_reading cell_place x y 7)) cell_session"
    by (rule around_room(3)) simp_all
  define near where "near = concat (map optional_list (map ?p (around 0 0 1)))"
  from readPoints_values [OF cell_ok(2) cell_places r cell_ok(1) cell_readable] obtain s1
    where n: "readSurround sample_reading cell_place (Fin 0, Fin 0) 1 7 cell_session = (Inr near, s1)"
    unfolding eq near_def by (fastforce simp: mapS_def)
  have near4: "length near = 4" by (simp add: near_def a stored_point_def cell_inside optional_list_def)
  have vals: "\<forall>d \<in> set near. float_value (gp_value d)"
    using cell_zero by (auto simp: near_def a stored_point_def cell_inside optional_list_def cell_place_def)
  obtain v where b: "bilinear near (of_integer 0, of_integer 0) = Inr v"
    by (simp add: bilinear_def fraction_integer int_range_bounds Let_def)
  have read: "readBilinear sample_reading cell_place [(Fin 0, Fin 0)] (of_integer 0, of_integer 0) 7 cell_session
      = (Inr [\<lparr>gp_location = [(Fin 0, Fin 0)], gp_value = v, gp_x = Fin 0, gp_y = Fin 0\<rparr>], s1)"
    unfolding o readBilinear_def bindS_Inr [where m = "readSurround sample_reading cell_place (Fin 0, Fin 0) 1 7", OF n]
    using near4 b by (simp add: liftS_def o)
  have "inside cell_place 0 0" by (simp add: cell_inside)
  from bilinear_at_grid_point [OF cell_ok(2,1) this _ _ read] n o vals
  have "v = gp_value (near ! 0)" by (auto simp: cell_place_def)
  with read vals near4 show ?thesis by (intro exI [of _ v]) simp
qed

text \<open>C23: the choice of readers keeps the caches of the session consistent and starts every result at its
  first element; every point it returns, except the one of a bilinear interpolation, is a grid point, with
  its indexes inside the grid, and only \<open>Surround\<close> or a polygon can give more than one point.\<close>

theorem read_points_in_grid:
  assumes "place_valid ps" and "int_range param" and "ok R s"
    and "\<And>g. location = Some g \<Longrightarrow> GEOSGeomTypeId (geos_of R) g = GEOS_POINT \<Longrightarrow> point_location (geos_of R) g"
    and "readPoints R ps location kind param dataId s = (Inr it, s1)"
  shows "ok R s1 \<and> snd it = 0 \<and> (kind \<noteq> Bilinear \<longrightarrow> (\<forall>d \<in> set (fst it). in_grid ps d))
    \<and> (\<forall>g. location = Some g \<longrightarrow> GEOSGeomTypeId (geos_of R) g = GEOS_POINT \<longrightarrow> kind \<noteq> Surround \<longrightarrow> length (fst it) \<le> 1)"
proof -
  have "length (fst it) \<le> 1"
    if g: "location = Some g" "GEOSGeomTypeId (geos_of R) g = GEOS_POINT" "kind \<noteq> Surround" for g
  proof -
    from assms(5) obtain r s0 l where r: "BaseDataReader_getInstance R ps s = (Inr r, s0)"
      and l: "SinglePointReader_read R r g kind param dataId s0 = (Inr l, s1)" "it = (l, 0)"
      unfolding readPoints_def g(1) using g(2)
      by (auto simp: bindS_eq_Inr reportS_def report_std_eq_Inr mapS_eq_Inr mapS_def mapE_eq_Inr
          GridPointDataListIteratorNew_def split: prod.splits)
    from keepsS_D(2) [OF getInstance_ok [OF assms(1)] assms(3) r] have "place_valid r" "ok R s0" by simp_all
    from keepsS_D(2) [OF SinglePointReader_keeps [OF this(1) assms(4) [OF g(1,2)] assms(2)] this(2) l(1)] g(3) l(2)
    show ?thesis by simp
  qed
  with keepsS_D(2) [OF readPoints_keeps [OF assms(1,2,4)] assms(3,5)] show ?thesis by blast
qed

text \<open>The grid point whose projected place intersects a polygon.\<close>

definition hits :: "proj \<Rightarrow> 'g geos \<Rightarrow> PlaceSpecification \<Rightarrow> 'g \<Rightarrow> int \<times> int \<Rightarrow> bool" where
  "hits P G ps polygon = (\<lambda>(i, j). \<exists>place. grid_point_place P ps i j = Inr place
     \<and> GEOSIntersects G polygon (GEOSGeom_createPoint G place) = 1)"

text \<open>C24: a polygon gives the grid points that lie in it. The grid points of the bounding box are tested
  one by one; those whose projected place intersects the polygon are returned once each, in row order,
  less those outside the file, and never more than the allowed maximum.\<close>

theorem polygon_points:
  assumes "place_valid ps" and "ok R s" and "PolygonReader_read R ps g dataId s = (Inr l, s1)"
  shows "\<exists>b xs ys pts. getBounds (proj_of R) (geos_of R) ps g = Inr b \<and> index_ranges ps b = Inr (xs, ys)
    \<and> pts = filter (\<lambda>p. inside ps (fst p) (snd p) \<and> hits (proj_of R) (geos_of R) ps g p) (square xs ys)
    \<and> map data_index l = map index_pair pts \<and> distinct pts \<and> length l \<le> MAX_RETURN"
proof -
  let ?P = "proj_of R" and ?G = "geos_of R"
  from PolygonReader_spec [OF assms] obtain pts where p: "gridPointsInPolygon ?P ?G ps g = Inr pts"
    "map data_index l = map index_pair (filter (\<lambda>(x, y). inside ps x y) pts)" by blast
  from p(1) obtain b xs ys where b: "getBounds ?P ?G ps g = Inr b" "index_ranges ps b = Inr (xs, ys)"
      "intersecting ?P ?G ps g (square xs ys) = Inr pts"
    by (auto simp: gridPointsInPolygon_def err_simps)
  define sel where "sel = filter (\<lambda>p. inside ps (fst p) (snd p) \<and> hits ?P ?G ps g p) (square xs ys)"
  have "pts = filter (hits ?P ?G ps g) (square xs ys)"
    using intersecting_spec [OF b(3)] by (simp only: hits_def)
  then have sel: "filter (\<lambda>(x, y). inside ps x y) pts = sel"
    by (simp add: sel_def case_prod_beta conj_commute)
  have "distinct sel" using distinct_square [of xs ys] by (simp add: sel_def)
  moreover have "length l \<le> MAX_RETURN"
    using keepsS_D(2) [OF PolygonReader_keeps [OF assms(1)] assms(2,3)] by simp
  ultimately show ?thesis using b(1,2) p(2) unfolding sel sel_def by blast
qed

text \<open>C25: of the standard exceptions only the one for an invalid projection of the grid itself leaves
  \<open>readPoints\<close>, because the reader is created before its \<open>try\<close> block, and it does so only while no reader
  of that grid is cached; all others become errors of the database.\<close>

theorem read_points_errors:
  assumes "readPoints R ps location kind param dataId s = (Inl e, s1)" and "is_std_exception e"
  shows "WdbProjection_new (proj_of R) (projDefinition ps) = Inl e
    \<and> map_find ltPlaceSpecification ps (readerCache s) = None"
proof -
  have "BaseDataReader_getInstance R ps s = (Inl e, s1)"
    using assms unfolding readPoints_def bindS_eq_Inl by (auto dest!: reportS_errors)
  then show ?thesis
    by (auto simp: BaseDataReader_getInstance_def bindS_eq_Inl split: option.splits)
qed

text \<open>C26: taking points from a new iterator until it has no more ends, and gives every element of the list
  once in its order; from any position it gives the elements from there on, and an iterator is at its end
  exactly when nothing is left to take.\<close>

theorem iterator_drain:
  "drain (GridPointDataListIteratorNew list) = list
   \<and> drain it = drop (snd it) (fst it)
   \<and> (GridPointDataListIteratorAtEnd it = (drain it = []))"
proof -
  have "drain it = drop (snd it) (fst it)" using drain_drop [of "fst it" "snd it"] by simp
  then show ?thesis
    by (simp add: GridPointDataListIteratorNew_def GridPointDataListIteratorAtEnd_def drain_drop)
qed

lemma cell_rounding:
  "rnd binary64 1 = Fin 1" "rnd binary64 2 = Fin 2" "rnd binary64 0 = Fin 0" "rnd binary64 (3 / 2) = Fin (3 / 2)" "rnd binary32 1 = Fin 1"
proof -
  show "rnd binary64 1 = Fin 1" "rnd binary64 2 = Fin 2" using rnd_int [of 1] rnd_int [of 2] by simp_all
  show "rnd binary64 0 = Fin 0" by (simp add: rnd_def)
  show "rnd binary64 (3 / 2) = Fin (3 / 2)" using rnd_half [of 3] by simp
  have "pow2 0 < pow2 (emax binary32)" by (rule pow2_less) (simp add: binary32_def)
  then have "representable binary32 1"
    unfolding representable_def by (intro conjI exI [of _ "1 :: int"] exI [of _ "0 :: int"]) (simp_all add: binary32_def pow2_def)
  then show "rnd binary32 1 = Fin 1" by (rule rnd_exact) (simp_all add: binary32_def)
qed

lemma cell_scale: "scale (Fin 1) (Fin 1, Fin 1) = (Fin 1, Fin 1)" "degrees_unless_metric (Fin 1) d (Fin 1, Fin 1) = (Fin 1, Fin 1)"
  by (simp_all add: scale_def dmul_def cell_rounding degrees_unless_metric_def)

lemma cell_proj: "reproject_value plain_proj a b pts = Inr pts" "WdbProjection_new plain_proj a = Inr a"
    "transformFromDefault plain_proj a b pts = Inr pts" "transformToDefault plain_proj a b pts = Inr pts"
    "DEG_TO_RAD plain_proj = Fin 1" "RAD_TO_DEG plain_proj = Fin 1"
  by (simp_all add: reproject_value_def WdbProjection_new_def transform_def plain_proj_def transformFromDefault_def transformToDefault_def)

lemma cell_reproject: "fst (reproject plain_proj [] a b pts) = Inr pts"
proof -
  have "projection_cache.correct plain_proj []" by simp
  from reproject_cached [OF this, of a b pts] cell_proj(1) show ?thesis by simp
qed

lemma cell_index: "index_of_place plain_proj cell_place (Fin 1, Fin 1) = Inr (Fin 1, Fin 1)"
proof -
  have "ddiv (dsub (Fin 1) (Fin 0)) (Fin 1) = Fin 1" by (simp add: ddiv_def dsub_def fsub_def cell_rounding)
  moreover have "fst (rTransform plain_proj [] (Fin 1, Fin 1) (Some cell_place)) = mapE (\<lambda>out.
      let q = (if isMetric (projDefinition cell_place) then hd out else scale (Fin 1) (hd out))
      in (ddiv (dsub (fst q) (startX cell_place)) (xIncrement cell_place), ddiv (dsub (snd q) (startY cell_place)) (yIncrement cell_place)))
      (Inr [scale (Fin 1) (Fin 1, Fin 1)])"
    by (simp only: rTransform_def option.case Let_def case_prod_beta fst_conv cell_reproject cell_proj)
  ultimately show ?thesis
    unfolding index_of_place_def by (simp add: cell_scale cell_place_def)
qed

lemma getExactIndex_store: "blob_store (snd (getExactIndex R ps g s)) = blob_store s"
  by (simp add: getExactIndex_def getLLFromCache_def setLLCache_def with_projections_def zoomS_def bindS_def liftS_def
      modifyS_def getS_def retS_def with_cache_def Let_def split: option.split prod.split sum.split)

theorem read_points_in_grid_witness:
  "\<exists>it. fst (readPoints sample_reading cell_place (Some [(Fin 1, Fin 1)]) Nearest 0 7 cell_session) = Inr it
     \<and> length (fst it) = 1 \<and> (\<forall>d \<in> set (fst it). in_grid cell_place d)"
proof -
  let ?s = "cell_session\<lparr>readerCache := [(cell_place, cell_place)]\<rparr>" and ?g = "[(Fin 1, Fin 1)]"
  have R: "proj_of sample_reading = plain_proj" "geos_of sample_reading = point_geos" by (simp_all add: sample_reading_def)
  have inst: "BaseDataReader_getInstance sample_reading cell_place cell_session = (Inr cell_place, ?s)"
    by (simp add: BaseDataReader_getInstance_def cell_session_def new_session_def R cell_proj bindS_def liftS_def getS_def
        modifyS_def retS_def)
  from keepsS_D(2) [OF getInstance_ok [OF cell_ok(2)] cell_ok(1) inst] have ok1: "ok sample_reading ?s" by simp
  have seq: "GEOSGeom_getCoordSeq (geos_of sample_reading) ?g = Inr (Some [(Fin 1, Fin 1)])" "point_valid (Fin 1, Fin 1)"
      "GEOSGeomTypeId point_geos ?g = GEOS_POINT"
    by (simp_all add: R point_geos_def point_valid_def GEOS_POINT_def)
  then have loc: "point_location (geos_of sample_reading) ?g" by (auto simp: point_location_def)
  obtain r s1 where e: "getExactIndex sample_reading cell_place ?g ?s = (r, s1)" by fastforce
  from getExactIndex_ok [OF ok1 cell_ok(2) seq(1,2)] e cell_index R have r: "r = Inr (Fin 1, Fin 1)" "ok sample_reading s1" by simp_all
  from getExactIndex_store [of sample_reading cell_place ?g ?s] e cell_readable
  have rd: "grid_readable sample_reading cell_place 7 (replicate 16 (CHR 0x00)) s1" by (simp add: grid_readable_def)
  have one: "math_round (Fin 1) = Inr 1"
    using floor_eq_iff [of "3 / 2 :: rat" 1]
    by (simp add: math_round_def dadd_def cell_rounding int_range_bounds trunc_def)
  have i: "int_range 1" by (simp add: int_range_bounds)
  from readPoint_value [OF cell_ok(2) r(2) i i cell_places rd] obtain s2
    where p: "readPoint sample_reading cell_place 1 1 7 s1
      = (Inr (stored_point sample_reading cell_place (replicate 16 (CHR 0x00)) (1, 1)), s2)" by blast
  obtain d where d: "stored_point sample_reading cell_place (replicate 16 (CHR 0x00)) (1, 1) = Some d"
    by (simp add: stored_point_def cell_inside)
  have "readNearest sample_reading cell_place (Fin 1, Fin 1) 7 s1 = (Inr [d], s2)"
    using p d by (simp add: readNearest_def one bindS_def liftS_def mapS_def optional_list_def)
  then have "SinglePointReader_read sample_reading cell_place ?g Nearest 0 7 ?s = (Inr [d], s2)"
    using e r(1) by (simp add: SinglePointReader_read_def bindS_def)
  then have read: "readPoints sample_reading cell_place (Some ?g) Nearest 0 7 cell_session = (Inr ([d], 0), s2)"
    by (simp add: readPoints_def bindS_def inst R seq(3) reportS_def mapS_def GridPointDataListIteratorNew_def report_std_def)
  have "int_range 0" by (simp add: int_range_bounds)
  from read_points_in_grid [OF cell_ok(2) this cell_ok(1) _ read] loc have "\<forall>d \<in> set [d]. in_grid cell_place d" by simp
  with read show ?thesis by simp
qed

theorem polygon_points_witness:
  "\<exists>l. fst (PolygonReader_read sample_reading cell_place [(Fin 1, Fin 1), (Fin 1, Fin 1)] 7 cell_session) = Inr l
     \<and> length l \<le> MAX_RETURN \<and> map data_index l = [(Fin 1, Fin 1)]"
proof -
  let ?g = "[(Fin 1, Fin 1), (Fin 1, Fin 1)]" and ?b = "start_box (Fin 1, Fin 1)"
  have R: "proj_of sample_reading = plain_proj" "geos_of sample_reading = point_geos" by (simp_all add: sample_reading_def)
  have o: "of_integer 1 = Fin 1" by (simp add: of_integer_exact)
  have coord: "ring_coordinate plain_proj cell_place (Fin 1, Fin 1) = Inr (Fin 1, Fin 1)"
    by (simp add: ring_coordinate_def cell_proj cell_scale)
  have box: "?b = \<lparr>left_edge = Fin 1, bottom_edge = Fin 1, top_edge = Fin 1, right_edge = Fin 1\<rparr>"
    by (simp add: start_box_def cell_rounding)
  have "outer_ring point_geos ?g 0 = Inr ?g" by (simp add: outer_ring_def point_geos_def)
  moreover have "GEOSGetNumGeometries point_geos ?g = 1" by (simp add: point_geos_def)
  moreover have "widen_box (Fin 1, Fin 1) ?b = ?b" by (simp add: widen_box_def box)
  ultimately have bounds: "getBounds plain_proj point_geos cell_place ?g = Inr ?b"
    by (simp add: getBounds_def ring_bounds_def cell_proj first_coordinate_def coord)
  have f: "first_index (Fin 1) (Fin 0) (Fin 1) = Inr 1"
    by (simp add: first_index_def ddiv_def dsub_def fsub_def cell_rounding trunc_def int_range_bounds)
  have e: "end_index (Fin 1) (Fin 0) (Fin 1) 2 = Inr 2"
    by (simp add: end_index_def ddiv_def dsub_def dadd_def fsub_def cell_rounding trunc_def int_range_bounds)
  have ranges: "index_ranges cell_place ?b = Inr ((1, 1), (1, 1))"
    using f e by (simp add: index_ranges_def box cell_place_def)
  have sq: "square (1, 1) (1, 1) = [(1, 1)]" by (simp add: square_def)
  have "grid_coordinate cell_place (Fin 1) (Fin 1) = (Fin 1, Fin 1)"
    by (simp add: grid_coordinate_def cell_place_def dadd_def dmul_def cell_rounding)
  then have "grid_point_place plain_proj cell_place 1 1 = Inr (Fin 1, Fin 1)"
    by (simp add: grid_point_place_def cell_proj o cell_scale)
  moreover have "GEOSIntersects point_geos ?g (GEOSGeom_createPoint point_geos (Fin 1, Fin 1)) = 1"
    by (simp add: point_geos_def)
  ultimately have pts: "gridPointsInPolygon plain_proj point_geos cell_place ?g = Inr [(1, 1)]"
    by (simp add: gridPointsInPolygon_def bounds ranges sq)
  have i: "int_range 1" by (simp add: int_range_bounds)
  have "inside cell_place 1 1" by (simp add: cell_inside)
  with outside_iff [OF i i, of cell_place] have n: "inside_count cell_place [(1, 1)] = 1"
    by (simp add: inside_count_def inside_def)
  from readPoint_value [OF cell_ok(2,1) i i cell_places cell_readable] obtain s1
    where "readPoint sample_reading cell_place 1 1 7 cell_session
      = (Inr (stored_point sample_reading cell_place (replicate 16 (CHR 0x00)) (1, 1)), s1)" by blast
  moreover obtain d where d: "stored_point sample_reading cell_place (replicate 16 (CHR 0x00)) (1, 1) = Some d"
      "data_index d = (Fin 1, Fin 1)"
    by (simp add: stored_point_def cell_inside data_index_def o)
  ultimately have "readPolygon sample_reading cell_place [(1, 1)] 7 cell_session = (Inr [d], s1)"
    by (simp add: readPolygon_def n MAX_RETURN_def bindS_def retS_def optional_list_def)
  then have read: "PolygonReader_read sample_reading cell_place ?g 7 cell_session = (Inr [d], s1)"
    by (simp add: PolygonReader_read_def R pts bindS_def liftS_def)
  from polygon_points [OF cell_ok(2,1) this] have "length [d] \<le> MAX_RETURN" by blast
  with read d(2) show ?thesis by simp
qed

theorem read_points_errors_witness:
  "\<exists>e. fst (readPoints (sample_reading\<lparr>proj_of := plain_proj\<lparr>pj_init := \<lambda>_. False\<rparr>\<rparr>) cell_place None Exact 0 7 cell_session) = Inl e
     \<and> is_std_exception e \<and> map_find ltPlaceSpecification cell_place (readerCache cell_session) = None"
proof -
  let ?R = "sample_reading\<lparr>proj_of := plain_proj\<lparr>pj_init := \<lambda>_. False\<rparr>\<rparr>"
  let ?e = "Runtime_error (''Invalid PROJ definition: '' @ projDefinition cell_place)"
  have "WdbProjection_new (proj_of ?R) (projDefinition cell_place) = Inl ?e" by (simp add: WdbProjection_new_def)
  then have "readPoints ?R cell_place None Exact 0 7 cell_session = (Inl ?e, cell_session)"
    by (simp add: readPoints_def BaseDataReader_getInstance_def cell_session_def new_session_def bindS_def liftS_def getS_def)
  moreover have "is_std_exception ?e" by simp
  note read_points_errors [OF calculation this]
  ultimately show ?thesis by simp
qed

end
