(* ===== verification/ReadStore.thy ===== *)
theory ReadStore
  imports Readers Caches
begin

text \<open>
  The rows of \<open>wci.read\<close>: the store that lives between the calls of the set returning functions
  (\<open>ReadStore.cpp\<close>), the next row of the two tables (\<open>getData.c\<close>), and the SQL functions
  themselves (\<open>wciReadFloat.c\<close>, \<open>wciReadGid.c\<close>). A call in SQL is a sequence of calls of the C
  function, each giving one row until the last one says that it is done.
\<close>

section \<open>Rows of the database\<close>

text \<open>A column value of a result: text, an integer, a floating point number, or a value of another type
  in its text form, and the zero that an unset column of the store has. SQL NULL is \<open>None\<close>.\<close>

datatype datum = TextD string | IntD int | FloatD fp | OtherD string | ZeroD

type_synonym heap_tuple = "datum option list"

text \<open>A column number out of range reads as NULL.\<close>

definition SPI_getbinval :: "heap_tuple \<Rightarrow> nat \<Rightarrow> datum option" where
  "SPI_getbinval t n = (if 1 \<le> n \<and> n \<le> length t then t ! (n - 1) else None)"

text \<open>\<open>DatumGetInt64\<close> of a value whose NULL flag is not looked at.\<close>

definition int64_datum :: "datum option \<Rightarrow> int res" where
  "int64_datum v = (case v of
     None \<Rightarrow> Inr 0
   | Some (IntD i) \<Rightarrow> Inr i
   | Some _ \<Rightarrow> Inl (Undefined ''a datum of another type''))"

definition SPI_getvalue :: "heap_tuple \<Rightarrow> nat \<Rightarrow> string option res" where
  "SPI_getvalue t n = (case SPI_getbinval t n of
     None \<Rightarrow> Inr None
   | Some (TextD s) \<Rightarrow> Inr (Some s)
   | Some _ \<Rightarrow> Inl (Undefined ''a datum of another type''))"

section \<open>The store\<close>

datatype WciReadFloatReturnType =
    WCI_READ_VALUE | WCI_READ_DATAPROVIDERNAME | WCI_READ_PLACENAME | WCI_READ_PLACEGEOMETRY
  | WCI_READ_REFERENCETIME | WCI_READ_VALIDTIMEFROM | WCI_READ_VALIDTIMETO
  | WCI_READ_VALIDTIMEINDETERMINATECODE | WCI_READ_VALUEPARAMETERNAME | WCI_READ_VALUEPARAMETERUNIT
  | WCI_READ_LEVELPARAMETERNAME | WCI_READ_LEVELUNITNAME | WCI_READ_LEVELFROM | WCI_READ_LEVELTO
  | WCI_READ_LEVELINDETERMINATECODE | WCI_READ_DATAVERSION | WCI_READ_CONFIDENCECODE
  | WCI_READ_STORETIME | WCI_READ_VALUEID | WCI_READ_VALUETYPE

definition return_columns :: "WciReadFloatReturnType list" where
  "return_columns = [WCI_READ_VALUE, WCI_READ_DATAPROVIDERNAME, WCI_READ_PLACENAME, WCI_READ_PLACEGEOMETRY,
     WCI_READ_REFERENCETIME, WCI_READ_VALIDTIMEFROM, WCI_READ_VALIDTIMETO, WCI_READ_VALIDTIMEINDETERMINATECODE,
     WCI_READ_VALUEPARAMETERNAME, WCI_READ_VALUEPARAMETERUNIT, WCI_READ_LEVELPARAMETERNAME, WCI_READ_LEVELUNITNAME,
     WCI_READ_LEVELFROM, WCI_READ_LEVELTO, WCI_READ_LEVELINDETERMINATECODE, WCI_READ_DATAVERSION,
     WCI_READ_CONFIDENCECODE, WCI_READ_STORETIME, WCI_READ_VALUEID, WCI_READ_VALUETYPE]"

datatype ReadStoreMode = ReturningFromFloatTable | ReturningFromGridTable

record 'g ReadStore =
  tuples :: "heap_tuple list"
  currentTupleIndex :: nat
  tupleCount :: nat
  returnMode :: ReadStoreMode
  rs_interpolation :: InterpolationType
  rs_interpolationParameter :: int
  locationString :: "string option"
  rs_location :: "'g option"
  rs_values :: "WciReadFloatReturnType \<Rightarrow> datum option"
  pointData :: "'g point_iterator option"

text \<open>What a database process keeps between the calls, and what surrounds it.\<close>

record 'g backend =
  grid_session :: "'g session"
  known_places :: ps_list
  known_names :: location_names
  known_plans :: plan_cache

record 'g environment =
  env_reading :: "'g reading"
  env_boost :: "loc_action boost"
  wci_schema :: string
  place_spi :: "place_row spi"
  name_spi :: "string option spi"
  tuple_spi :: "heap_tuple spi"
  prepare :: "string \<Rightarrow> prepare_result"
  other_code :: int
  spi_connects :: bool
  composite_result :: bool

type_synonym ('g, 'a) server_call = "('g backend, 'a) call"

definition with_grids :: "('g session, 'a) call \<Rightarrow> ('g, 'a) server_call" where
  "with_grids f = zoomS grid_session (\<lambda>p s. s\<lparr>grid_session := p\<rparr>) f"

definition with_places :: "(ps_list \<Rightarrow> 'a res \<times> ps_list) \<Rightarrow> ('g, 'a) server_call" where
  "with_places f = zoomS known_places (\<lambda>p s. s\<lparr>known_places := p\<rparr>) f"

definition with_names :: "(location_names \<Rightarrow> 'a res \<times> location_names) \<Rightarrow> ('g, 'a) server_call" where
  "with_names f = zoomS known_names (\<lambda>p s. s\<lparr>known_names := p\<rparr>) f"

definition with_plans :: "(plan_cache \<Rightarrow> 'a res \<times> plan_cache) \<Rightarrow> ('g, 'a) server_call" where
  "with_plans f = zoomS known_plans (\<lambda>p s. s\<lparr>known_plans := p\<rparr>) f"

definition ReadStoreFloatReturnInit :: "'g ReadStore" where
  "ReadStoreFloatReturnInit = \<lparr>tuples = [], currentTupleIndex = 0, tupleCount = 0,
     returnMode = ReturningFromFloatTable, rs_interpolation = Exact, rs_interpolationParameter = 0,
     locationString = None, rs_location = None, rs_values = (\<lambda>_. Some ZeroD), pointData = None\<rparr>"

definition ReadStoreHasMoreTuples :: "'g ReadStore \<Rightarrow> bool" where
  "ReadStoreHasMoreTuples st \<longleftrightarrow> currentTupleIndex st < tupleCount st"

text \<open>A place name without a geometry leaves the store as it was set at the start.\<close>

definition setReadStoreGeometry :: "'g environment \<Rightarrow> string option \<Rightarrow> 'g ReadStore \<Rightarrow> ('g, 'g ReadStore) server_call" where
  "setReadStoreGeometry E place out =
     (let out0 = out\<lparr>rs_location := None, rs_interpolation := Exact, rs_interpolationParameter := 1\<rparr> in
      case place of
        None \<Rightarrow> retS out0
      | Some l \<Rightarrow> (\<lambda>b. case bindS (liftS (Location_new (env_boost E) l)) (\<lambda>loc.
          bindS (if hasGeometry loc then retS (geometry loc)
                 else with_names (\<lambda>n. geometryFromLocation (wci_schema E) (name_spi E) n (placeName loc))) (\<lambda>wkt.
          retS (out0\<lparr>rs_location := GEOSGeomFromWKT (geos_of (env_reading E)) wkt,
            rs_interpolation := interpolationType loc,
            rs_interpolationParameter := interpolationParameter loc\<rparr>))) b of
          (Inl NoSuchGeometryName, b1) \<Rightarrow> (Inr out0, b1)
        | r \<Rightarrow> r))"

definition ReadStoreGridReturnInit :: "'g environment \<Rightarrow> heap_tuple list \<Rightarrow> string option \<Rightarrow> 'g ReadStore \<Rightarrow>
    ('g, 'g ReadStore) server_call" where
  "ReadStoreGridReturnInit E rows place out = reportS ERRCODE_DATA_EXCEPTION
     (setReadStoreGeometry E place (out\<lparr>tuples := rows, currentTupleIndex := 0, tupleCount := length rows,
        returnMode := ReturningFromGridTable, locationString := place, pointData := None\<rparr>))"

section \<open>The values of a row\<close>

definition set_value :: "WciReadFloatReturnType \<Rightarrow> datum option \<Rightarrow> 'g ReadStore \<Rightarrow> 'g ReadStore" where
  "set_value c v st = st\<lparr>rs_values := (rs_values st)(c := v)\<rparr>"

text \<open>The text that is made for the place name has one byte too many, the terminating zero of
  \<open>sprintf\<close>.\<close>

definition getLocationString :: "string option \<Rightarrow> heap_tuple \<Rightarrow> datum option res" where
  "getLocationString place t = (case place of
     Some l \<Rightarrow> bindE (SPI_getvalue t 3) (\<lambda>gridName. case gridName of
         None \<Rightarrow> Inl (Undefined ''strlen(NULL)'')
       | Some n \<Rightarrow> Inr (Some (TextD (l @ '' '' @ n @ [CHR 0x00]))))
   | None \<Rightarrow> Inr (SPI_getbinval t 3))"

definition common_columns :: "(WciReadFloatReturnType \<times> nat) list" where
  "common_columns = [(WCI_READ_REFERENCETIME, 5), (WCI_READ_VALIDTIMEFROM, 6), (WCI_READ_VALIDTIMETO, 7),
     (WCI_READ_VALIDTIMEINDETERMINATECODE, 8), (WCI_READ_VALUEPARAMETERNAME, 9), (WCI_READ_VALUEPARAMETERUNIT, 10),
     (WCI_READ_LEVELPARAMETERNAME, 11), (WCI_READ_LEVELUNITNAME, 12), (WCI_READ_LEVELFROM, 13), (WCI_READ_LEVELTO, 14),
     (WCI_READ_LEVELINDETERMINATECODE, 15), (WCI_READ_DATAVERSION, 16), (WCI_READ_CONFIDENCECODE, 17),
     (WCI_READ_STORETIME, 18), (WCI_READ_VALUEID, 19), (WCI_READ_VALUETYPE, 20)]"

definition getCommonValues :: "'g ReadStore \<Rightarrow> 'g ReadStore res" where
  "getCommonValues st =
     (let t = tuples st ! currentTupleIndex st;
          st1 = set_value WCI_READ_DATAPROVIDERNAME (SPI_getbinval t 2) st
      in mapE (\<lambda>name. fold (\<lambda>(c, n). set_value c (SPI_getbinval t n)) common_columns
           (set_value WCI_READ_PLACENAME name st1)) (getLocationString (locationString st) t))"

definition getNextRowFromFloatTable :: "'g ReadStore \<Rightarrow> (bool \<times> 'g ReadStore) res" where
  "getNextRowFromFloatTable st =
     (if tupleCount st \<le> currentTupleIndex st then Inr (False, st)
      else let t = tuples st ! currentTupleIndex st
        in mapE (\<lambda>st1. (True, (set_value WCI_READ_PLACEGEOMETRY (SPI_getbinval t 4)
             (set_value WCI_READ_VALUE (SPI_getbinval t 1) st1))\<lparr>currentTupleIndex := currentTupleIndex st + 1\<rparr>))
           (getCommonValues st))"

section \<open>Rows from grids\<close>

definition getValues :: "'g environment \<Rightarrow> int \<Rightarrow> int \<Rightarrow> 'g ReadStore \<Rightarrow> ('g, 'g point_iterator option) server_call" where
  "getValues E placeid dataid st =
     bindS (with_places (\<lambda>l. getPlaceSpecification (wci_schema E) (place_spi E) l placeid)) (\<lambda>found.
     case found of
       None \<Rightarrow> retS None
     | Some ps \<Rightarrow> mapS Some (with_grids (readPoints (env_reading E) ps (rs_location st) (rs_interpolation st)
         (rs_interpolationParameter st) dataid)))"

definition getNextSetOfValues :: "'g environment \<Rightarrow> 'g ReadStore \<Rightarrow> ('g, 'g ReadStore) server_call" where
  "getNextSetOfValues E st =
     (let t = tuples st ! currentTupleIndex st in
      bindS (liftS (int64_datum (SPI_getbinval t 21))) (\<lambda>placeid.
      bindS (liftS (int64_datum (SPI_getbinval t 1))) (\<lambda>dataid.
      bindS (getValues E placeid dataid st) (\<lambda>pd.
      let st1 = st\<lparr>pointData := pd\<rparr> in
      case pd of
        None \<Rightarrow> retS st1
      | Some _ \<Rightarrow> liftS (mapE (\<lambda>st2. st2\<lparr>currentTupleIndex := currentTupleIndex st2 + 1\<rparr>) (getCommonValues st1))))))"

lemma set_value_fields [simp]:
  "tuples (set_value c v st) = tuples st" "currentTupleIndex (set_value c v st) = currentTupleIndex st"
  "tupleCount (set_value c v st) = tupleCount st" "returnMode (set_value c v st) = returnMode st"
  "rs_interpolation (set_value c v st) = rs_interpolation st" "rs_location (set_value c v st) = rs_location st"
  "rs_interpolationParameter (set_value c v st) = rs_interpolationParameter st"
  "locationString (set_value c v st) = locationString st" "pointData (set_value c v st) = pointData st"
  "rs_values (set_value c v st) = (rs_values st)(c := v)"
  by (simp_all add: set_value_def)

lemma fold_set_values: "\<exists>v. fold (\<lambda>(c, n). set_value c (SPI_getbinval t n)) cs st = st\<lparr>rs_values := v\<rparr>"
proof (induction cs arbitrary: st)
  case Nil
  show ?case by (intro exI [of _ "rs_values st"]) simp
next
  case (Cons c cs)
  obtain a n where c: "c = (a, n)" by (cases c)
  from Cons.IH [of "set_value a (SPI_getbinval t n) st"] show ?case by (auto simp: c set_value_def)
qed

lemma getCommonValues_only_values: "getCommonValues st = Inr st1 \<Longrightarrow> \<exists>v. st1 = st\<lparr>rs_values := v\<rparr>"
proof -
  assume "getCommonValues st = Inr st1"
  then obtain name where "st1 = fold (\<lambda>(c, n). set_value c (SPI_getbinval (tuples st ! currentTupleIndex st) n)) common_columns
      (set_value WCI_READ_PLACENAME name (set_value WCI_READ_DATAPROVIDERNAME (SPI_getbinval (tuples st ! currentTupleIndex st) 2) st))"
    by (auto simp: getCommonValues_def Let_def mapE_eq_Inr)
  moreover obtain v where "fold (\<lambda>(c, n). set_value c (SPI_getbinval (tuples st ! currentTupleIndex st) n)) common_columns
      (set_value WCI_READ_PLACENAME name (set_value WCI_READ_DATAPROVIDERNAME (SPI_getbinval (tuples st ! currentTupleIndex st) 2) st))
      = (set_value WCI_READ_PLACENAME name (set_value WCI_READ_DATAPROVIDERNAME (SPI_getbinval (tuples st ! currentTupleIndex st) 2) st))\<lparr>rs_values := v\<rparr>"
    using fold_set_values by blast
  ultimately have "st1 = st\<lparr>rs_values := v\<rparr>" by (simp add: set_value_def)
  then show ?thesis by blast
qed

lemma getNextSetOfValues_progress:
  assumes "getNextSetOfValues E st b = (Inr st1, b1)"
  shows "tupleCount st1 = tupleCount st
    \<and> (pointData st1 = None \<and> currentTupleIndex st1 = currentTupleIndex st
       \<or> pointData st1 \<noteq> None \<and> currentTupleIndex st1 = currentTupleIndex st + 1)"
proof -
  from assms obtain pd b2 where pd: "(case pd of
        None \<Rightarrow> retS (st\<lparr>pointData := pd\<rparr>)
      | Some _ \<Rightarrow> liftS (mapE (\<lambda>st2. st2\<lparr>currentTupleIndex := currentTupleIndex st2 + 1\<rparr>) (getCommonValues (st\<lparr>pointData := pd\<rparr>)))) b2
      = (Inr st1, b1)"
    unfolding getNextSetOfValues_def Let_def bindS_eq_Inr by blast
  show ?thesis
  proof (cases pd)
    case None
    with pd show ?thesis by (auto simp: retS_def)
  next
    case (Some it)
    with pd obtain st2 where "getCommonValues (st\<lparr>pointData := pd\<rparr>) = Inr st2"
        "st1 = st2\<lparr>currentTupleIndex := currentTupleIndex st2 + 1\<rparr>"
      by (auto simp: liftS_def mapE_eq_Inr)
    with Some getCommonValues_only_values show ?thesis by fastforce
  qed
qed

text \<open>The loop over exhausted iterators. An iterator that could not be made is NULL, and asking whether
  it is at its end dereferences it.\<close>

function skip_ended :: "'g environment \<Rightarrow> 'g ReadStore \<Rightarrow> 'g backend \<Rightarrow> (bool \<times> 'g ReadStore) res \<times> 'g backend" where
  "skip_ended E st b = (case pointData st of
     None \<Rightarrow> (Inl (Undefined ''a null iterator is dereferenced''), b)
   | Some it \<Rightarrow>
       (if \<not> GridPointDataListIteratorAtEnd it then (Inr (True, st), b)
        else if \<not> ReadStoreHasMoreTuples st then (Inr (False, st), b)
        else (case getNextSetOfValues E st b of
            (Inl e, b1) \<Rightarrow> (Inl e, b1)
          | (Inr st1, b1) \<Rightarrow> skip_ended E st1 b1)))"
  by auto

termination skip_ended
  by (relation "measure (\<lambda>(E, st, b). 2 * (tupleCount st - currentTupleIndex st) + (case pointData st of None \<Rightarrow> 0 | Some _ \<Rightarrow> 1))")
    (auto simp: ReadStoreHasMoreTuples_def dest!: getNextSetOfValues_progress [OF sym])

declare skip_ended.simps [simp del]

definition point_wkt :: "'g environment \<Rightarrow> 'g GridPointData \<Rightarrow> ('g, string) server_call" where
  "point_wkt E d =
     (let G = geos_of (env_reading E) in
      bindS (with_grids (getWktFromCache G (gp_location d))) (\<lambda>cached.
      case cached of
        Some t \<Rightarrow> retS t
      | None \<Rightarrow> (let t = GEOSGeomToWKT G (gp_location d)
          in bindS (with_grids (setWktCache G (gp_location d) t)) (\<lambda>_. retS t))))"

definition next_point :: "'g environment \<Rightarrow> 'g ReadStore \<Rightarrow> ('g, bool \<times> 'g ReadStore) server_call" where
  "next_point E st = (case pointData st of
     None \<Rightarrow> failS (Undefined ''a null iterator is dereferenced'')
   | Some it \<Rightarrow> (case GridPointDataListIteratorNext it of
       (None, _) \<Rightarrow> failS (Undefined ''a null point is dereferenced'')
     | (Some d, it1) \<Rightarrow>
         (let st1 = set_value WCI_READ_VALUE (if gp_value d = NaN then None else Some (FloatD (gp_value d)))
            (st\<lparr>pointData := Some it1\<rparr>)
          in mapS (\<lambda>wkt. (True, set_value WCI_READ_PLACEGEOMETRY (Some (TextD wkt)) st1)) (point_wkt E d))))"

definition getNextRowFromGridTable :: "'g environment \<Rightarrow> 'g ReadStore \<Rightarrow> ('g, bool \<times> 'g ReadStore) server_call" where
  "getNextRowFromGridTable E st =
     bindS (case pointData st of
         Some _ \<Rightarrow> retS (Some st)
       | None \<Rightarrow> (if ReadStoreHasMoreTuples st then mapS Some (getNextSetOfValues E st) else retS None)) (\<lambda>filled.
     case filled of
       None \<Rightarrow> retS (False, st)
     | Some st1 \<Rightarrow> (case pointData st1 of
         None \<Rightarrow> retS (False, st1)
       | Some _ \<Rightarrow> bindS (skip_ended E st1) (\<lambda>(more, st2).
           if more then next_point E st2 else retS (False, st2))))"

section \<open>The SQL functions\<close>

definition float_columns :: string where
  "float_columns = ''value::float, dataprovidername, placename::text, st_astext(placegeometry), referencetime, validtimefrom, validtimeto, validtimeindeterminatecode, valueparametername, valueunitname, levelparametername, levelunitname, levelfrom, levelto, levelindeterminatecode, dataversion, confidencecode, valuestoretime, valueid, valuetype''"

definition grid_columns :: string where
  "grid_columns = ''value, dataprovidername, placename::text, placegeometry, referencetime, validtimefrom, validtimeto, validtimeindeterminatecode, valueparametername, valueunitname, levelparametername, levelunitname, levelfrom, levelto, levelindeterminatecode, dataversion, confidencecode, valuestoretime, valueid, valuetype, placeid''"

definition gid_columns :: string where
  "gid_columns = ''value, dataprovidername, placename::text, st_astext(placegeometry), referencetime, validtimefrom, validtimeto, validtimeindeterminatecode, valueparametername, valueunitname, levelparametername, levelunitname, levelfrom, levelto, levelindeterminatecode, dataversion, confidencecode, valuestoretime, valueid, valuetype''"

text \<open>Running a plan; a NULL plan is refused as a bad argument. \<open>other_code\<close> is the return code of a
  statement that is no select.\<close>

definition run_plan :: "'g environment \<Rightarrow> spi_plan option \<Rightarrow> heap_tuple spi_result" where
  "run_plan E p = (case p of None \<Rightarrow> Spi_other | Some (_, q) \<Rightarrow> tuple_spi E q 0)"

definition base_query_failed :: "'g environment \<Rightarrow> spi_plan option \<Rightarrow> string" where
  "base_query_failed E p = ''Error when performing base query; '' @ show_int (case p of None \<Rightarrow> - 6 | Some _ \<Rightarrow> other_code E)"

definition run_base_query :: "'g environment \<Rightarrow> DataSource \<Rightarrow> string \<Rightarrow> read_arguments \<Rightarrow> ('g, heap_tuple list) server_call" where
  "run_base_query E src whatToSelect args =
     bindS (liftS (parseReadParameters args)) (\<lambda>p.
     bindS (liftS (build_query (env_boost E) (wci_schema E) (Some p) src OutputFloat whatToSelect None None)) (\<lambda>q.
     bindS (with_plans (\<lambda>c. getSpiPlan (prepare E) c q)) (\<lambda>plan.
     liftS (spi_rows ERRCODE_INTERNAL_ERROR (base_query_failed E plan) (run_plan E plan)))))"

definition runWciReadFloatQueryFloat :: "'g environment \<Rightarrow> read_arguments \<Rightarrow> 'g ReadStore \<Rightarrow> ('g, 'g ReadStore) server_call" where
  "runWciReadFloatQueryFloat E args out =
     mapS (\<lambda>rows. out\<lparr>tuples := rows, tupleCount := length rows\<rparr>) (run_base_query E FloatTable float_columns args)"

definition runWciReadFloatQueryGrid :: "'g environment \<Rightarrow> read_arguments \<Rightarrow> 'g ReadStore \<Rightarrow> ('g, 'g ReadStore) server_call" where
  "runWciReadFloatQueryGrid E args out =
     bindS (run_base_query E GridTable grid_columns args) (\<lambda>rows. ReadStoreGridReturnInit E rows (arg1 args) out)"

definition wciReadCachePurge :: "'g backend \<Rightarrow> 'g backend" where
  "wciReadCachePurge b = b\<lparr>grid_session := purgeAllCaches (grid_session b), known_plans := clearSpiPlanCache (known_plans b)\<rparr>"

definition wciReadFloat_first :: "'g environment \<Rightarrow> read_arguments \<Rightarrow> ('g, 'g ReadStore) server_call" where
  "wciReadFloat_first E args =
     bindS (modifyS (\<lambda>b. b\<lparr>grid_session := purgeAllCaches (grid_session b)\<rparr>)) (\<lambda>_.
     if \<not> spi_connects E then failS (Ereport ERRCODE_INTERNAL_ERROR ''unable to connect to SPI procedure'')
     else bindS (runWciReadFloatQueryFloat E args ReadStoreFloatReturnInit) (\<lambda>st.
       if composite_result E then retS st
       else failS (Ereport ERRCODE_FEATURE_NOT_SUPPORTED
         ''function returning record called in context that cannot accept type record'')))"

text \<open>\<open>heap_form_tuple\<close> of the values.\<close>

definition form_row :: "'g ReadStore \<Rightarrow> datum option list" where
  "form_row st = map (rs_values st) return_columns"

definition wciReadFloat_grid :: "'g environment \<Rightarrow> 'g ReadStore \<Rightarrow> ('g, (datum option list \<times> 'g ReadStore) option) server_call" where
  "wciReadFloat_grid E st = mapS (\<lambda>(more, st1). if more then Some (form_row st1, st1) else None) (getNextRowFromGridTable E st)"

definition wciReadFloat_next :: "'g environment \<Rightarrow> read_arguments \<Rightarrow> 'g ReadStore \<Rightarrow>
    ('g, (datum option list \<times> 'g ReadStore) option) server_call" where
  "wciReadFloat_next E args st = (case returnMode st of
     ReturningFromFloatTable \<Rightarrow> bindS (liftS (getNextRowFromFloatTable st)) (\<lambda>(more, st1).
       if more then retS (Some (form_row st1, st1))
       else bindS (runWciReadFloatQueryGrid E args st1) (wciReadFloat_grid E))
   | ReturningFromGridTable \<Rightarrow> wciReadFloat_grid E st)"

text \<open>One call of the SQL function: the first one has no store yet. The result is a row and the store
  for the next call, or none.\<close>

definition wciReadFloat :: "'g environment \<Rightarrow> read_arguments \<Rightarrow> 'g ReadStore option \<Rightarrow>
    ('g, (datum option list \<times> 'g ReadStore) option) server_call" where
  "wciReadFloat E args ctx =
     bindS (case ctx of None \<Rightarrow> wciReadFloat_first E args | Some st \<Rightarrow> retS st) (wciReadFloat_next E args)"

text \<open>The caller: at most \<open>n\<close> calls, stopping when there is no further row.\<close>

fun fetch :: "nat \<Rightarrow> 'g environment \<Rightarrow> read_arguments \<Rightarrow> 'g ReadStore option \<Rightarrow> ('g, datum option list list \<times> bool) server_call" where
  "fetch 0 E args ctx = retS ([], False)"
| "fetch (Suc n) E args ctx = bindS (wciReadFloat E args ctx) (\<lambda>r. case r of
     None \<Rightarrow> retS ([], True)
   | Some (row, st) \<Rightarrow> mapS (\<lambda>(rows, finished). (row # rows, finished)) (fetch n E args (Some st)))"

text \<open>The other output of a read: the tuples of the grid table as they are. The store has only the tuples
  and the position.\<close>

definition runWciReadGidBaseQuery :: "'g environment \<Rightarrow> read_arguments \<Rightarrow> ('g, 'g ReadStore) server_call" where
  "runWciReadGidBaseQuery E args =
     bindS (liftS (parseReadParameters args)) (\<lambda>p.
     bindS (liftS (build_query (env_boost E) (wci_schema E) (Some p) GridTable OutputGid gid_columns None None)) (\<lambda>q.
     mapS (\<lambda>rows. ReadStoreFloatReturnInit\<lparr>tuples := rows, currentTupleIndex := 0, tupleCount := length rows,
         returnMode := ReturningFromGridTable\<rparr>)
       (liftS (spi_rows ERRCODE_INTERNAL_ERROR ''Error when performing base query'' (tuple_spi E q 0)))))"

definition wciReadGid_first :: "'g environment \<Rightarrow> read_arguments \<Rightarrow> ('g, 'g ReadStore) server_call" where
  "wciReadGid_first E args =
     (if \<not> spi_connects E then failS (Ereport ERRCODE_INTERNAL_ERROR ''unable to connect to SPI procedure'')
      else bindS (runWciReadGidBaseQuery E args) (\<lambda>st.
        if composite_result E then retS st
        else failS (Ereport ERRCODE_FEATURE_NOT_SUPPORTED
          ''function returning record called in context that cannot accept type record'')))"

definition wciReadGid :: "'g environment \<Rightarrow> read_arguments \<Rightarrow> 'g ReadStore option \<Rightarrow>
    ('g, (heap_tuple \<times> 'g ReadStore) option) server_call" where
  "wciReadGid E args ctx =
     bindS (case ctx of None \<Rightarrow> wciReadGid_first E args | Some st \<Rightarrow> retS st) (\<lambda>st.
     if currentTupleIndex st < tupleCount st
     then retS (Some (tuples st ! currentTupleIndex st, st\<lparr>currentTupleIndex := currentTupleIndex st + 1\<rparr>))
     else retS None)"

end
