(* ===== verification/ReadRows.thy ===== *)
theory ReadRows
  imports ReadStore
begin

text \<open>
  What a whole \<open>wci.read\<close> call returns. The C function is called once per row and keeps a store with
  a half used iterator; the specification is a plain list: the tuples of the float table, then for
  every tuple of the grid table the rows of its points. The main lemma is the refinement of the second by
  the first, errors and effects included.
\<close>

section \<open>Sequences that settle\<close>

definition settles :: "(nat \<Rightarrow> 'a) \<Rightarrow> 'a \<Rightarrow> bool" where
  "settles f v \<longleftrightarrow> (\<exists>n. \<forall>m \<ge> n. f m = v)"

lemma settles_step:
  assumes "settles g v" and "\<And>n. f (Suc n) = h (g n)"
  shows "settles f (h v)"
proof -
  from assms(1) obtain n where n: "\<And>m. n \<le> m \<Longrightarrow> g m = v" by (auto simp: settles_def)
  have "f m = h v" if "Suc n \<le> m" for m
    using that assms(2) n by (cases m) simp_all
  then show ?thesis by (auto simp: settles_def)
qed

lemma settles_const: "(\<And>n. f (Suc n) = v) \<Longrightarrow> settles f v"
  using settles_step [of "\<lambda>_. v" v f "\<lambda>x. x"] by (simp add: settles_def)

lemma settles_shift:
  assumes "settles g v" and "\<And>n. f (Suc n) = g (Suc n)"
  shows "settles f v"
proof -
  from assms(1) obtain n where n: "\<And>m. n \<le> m \<Longrightarrow> g m = v" by (auto simp: settles_def)
  have "f m = v" if "Suc n \<le> m" for m
    using that assms(2) n by (cases m) simp_all
  then show ?thesis by (auto simp: settles_def)
qed

section \<open>The specification\<close>

definition float_row :: "heap_tuple \<Rightarrow> datum option list" where
  "float_row t = map (SPI_getbinval t) [1..<21]"

definition grid_row :: "heap_tuple \<Rightarrow> datum option \<Rightarrow> 'g GridPointData \<Rightarrow> string \<Rightarrow> datum option list" where
  "grid_row t name d wkt =
     [if gp_value d = NaN then None else Some (FloatD (gp_value d)), SPI_getbinval t 2, name, Some (TextD wkt)]
     @ map (SPI_getbinval t) [5..<21]"

text \<open>The points of a tuple; none when its place is not known.\<close>

definition tuple_points :: "'g environment \<Rightarrow> 'g ReadStore \<Rightarrow> heap_tuple \<Rightarrow> ('g, 'g point_iterator option) server_call" where
  "tuple_points E st t =
     bindS (liftS (int64_datum (SPI_getbinval t 21))) (\<lambda>placeid.
     bindS (liftS (int64_datum (SPI_getbinval t 1))) (\<lambda>dataid. getValues E placeid dataid st))"

definition point_rows :: "'g environment \<Rightarrow> heap_tuple \<Rightarrow> datum option \<Rightarrow> 'g GridPointDataList \<Rightarrow>
    ('g, datum option list list) server_call" where
  "point_rows E t name l = forS l (\<lambda>d. mapS (grid_row t name d) (point_wkt E d))"

fun grid_rows :: "'g environment \<Rightarrow> 'g ReadStore \<Rightarrow> bool \<Rightarrow> heap_tuple list \<Rightarrow> ('g, datum option list list) server_call" where
  "grid_rows E st is_first [] = retS []"
| "grid_rows E st is_first (t # ts) = bindS (tuple_points E st t) (\<lambda>found. case found of
     None \<Rightarrow> (if is_first then retS [] else failS (Undefined ''a null iterator is dereferenced''))
   | Some (l, pos) \<Rightarrow> bindS (liftS (getLocationString (locationString st) t)) (\<lambda>name.
       bindS (point_rows E t name (drop pos l)) (\<lambda>rows.
       mapS (\<lambda>rest. rows @ rest) (grid_rows E st False ts))))"

definition read_rows :: "'g environment \<Rightarrow> read_arguments \<Rightarrow> ('g, datum option list list) server_call" where
  "read_rows E args = bindS (wciReadFloat_first E args) (\<lambda>st.
     bindS (runWciReadFloatQueryGrid E args st) (\<lambda>st1.
     mapS (\<lambda>rows. map float_row (tuples st) @ rows) (grid_rows E st1 True (tuples st1))))"

section \<open>The values of a row\<close>

text \<open>The common values of a tuple are in the store.\<close>

definition holds_tuple :: "heap_tuple \<Rightarrow> datum option \<Rightarrow> 'g ReadStore \<Rightarrow> bool" where
  "holds_tuple t name st \<longleftrightarrow>
     (\<forall>v g. map ((rs_values st)(WCI_READ_VALUE := v, WCI_READ_PLACEGEOMETRY := g)) return_columns
       = [v, SPI_getbinval t 2, name, g] @ map (SPI_getbinval t) [5..<21])"

lemma holds_tuple_update [simp]:
  "holds_tuple t name (set_value WCI_READ_VALUE v st) = holds_tuple t name st"
  "holds_tuple t name (set_value WCI_READ_PLACEGEOMETRY g st) = holds_tuple t name st"
  "holds_tuple t name (st\<lparr>pointData := pd\<rparr>) = holds_tuple t name st"
  "holds_tuple t name (st\<lparr>currentTupleIndex := i\<rparr>) = holds_tuple t name st"
  by (simp_all add: holds_tuple_def return_columns_def)

lemma holds_tuple_row:
  "holds_tuple t name st \<Longrightarrow> form_row (set_value WCI_READ_PLACEGEOMETRY g (set_value WCI_READ_VALUE v st))
    = [v, SPI_getbinval t 2, name, g] @ map (SPI_getbinval t) [5..<21]"
  by (simp add: holds_tuple_def form_row_def)

lemma getCommonValues_holds:
  assumes "t = tuples st ! currentTupleIndex st"
  shows "getCommonValues st = (case getLocationString (locationString st) t of
      Inl e \<Rightarrow> Inl e
    | Inr name \<Rightarrow> getCommonValues st)"
    and "getCommonValues st = Inr st1 \<Longrightarrow>
      \<exists>name. getLocationString (locationString st) t = Inr name \<and> holds_tuple t name st1"
proof -
  show "getCommonValues st = (case getLocationString (locationString st) t of Inl e \<Rightarrow> Inl e | Inr name \<Rightarrow> getCommonValues st)"
    by (simp add: getCommonValues_def assms Let_def split: sum.split)
  assume "getCommonValues st = Inr st1"
  then obtain name where name: "getLocationString (locationString st) t = Inr name"
    and st1: "st1 = fold (\<lambda>(c, n). set_value c (SPI_getbinval t n)) common_columns
      (set_value WCI_READ_PLACENAME name (set_value WCI_READ_DATAPROVIDERNAME (SPI_getbinval t 2) st))"
    by (auto simp: getCommonValues_def Let_def mapE_eq_Inr assms)
  have "holds_tuple t name st1"
    by (simp add: st1 holds_tuple_def common_columns_def return_columns_def upt_rec_numeral)
  with name show "\<exists>name. getLocationString (locationString st) t = Inr name \<and> holds_tuple t name st1" by blast
qed

section \<open>One call of the function\<close>

lemma mapS_mapS [simp]: "mapS f (mapS g m) = mapS (\<lambda>x. f (g x)) m"
  by (auto simp: fun_eq_iff mapS_def mapE_def split: prod.split sum.split)

lemma mapS_at: "mapS f m s = (\<lambda>(r, s1). (mapE f r, s1)) (m s)"
  by (simp add: mapS_def)

lemma mapS_bindS: "mapS f (bindS m g) = bindS m (\<lambda>x. mapS f (g x))"
  by (auto simp: fun_eq_iff mapS_def mapE_def bindS_def split: prod.split sum.split)

lemma bindS_mapS: "bindS (mapS f m) g = bindS m (\<lambda>x. g (f x))"
  by (auto simp: fun_eq_iff mapS_def mapE_def bindS_def split: prod.split sum.split)

lemma bindS_bindS: "bindS (bindS m f) g = bindS m (\<lambda>x. bindS (f x) g)"
  by (auto simp: fun_eq_iff bindS_def split: prod.split sum.split)

lemma bindS_retS [simp]: "bindS (retS x) f = f x"
  by (simp add: fun_eq_iff bindS_def retS_def)

lemma mapS_retS [simp]: "mapS f (retS x) = retS (f x)"
  by (simp add: fun_eq_iff mapS_def retS_def)

lemma bindS_failS [simp]: "bindS (failS e) f = failS e"
  by (simp add: fun_eq_iff bindS_def failS_def)

lemma mapS_failS [simp]: "mapS f (failS e) = failS e"
  by (simp add: fun_eq_iff mapS_def failS_def)

lemma bindS_cong: "(\<And>x s1. m s = (Inr x, s1) \<Longrightarrow> f x s1 = g x s1) \<Longrightarrow> bindS m f s = bindS m g s"
  by (auto simp: bindS_def split: prod.split sum.split)

text \<open>The part of the store that a read of points depends on.\<close>

definition same_query :: "'g ReadStore \<Rightarrow> 'g ReadStore \<Rightarrow> bool" where
  "same_query st st' \<longleftrightarrow> rs_location st = rs_location st' \<and> rs_interpolation st = rs_interpolation st'
     \<and> rs_interpolationParameter st = rs_interpolationParameter st' \<and> locationString st = locationString st'"

lemma same_query_simps [simp]:
  "same_query st (set_value c v st') = same_query st st'" "same_query st (st'\<lparr>pointData := pd\<rparr>) = same_query st st'"
  "same_query st (st'\<lparr>currentTupleIndex := i\<rparr>) = same_query st st'" "same_query st (st'\<lparr>rs_values := w\<rparr>) = same_query st st'"
  "same_query st st"
  by (simp_all add: same_query_def)

lemma tuple_points_cong: "same_query st st' \<Longrightarrow> tuple_points E st' t = tuple_points E st t"
  unfolding tuple_points_def getValues_def same_query_def by (elim conjE) (simp only:)

lemma getNextSetOfValues_eq:
  "getNextSetOfValues E st = bindS (tuple_points E st (tuples st ! currentTupleIndex st)) (\<lambda>pd.
     case pd of
       None \<Rightarrow> retS (st\<lparr>pointData := None\<rparr>)
     | Some it \<Rightarrow> liftS (mapE (\<lambda>st2. st2\<lparr>currentTupleIndex := currentTupleIndex st2 + 1\<rparr>)
         (getCommonValues (st\<lparr>pointData := Some it\<rparr>))))"
  by (auto simp: getNextSetOfValues_def tuple_points_def Let_def bindS_bindS fun_eq_iff intro!: bindS_cong split: option.split)

text \<open>In the middle of an iterator the next row is that of its point; at its end the next tuple is
  taken.\<close>

definition after_point :: "'g ReadStore \<Rightarrow> 'g GridPointData \<Rightarrow> 'g point_iterator \<Rightarrow> string \<Rightarrow> 'g ReadStore" where
  "after_point st d it w = set_value WCI_READ_PLACEGEOMETRY (Some (TextD w))
     (set_value WCI_READ_VALUE (if gp_value d = NaN then None else Some (FloatD (gp_value d))) (st\<lparr>pointData := Some it\<rparr>))"

lemma grid_point_call:
  assumes "pointData st = Some (l, pos)" and "pos < length l"
  shows "wciReadFloat_grid E st = mapS (\<lambda>w. let st1 = after_point st (l ! pos) (l, pos + 1) w in Some (form_row st1, st1))
    (point_wkt E (l ! pos))"
proof -
  have "skip_ended E st b = (Inr (True, st), b)" for b
    using assms by (subst skip_ended.simps) (simp add: GridPointDataListIteratorAtEnd_def)
  then have "getNextRowFromGridTable E st = next_point E st"
    using assms(1) by (auto simp: getNextRowFromGridTable_def fun_eq_iff bindS_def)
  then show ?thesis
    using assms by (simp add: wciReadFloat_grid_def next_point_def GridPointDataListIteratorNext_def
        GridPointDataListIteratorAtEnd_def Let_def after_point_def)
qed

lemma grid_end_call:
  assumes "pointData st = Some (l, pos)" and "length l \<le> pos" and "\<not> ReadStoreHasMoreTuples st"
  shows "wciReadFloat_grid E st = retS None"
proof -
  have "skip_ended E st = retS (False, st)"
    using assms by (intro ext, subst skip_ended.simps) (simp add: GridPointDataListIteratorAtEnd_def retS_def)
  then show ?thesis
    using assms(1) by (simp add: wciReadFloat_grid_def getNextRowFromGridTable_def fun_eq_iff mapS_def retS_def bindS_def)
qed

lemma grid_tuple_call:
  assumes "pointData st = Some (l, pos)" and "length l \<le> pos" and "ReadStoreHasMoreTuples st"
  shows "wciReadFloat_grid E st = bindS (getNextSetOfValues E st) (\<lambda>st1. case pointData st1 of
      None \<Rightarrow> failS (Undefined ''a null iterator is dereferenced'')
    | Some _ \<Rightarrow> wciReadFloat_grid E st1)"
proof -
  have skip: "skip_ended E st = bindS (getNextSetOfValues E st) (skip_ended E)"
    using assms by (intro ext, subst skip_ended.simps)
      (simp add: GridPointDataListIteratorAtEnd_def bindS_def split: prod.split sum.split)
  have none: "skip_ended E st1 = failS (Undefined ''a null iterator is dereferenced'')" if "pointData st1 = None" for st1
    using that by (intro ext, subst skip_ended.simps) (simp add: failS_def)
  show ?thesis
    using assms(1) none
    by (auto simp: wciReadFloat_grid_def getNextRowFromGridTable_def skip bindS_bindS mapS_bindS fun_eq_iff
        intro!: bindS_cong split: option.split) (simp add: bindS_def)
qed

lemma grid_first_call:
  assumes "pointData st = None"
  shows "wciReadFloat_grid E st = (if ReadStoreHasMoreTuples st
    then bindS (getNextSetOfValues E st) (\<lambda>st1. case pointData st1 of
      None \<Rightarrow> retS None
    | Some _ \<Rightarrow> wciReadFloat_grid E st1) else retS None)"
  using assms
  by (auto simp: wciReadFloat_grid_def getNextRowFromGridTable_def bindS_mapS mapS_bindS fun_eq_iff
      intro!: bindS_cong split: option.split)

section \<open>All calls\<close>

lemma fetch_grid:
  assumes "returnMode st = ReturningFromGridTable"
  shows "fetch (Suc n) E args (Some st) = bindS (wciReadFloat_grid E st) (\<lambda>r. case r of
     None \<Rightarrow> retS ([], True)
   | Some (row, st) \<Rightarrow> mapS (\<lambda>(rows, finished). (row # rows, finished)) (fetch n E args (Some st)))"
  using assms by (simp add: wciReadFloat_def wciReadFloat_next_def)

declare fetch.simps(2) [simp del]

definition finish :: "('g, datum option list list) server_call \<Rightarrow> ('g, datum option list list \<times> bool) server_call" where
  "finish m = mapS (\<lambda>rows. (rows, True)) m"

definition prepend :: "datum option list list \<Rightarrow> datum option list list \<times> bool \<Rightarrow> datum option list list \<times> bool" where
  "prepend rows r = (rows @ fst r, snd r)"

lemma after_point_fields [simp]:
  "tuples (after_point st d it w) = tuples st" "currentTupleIndex (after_point st d it w) = currentTupleIndex st"
  "tupleCount (after_point st d it w) = tupleCount st" "returnMode (after_point st d it w) = returnMode st"
  "pointData (after_point st d it w) = Some it" "same_query st' (after_point st d it w) = same_query st' st"
  "holds_tuple t name (after_point st d it w) = holds_tuple t name st"
  by (simp_all add: after_point_def)

lemma after_point_row:
  assumes "holds_tuple t name st"
  shows "form_row (after_point st d it w) = grid_row t name d w"
proof -
  have "holds_tuple t name (st\<lparr>pointData := Some it\<rparr>)" using assms by simp
  from holds_tuple_row [OF this] show ?thesis by (simp add: after_point_def grid_row_def)
qed

text \<open>The rest of an iterator gives the rows of its points, and then what its end gives.\<close>

lemma fetch_points:
  assumes "pointData st = Some (l, pos)"
    and "returnMode st = ReturningFromGridTable" and "holds_tuple t name st"
    and rest: "\<And>st' k b'. pointData st' = Some (l, k) \<Longrightarrow> length l \<le> k \<Longrightarrow> returnMode st' = ReturningFromGridTable \<Longrightarrow>
      same_query st st' \<Longrightarrow> tuples st' = tuples st \<Longrightarrow> tupleCount st' = tupleCount st \<Longrightarrow>
      currentTupleIndex st' = currentTupleIndex st \<Longrightarrow> settles (\<lambda>n. fetch n E args (Some st') b') (K b')"
  shows "settles (\<lambda>n. fetch n E args (Some st) b) (bindS (point_rows E t name (drop pos l)) (\<lambda>rows. mapS (prepend rows) K) b)"
  using assms
proof (induction "length l - pos" arbitrary: pos st b)
  case 0
  then have pos: "length l \<le> pos" by simp
  with "0.prems" have "settles (\<lambda>n. fetch n E args (Some st) b) (K b)" by simp
  moreover have "mapS (prepend []) K = K"
    by (auto simp: fun_eq_iff mapS_def mapE_def prepend_def split: prod.split sum.split)
  ultimately show ?case using pos by (simp add: point_rows_def bindS_def)
next
  case (Suc k)
  then have pos: "pos < length l" "k = length l - (pos + 1)" by simp_all
  let ?d = "l ! pos"
  let ?next = "after_point st ?d (l, pos + 1)"
  let ?spec = "bindS (point_rows E t name (drop (pos + 1) l)) (\<lambda>rows. mapS (prepend rows) K)"
  obtain r b1 where w: "point_wkt E ?d b = (r, b1)" by fastforce
  have step: "fetch (Suc n) E args (Some st) b = bindS (point_wkt E ?d)
      (\<lambda>w. mapS (prepend [grid_row t name ?d w]) (fetch n E args (Some (?next w)))) b" for n
    unfolding fetch_grid [OF Suc.prems(2)] grid_point_call [OF Suc.prems(1) pos(1)] bindS_mapS Let_def option.case prod.case
      after_point_row [OF Suc.prems(3)]
    by (simp add: prepend_def [abs_def] case_prod_beta')
  have drop: "drop pos l = ?d # drop (pos + 1) l" using pos(1) by (simp add: Cons_nth_drop_Suc)
  have spec: "bindS (point_rows E t name (drop pos l)) (\<lambda>rows. mapS (prepend rows) K)
      = bindS (point_wkt E ?d) (\<lambda>w. mapS (prepend [grid_row t name ?d w]) ?spec)"
    by (simp add: drop point_rows_def bindS_bindS bindS_mapS mapS_bindS prepend_def [abs_def])
  show ?case
  proof (cases r)
    case (Inl e)
    with w show ?thesis unfolding spec by (intro settles_const) (simp add: step bindS_Inl)
  next
    case (Inr wkt)
    have "settles (\<lambda>n. fetch n E args (Some (?next wkt)) b1) (?spec b1)"
    proof (rule Suc.hyps(1) [OF pos(2)])
      show "settles (\<lambda>n. fetch n E args (Some st') b') (K b')"
        if "pointData st' = Some (l, k)" "length l \<le> k" "returnMode st' = ReturningFromGridTable" "same_query (?next wkt) st'"
          "tuples st' = tuples (?next wkt)" "tupleCount st' = tupleCount (?next wkt)"
          "currentTupleIndex st' = currentTupleIndex (?next wkt)" for st' k b'
        by (rule Suc.prems(4)) (use that in \<open>simp_all add: same_query_def after_point_def\<close>)
    qed (use Suc.prems(2,3) in simp_all)
    then show ?thesis
      unfolding spec bindS_Inr [where m = "point_wkt E ?d", OF w [unfolded Inr]]
        mapS_at [of "prepend [grid_row t name ?d wkt]" ?spec b1]
      by (rule settles_step) (simp add: step bindS_Inr [where m = "point_wkt E ?d", OF w [unfolded Inr]] mapS_at)
  qed
qed

text \<open>Taking the next tuple: its points, or nothing when its place is not known.\<close>

lemma next_tuple:
  assumes "returnMode st' = ReturningFromGridTable" and "t = tuples st' ! currentTupleIndex st'"
    and points: "\<And>st1 name l1 pos b1. pointData st1 = Some (l1, pos) \<Longrightarrow> returnMode st1 = ReturningFromGridTable \<Longrightarrow>
      same_query st' st1 \<Longrightarrow> tuples st1 = tuples st' \<Longrightarrow> tupleCount st1 = tupleCount st' \<Longrightarrow>
      currentTupleIndex st1 = currentTupleIndex st' + 1 \<Longrightarrow> holds_tuple t name st1 \<Longrightarrow>
      settles (\<lambda>n. fetch n E args (Some st1) b1) (D l1 pos name b1)"
    and call: "wciReadFloat_grid E st' = bindS (getNextSetOfValues E st') (\<lambda>st1. case pointData st1 of
      None \<Rightarrow> N | Some _ \<Rightarrow> wciReadFloat_grid E st1)"
    and none: "N = failS e \<and> M = failS e \<or> N = retS None \<and> M = retS ([], True)"
  shows "settles (\<lambda>n. fetch n E args (Some st') b) (bindS (tuple_points E st' t) (\<lambda>found. case found of
      None \<Rightarrow> M
    | Some (l1, pos) \<Rightarrow> bindS (liftS (getLocationString (locationString st') t)) (D l1 pos)) b)"
proof -
  obtain r b1 where p: "tuple_points E st' t b = (r, b1)" by fastforce
  have next_set: "getNextSetOfValues E st' b = bindS (tuple_points E st' t) (\<lambda>pd.
     case pd of
       None \<Rightarrow> retS (st'\<lparr>pointData := None\<rparr>)
     | Some it \<Rightarrow> liftS (mapE (\<lambda>st2. st2\<lparr>currentTupleIndex := currentTupleIndex st2 + 1\<rparr>)
         (getCommonValues (st'\<lparr>pointData := Some it\<rparr>)))) b"
    unfolding getNextSetOfValues_eq assms(2) ..
  note step = fetch_grid [OF assms(1)]
  show ?thesis
  proof (cases r)
    case (Inl e')
    then have "getNextSetOfValues E st' b = (Inl e', b1)" unfolding next_set using p by (simp add: bindS_Inl)
    then have "fetch (Suc n) E args (Some st') b = (Inl e', b1)" for n
      unfolding step call by (simp add: bindS_def)
    then show ?thesis using p Inl by (intro settles_const) (simp add: bindS_def)
  next
    case (Inr pd)
    note p = p [unfolded Inr]
    show ?thesis
    proof (cases pd)
      case None
      then have "getNextSetOfValues E st' b = (Inr (st'\<lparr>pointData := None\<rparr>), b1)"
        unfolding next_set using p by (simp add: bindS_def)
      then have "wciReadFloat_grid E st' b = N b1" unfolding call by (simp add: bindS_def)
      then have "fetch (Suc n) E args (Some st') b = M b1" for n
        unfolding step using none by (auto simp: bindS_def failS_def retS_def)
      then show ?thesis using p None by (intro settles_const) (simp add: bindS_def)
    next
      case (Some it)
      obtain l1 pos where it: "it = (l1, pos)" by (cases it)
      let ?st = "st'\<lparr>pointData := Some it\<rparr>"
      have nxt: "getNextSetOfValues E st' b
          = (mapE (\<lambda>st2. st2\<lparr>currentTupleIndex := currentTupleIndex st2 + 1\<rparr>) (getCommonValues ?st), b1)"
        unfolding next_set using p Some by (simp add: bindS_def)
      have t: "t = tuples ?st ! currentTupleIndex ?st" by (simp add: assms(2))
      show ?thesis
      proof (cases "getCommonValues ?st")
        case (Inl e')
        then have "getLocationString (locationString st') t = Inl e'"
          by (auto simp: getCommonValues_def Let_def mapE_eq_Inl assms(2))
        moreover have "fetch (Suc n) E args (Some st') b = (Inl e', b1)" for n
          unfolding step call using nxt Inl by (simp add: bindS_def)
        ultimately show ?thesis using p Some it by (intro settles_const) (simp add: bindS_def)
      next
        case (Inr st2)
        from getCommonValues_holds(2) [OF t Inr] obtain name
          where name: "getLocationString (locationString st') t = Inr name" "holds_tuple t name st2" by auto
        let ?st1 = "st2\<lparr>currentTupleIndex := currentTupleIndex st2 + 1\<rparr>"
        obtain v where v: "st2 = ?st\<lparr>rs_values := v\<rparr>" using getCommonValues_only_values [OF Inr] by blast
        have "settles (\<lambda>n. fetch n E args (Some ?st1) b1) (D l1 pos name b1)"
          by (rule points) (use v it assms(1) name(2) in simp_all)
        moreover have "fetch (Suc n) E args (Some st') b = fetch (Suc n) E args (Some ?st1) b1" for n
        proof -
          have "returnMode ?st1 = ReturningFromGridTable" using v assms(1) by simp
          from fetch_grid [OF this] show ?thesis
            unfolding step call using nxt Inr v by (simp add: bindS_def)
        qed
        ultimately have "settles (\<lambda>n. fetch n E args (Some st') b) (D l1 pos name b1)" by (rule settles_shift)
        then show ?thesis using p Some it name by (simp add: bindS_def)
      qed
    qed
  qed
qed

lemma grid_rows_cong: "same_query st st' \<Longrightarrow> grid_rows E st' f ts = grid_rows E st f ts"
proof (induction ts arbitrary: f)
  case (Cons t ts)
  from Cons.prems have l: "locationString st' = locationString st" by (simp add: same_query_def)
  show ?case unfolding grid_rows.simps Cons.IH [OF Cons.prems] tuple_points_cong [OF Cons.prems] l ..
qed simp

lemma finish_append: "finish (mapS ((@) rows) g) = mapS (prepend rows) (finish g)"
  by (simp add: finish_def prepend_def)

lemma finish_bindS: "finish (bindS m f) = bindS m (\<lambda>x. finish (f x))"
  by (simp add: finish_def mapS_bindS)

lemma finish_simps [simp]: "finish (failS e) = failS e" "finish (retS x) = retS (x, True)"
  by (simp_all add: finish_def)

lemma fetch_tuples:
  assumes "pointData st = Some (l, k)" and "length l \<le> k" and "returnMode st = ReturningFromGridTable"
    and "ts = drop (currentTupleIndex st) (tuples st)" and "tupleCount st = length (tuples st)"
  shows "settles (\<lambda>n. fetch n E args (Some st) b) (finish (grid_rows E st False ts) b)"
  using assms
proof (induction ts arbitrary: st l k b)
  case Nil
  then have "wciReadFloat_grid E st = retS None"
    by (intro grid_end_call [OF Nil.prems(1,2)]) (simp_all add: ReadStoreHasMoreTuples_def)
  then show ?case
    unfolding fetch_grid [OF Nil.prems(3)] finish_def
    by (intro settles_const, unfold fetch_grid [OF Nil.prems(3)]) (simp add: mapS_def bindS_def retS_def)
next
  case (Cons t ts)
  have idx: "currentTupleIndex st < length (tuples st)" using Cons.prems(4) by (cases "currentTupleIndex st < length (tuples st)") simp_all
  with Cons.prems(4) have more: "ReadStoreHasMoreTuples st" "t = tuples st ! currentTupleIndex st"
      "ts = drop (currentTupleIndex st + 1) (tuples st)"
    using Cons.prems(5) by (simp_all add: ReadStoreHasMoreTuples_def flip: Cons_nth_drop_Suc)
  let ?null = "Undefined ''a null iterator is dereferenced''"
  let ?D = "\<lambda>l1 pos name. bindS (point_rows E t name (drop pos l1)) (\<lambda>rows. mapS (prepend rows) (finish (grid_rows E st False ts)))"
  have "settles (\<lambda>n. fetch n E args (Some st) b) (bindS (tuple_points E st t) (\<lambda>found. case found of
      None \<Rightarrow> failS ?null
    | Some (l1, pos) \<Rightarrow> bindS (liftS (getLocationString (locationString st) t)) (?D l1 pos)) b)"
  proof (rule next_tuple)
    show "wciReadFloat_grid E st = bindS (getNextSetOfValues E st) (\<lambda>st1. case pointData st1 of
        None \<Rightarrow> failS ?null | Some _ \<Rightarrow> wciReadFloat_grid E st1)"
      by (rule grid_tuple_call [OF Cons.prems(1,2) more(1)])
    show "failS ?null = failS ?null \<and> failS ?null = failS ?null \<or> failS ?null = retS None \<and> failS ?null = retS ([], True)"
      by simp
    fix st1 name l1 pos b1
    assume st1: "pointData st1 = Some (l1, pos)" "returnMode st1 = ReturningFromGridTable" "same_query st st1"
      "tuples st1 = tuples st" "tupleCount st1 = tupleCount st" "currentTupleIndex st1 = currentTupleIndex st + 1" "holds_tuple t name st1"
    show "settles (\<lambda>n. fetch n E args (Some st1) b1) (?D l1 pos name b1)"
    proof (rule fetch_points [OF st1(1,2,7)])
      fix st2 :: "'a ReadStore" and k2 b2
      assume st2: "pointData st2 = Some (l1, k2)" "length l1 \<le> k2" "returnMode st2 = ReturningFromGridTable" "same_query st1 st2"
        "tuples st2 = tuples st1" "tupleCount st2 = tupleCount st1" "currentTupleIndex st2 = currentTupleIndex st1"
      have "same_query st st2" using st1(3) st2(4) by (simp add: same_query_def)
      then have "finish (grid_rows E st False ts) = finish (grid_rows E st2 False ts)" by (simp only: grid_rows_cong)
      moreover have "settles (\<lambda>n. fetch n E args (Some st2) b2) (finish (grid_rows E st2 False ts) b2)"
        by (rule Cons.IH [OF st2(1-3)]) (use st1 st2 more(3) Cons.prems(5) in simp_all)
      ultimately show "settles (\<lambda>n. fetch n E args (Some st2) b2) (finish (grid_rows E st False ts) b2)" by simp
    qed
  qed (use Cons.prems(3) more(2) in simp_all)
  moreover have "finish (grid_rows E st False (t # ts)) = bindS (tuple_points E st t) (\<lambda>found. case found of
      None \<Rightarrow> failS ?null
    | Some (l1, pos) \<Rightarrow> bindS (liftS (getLocationString (locationString st) t)) (?D l1 pos))"
    unfolding grid_rows.simps finish_bindS
    by (rule arg_cong [where f = "bindS (tuple_points E st t)"], rule ext)
      (simp add: finish_bindS finish_append split: option.split prod.split)
  ultimately show ?case by simp
qed

text \<open>A store that has just been filled from the grid table.\<close>

definition grid_start :: "'g ReadStore \<Rightarrow> bool" where
  "grid_start st \<longleftrightarrow> pointData st = None \<and> returnMode st = ReturningFromGridTable
     \<and> currentTupleIndex st = 0 \<and> tupleCount st = length (tuples st)"

lemma fetch_grid_start:
  assumes "grid_start st"
  shows "settles (\<lambda>n. fetch n E args (Some st) b) (finish (grid_rows E st True (tuples st)) b)"
proof -
  have mode: "returnMode st = ReturningFromGridTable" and pd: "pointData st = None"
    and idx: "currentTupleIndex st = 0" "tupleCount st = length (tuples st)"
    using assms by (simp_all add: grid_start_def)
  show ?thesis
  proof (cases "tuples st")
    case Nil
    then have "wciReadFloat_grid E st = retS None"
      by (simp add: grid_first_call [OF pd] ReadStoreHasMoreTuples_def idx)
    with Nil show ?thesis
      by (intro settles_const, unfold fetch_grid [OF mode]) (simp add: mapS_def bindS_def retS_def finish_def)
  next
    case (Cons t ts)
    let ?D = "\<lambda>l1 pos name. bindS (point_rows E t name (drop pos l1)) (\<lambda>rows. mapS (prepend rows) (finish (grid_rows E st False ts)))"
    have "settles (\<lambda>n. fetch n E args (Some st) b) (bindS (tuple_points E st t) (\<lambda>found. case found of
        None \<Rightarrow> retS ([], True)
      | Some (l1, pos) \<Rightarrow> bindS (liftS (getLocationString (locationString st) t)) (?D l1 pos)) b)"
    proof (rule next_tuple [OF mode])
      show "t = tuples st ! currentTupleIndex st" by (simp add: Cons idx)
      show "wciReadFloat_grid E st = bindS (getNextSetOfValues E st) (\<lambda>st1. case pointData st1 of
          None \<Rightarrow> retS None | Some _ \<Rightarrow> wciReadFloat_grid E st1)"
        by (simp only: grid_first_call [OF pd]) (simp add: ReadStoreHasMoreTuples_def idx Cons)
      show "retS None = failS undefined \<and> retS ([], True) = failS undefined \<or> retS None = retS None \<and> retS ([], True) = retS ([], True)"
        by simp
      fix st1 name l1 pos b1
      assume st1: "pointData st1 = Some (l1, pos)" "returnMode st1 = ReturningFromGridTable" "same_query st st1"
        "tuples st1 = tuples st" "tupleCount st1 = tupleCount st" "currentTupleIndex st1 = currentTupleIndex st + 1" "holds_tuple t name st1"
      show "settles (\<lambda>n. fetch n E args (Some st1) b1) (?D l1 pos name b1)"
      proof (rule fetch_points [OF st1(1,2,7)])
        fix st2 :: "'a ReadStore" and k2 b2
        assume st2: "pointData st2 = Some (l1, k2)" "length l1 \<le> k2" "returnMode st2 = ReturningFromGridTable" "same_query st1 st2"
          "tuples st2 = tuples st1" "tupleCount st2 = tupleCount st1" "currentTupleIndex st2 = currentTupleIndex st1"
        have "same_query st st2" using st1(3) st2(4) by (simp add: same_query_def)
        then have "finish (grid_rows E st False ts) = finish (grid_rows E st2 False ts)" by (simp only: grid_rows_cong)
        moreover have "settles (\<lambda>n. fetch n E args (Some st2) b2) (finish (grid_rows E st2 False ts) b2)"
          by (rule fetch_tuples [OF st2(1-3)]) (use st1 st2 idx Cons in simp_all)
        ultimately show "settles (\<lambda>n. fetch n E args (Some st2) b2) (finish (grid_rows E st False ts) b2)" by simp
      qed
    qed
    moreover have "finish (grid_rows E st True (t # ts)) = bindS (tuple_points E st t) (\<lambda>found. case found of
        None \<Rightarrow> retS ([], True)
      | Some (l1, pos) \<Rightarrow> bindS (liftS (getLocationString (locationString st) t)) (?D l1 pos))"
      unfolding grid_rows.simps finish_bindS
      by (rule arg_cong [where f = "bindS (tuple_points E st t)"], rule ext)
        (simp add: finish_bindS finish_append del: retS_def split: option.split prod.split)
    ultimately show ?thesis by (simp add: Cons)
  qed
qed

lemma setReadStoreGeometry_fields:
  "setReadStoreGeometry E place (out\<lparr>rs_values := v\<rparr>) = mapS (\<lambda>st. st\<lparr>rs_values := v\<rparr>) (setReadStoreGeometry E place out)"
  "setReadStoreGeometry E place out b = (Inr st, b1) \<Longrightarrow> tuples st = tuples out \<and> currentTupleIndex st = currentTupleIndex out
     \<and> tupleCount st = tupleCount out \<and> returnMode st = returnMode out \<and> pointData st = pointData out"
  by (auto simp: setReadStoreGeometry_def Let_def fun_eq_iff bindS_def liftS_def retS_def mapS_def with_names_def zoomS_def
      split: option.splits prod.splits sum.splits err.splits if_splits)

lemma reportS_eq_Inr: "reportS c m s = (Inr x, s1) \<longleftrightarrow> m s = (Inr x, s1)"
  by (auto simp: reportS_def report_std_eq_Inr split: prod.split)

lemma query_grid_state:
  assumes "runWciReadFloatQueryGrid E args out b = (Inr st, b1)"
  shows "grid_start st"
  using assms
  by (auto simp: runWciReadFloatQueryGrid_def bindS_eq_Inr ReadStoreGridReturnInit_def reportS_eq_Inr grid_start_def
      dest!: setReadStoreGeometry_fields(2))

lemma query_grid_values:
  "runWciReadFloatQueryGrid E args (out\<lparr>currentTupleIndex := i, rs_values := v\<rparr>)
    = mapS (\<lambda>st. st\<lparr>rs_values := v\<rparr>) (runWciReadFloatQueryGrid E args out)"
proof -
  have report: "reportS c (mapS f m) = mapS f (reportS c m)" for c f and m :: "('a backend, 'a ReadStore) call"
    by (auto simp: fun_eq_iff reportS_def mapS_def mapE_def report_std_def split: prod.split sum.split)
  have init: "ReadStoreGridReturnInit E rows place (out\<lparr>currentTupleIndex := i, rs_values := v\<rparr>)
      = mapS (\<lambda>st. st\<lparr>rs_values := v\<rparr>) (ReadStoreGridReturnInit E rows place out)" for rows place
    unfolding ReadStoreGridReturnInit_def report [symmetric] setReadStoreGeometry_fields(1) [symmetric]
    by (intro arg_cong2 [where f = reportS] arg_cong2 [where f = "setReadStoreGeometry E"] refl ReadStore.equality) simp_all
  show ?thesis unfolding runWciReadFloatQueryGrid_def init mapS_bindS ..
qed

text \<open>The rows of the float table, then the query on the grid table.\<close>

lemma float_call:
  assumes "i < length ts"
  shows "\<exists>v. getNextRowFromFloatTable (st\<lparr>tuples := ts, tupleCount := length ts, locationString := None, currentTupleIndex := i, rs_values := w\<rparr>)
      = Inr (True, st\<lparr>tuples := ts, tupleCount := length ts, locationString := None, currentTupleIndex := i + 1, rs_values := v\<rparr>)
    \<and> form_row (st\<lparr>tuples := ts, tupleCount := length ts, locationString := None, currentTupleIndex := i + 1, rs_values := v\<rparr>)
      = float_row (ts ! i)"
proof -
  let ?st = "st\<lparr>tuples := ts, tupleCount := length ts, locationString := None, currentTupleIndex := i, rs_values := w\<rparr>" and ?t = "ts ! i"
  have loc: "getLocationString (locationString ?st) ?t = Inr (SPI_getbinval ?t 3)" by (simp add: getLocationString_def)
  then obtain st1 where st1: "getCommonValues ?st = Inr st1" by (simp add: getCommonValues_def Let_def)
  from getCommonValues_holds(2) [OF _ st1, of ?t] loc have holds: "holds_tuple ?t (SPI_getbinval ?t 3) st1" by simp
  from getCommonValues_only_values [OF st1] obtain u where u: "st1 = ?st\<lparr>rs_values := u\<rparr>" ..
  let ?v = "u(WCI_READ_VALUE := SPI_getbinval ?t 1, WCI_READ_PLACEGEOMETRY := SPI_getbinval ?t 4)"
  have "getNextRowFromFloatTable ?st
      = Inr (True, st\<lparr>tuples := ts, tupleCount := length ts, locationString := None, currentTupleIndex := i + 1, rs_values := ?v\<rparr>)"
    using assms by (simp add: getNextRowFromFloatTable_def st1 u Let_def set_value_def)
  moreover have "map ?v return_columns = float_row ?t"
  proof -
    have "[1..<21] = 1 # 2 # 3 # 4 # [5..<21]" by code_simp
    moreover have "rs_values st1 = u" by (simp add: u)
    ultimately show ?thesis using holds unfolding holds_tuple_def float_row_def by (simp only: list.map append.simps)
  qed
  ultimately show ?thesis by (intro exI [of _ ?v]) (simp add: form_row_def)
qed

lemma fetch_float:
  assumes "returnMode st = ReturningFromFloatTable" and "i \<le> length ts"
  shows "settles (\<lambda>n. fetch n E args
      (Some (st\<lparr>tuples := ts, tupleCount := length ts, locationString := None, currentTupleIndex := i, rs_values := w\<rparr>)) b)
    (bindS (runWciReadFloatQueryGrid E args (st\<lparr>tuples := ts, tupleCount := length ts, locationString := None\<rparr>))
      (\<lambda>st1. mapS (prepend (map float_row (drop i ts))) (finish (grid_rows E st1 True (tuples st1)))) b)"
  using assms(2)
proof (induction "length ts - i" arbitrary: i w)
  case 0
  let ?out = "st\<lparr>tuples := ts, tupleCount := length ts, locationString := None\<rparr>"
  let ?st = "?out\<lparr>currentTupleIndex := i, rs_values := w\<rparr>"
  have step: "fetch (Suc n) E args (Some ?st) b = bindS (runWciReadFloatQueryGrid E args ?out)
      (\<lambda>st1. fetch (Suc n) E args (Some (st1\<lparr>rs_values := w\<rparr>))) b" for n
  proof -
    have "wciReadFloat_next E args ?st = bindS (runWciReadFloatQueryGrid E args ?st) (wciReadFloat_grid E)"
      using 0 assms(1) by (simp add: wciReadFloat_next_def getNextRowFromFloatTable_def bindS_def liftS_def fun_eq_iff)
    then have "fetch (Suc n) E args (Some ?st) b = bindS (runWciReadFloatQueryGrid E args ?out)
      (\<lambda>st1. bindS (wciReadFloat_grid E (st1\<lparr>rs_values := w\<rparr>)) (\<lambda>r. case r of
          None \<Rightarrow> retS ([], True)
        | Some (row, st) \<Rightarrow> mapS (\<lambda>(rows, finished). (row # rows, finished)) (fetch n E args (Some st)))) b"
      unfolding fetch.simps(2) wciReadFloat_def by (simp add: query_grid_values bindS_bindS bindS_mapS)
    also have "\<dots> = bindS (runWciReadFloatQueryGrid E args ?out) (\<lambda>st1. fetch (Suc n) E args (Some (st1\<lparr>rs_values := w\<rparr>))) b"
      by (rule bindS_cong, subst fetch_grid) (auto dest!: query_grid_state simp: grid_start_def)
    finally show ?thesis .
  qed
  obtain r b1 where r: "runWciReadFloatQueryGrid E args ?out b = (r, b1)" by fastforce
  have none: "mapS (prepend []) K = K" for K :: "('a, datum option list list \<times> bool) server_call"
    by (auto simp: fun_eq_iff mapS_def mapE_def prepend_def split: prod.split sum.split)
  show ?case
  proof (cases r)
    case (Inl e)
    with r show ?thesis by (intro settles_const, unfold step) (simp add: bindS_def)
  next
    case (Inr st1)
    have "grid_start (st1\<lparr>rs_values := w\<rparr>)" using query_grid_state [OF r [unfolded Inr]] by (simp add: grid_start_def)
    from fetch_grid_start [OF this, of E args b1]
    have "settles (\<lambda>n. fetch n E args (Some (st1\<lparr>rs_values := w\<rparr>)) b1) (finish (grid_rows E st1 True (tuples st1)) b1)"
      by (simp add: grid_rows_cong [of st1 "st1\<lparr>rs_values := w\<rparr>"])
    then have "settles (\<lambda>n. fetch n E args (Some ?st) b) (finish (grid_rows E st1 True (tuples st1)) b1)"
      by (rule settles_shift) (unfold step, simp add: bindS_def r Inr)
    then show ?thesis using 0 r Inr by (simp add: bindS_def none)
  qed
next
  case (Suc k)
  let ?st = "\<lambda>i w. st\<lparr>tuples := ts, tupleCount := length ts, locationString := None, currentTupleIndex := i, rs_values := w\<rparr>"
  have i: "i < length ts" "k = length ts - (i + 1)" "i + 1 \<le> length ts" using Suc.hyps(2) by simp_all
  from float_call [OF i(1), of w st] obtain v where v: "getNextRowFromFloatTable (?st i w) = Inr (True, ?st (i + 1) v)"
    "form_row (?st (i + 1) v) = float_row (ts ! i)" by blast
  have "wciReadFloat_next E args (?st i w) = retS (Some (float_row (ts ! i), ?st (i + 1) v))"
    using v assms(1) by (simp add: wciReadFloat_next_def bindS_def liftS_def retS_def fun_eq_iff)
  then have step: "fetch (Suc n) E args (Some (?st i w)) b
      = mapS (prepend [float_row (ts ! i)]) (fetch n E args (Some (?st (i + 1) v))) b" for n
    unfolding fetch.simps(2) wciReadFloat_def by (simp add: prepend_def [abs_def] case_prod_beta' bindS_def retS_def)
  have drop: "map float_row (drop i ts) = float_row (ts ! i) # map float_row (drop (i + 1) ts)"
    using i(1) by (simp flip: Cons_nth_drop_Suc)
  have spec: "bindS m (\<lambda>st1. mapS (prepend (map float_row (drop i ts))) (K st1)) b
      = mapS (prepend [float_row (ts ! i)]) (bindS m (\<lambda>st1. mapS (prepend (map float_row (drop (i + 1) ts))) (K st1))) b"
    for m :: "('a, 'a ReadStore) server_call" and K
    unfolding drop mapS_bindS mapS_mapS by (simp add: prepend_def [abs_def])
  show ?case
    unfolding spec mapS_at [of "prepend [float_row (ts ! i)]"]
    by (rule settles_step [OF Suc.hyps(1) [OF i(2,3)]]) (simp add: step mapS_at)
qed

section \<open>The cache of geometry texts\<close>

text \<open>GEOS documents the text of a geometry as a function of its coordinates.\<close>

definition text_of_coordinates :: "'g geos \<Rightarrow> bool" where
  "text_of_coordinates G \<longleftrightarrow> (\<forall>g h c. GEOSGeom_getCoordSeq G g = Inr (Some c) \<longrightarrow>
     GEOSGeom_getCoordSeq G h = Inr (Some c) \<longrightarrow> GEOSGeomToWKT G g = GEOSGeomToWKT G h)"

definition texts_ok :: "'g geos \<Rightarrow> 'g session \<Rightarrow> bool" where
  "texts_ok G s \<longleftrightarrow> (\<forall>(key, t) \<in> set (geomToWkt s). one_point key
     \<and> (\<exists>g. GEOSGeom_getCoordSeq G g = Inr (Some key) \<and> GEOSGeomToWKT G g = t))"

lemma point_wkt_ok:
  assumes "text_of_coordinates G" and G: "G = geos_of (env_reading E)" and s: "texts_ok G (grid_session b)"
    and d: "GEOSGeom_getCoordSeq G (gp_location d) = Inr (Some [p])" and p: "point_valid p"
  shows "fst (point_wkt E d b) = Inr (GEOSGeomToWKT G (gp_location d)) \<and> texts_ok G (grid_session (snd (point_wkt E d b)))"
proof -
  have key: "one_point [p]" using p by (simp add: one_point_def)
  have co: "coordinates G (gp_location d) = Inr [p]" using d by (simp add: coordinates_def)
  let ?m = "geomToWkt (grid_session b)"
  show ?thesis
  proof (cases "map_find geom_less [p] ?m")
    case (Some t)
    have "geom_order.keys_ok ?m" using s by (auto simp: texts_ok_def geom_order.keys_ok_def)
    from geom_order.find_SomeD [OF Some this key] obtain g where "GEOSGeom_getCoordSeq G g = Inr (Some [p])" "GEOSGeomToWKT G g = t"
      using s unfolding texts_ok_def by fastforce
    with assms(1) d have "GEOSGeomToWKT G (gp_location d) = t" unfolding text_of_coordinates_def by metis
    with Some s show ?thesis
      by (simp add: point_wkt_def G [symmetric] Let_def with_grids_def getWktFromCache_def co zoomS_def bindS_def liftS_def getS_def retS_def)
  next
    case None
    let ?t = "GEOSGeomToWKT G (gp_location d)"
    have "\<forall>(k, t) \<in> set (map_assign geom_less [p] ?t ?m). one_point k
        \<and> (\<exists>g. GEOSGeom_getCoordSeq G g = Inr (Some k) \<and> GEOSGeomToWKT G g = t)"
    proof (rule assign_all)
      fix k
      assume k: "\<not> geom_less [p] k" "\<not> geom_less k [p]" "k \<in> fst ` set ?m"
      then have "one_point k" using s by (auto simp: texts_ok_def)
      with geom_order.lt_same [OF key this] k have "k = [p]" by simp
      then show "one_point k \<and> (\<exists>g. GEOSGeom_getCoordSeq G g = Inr (Some k) \<and> GEOSGeomToWKT G g = ?t)"
        using key d by auto
    qed (use s key d in \<open>auto simp: texts_ok_def\<close>)
    then have "texts_ok G ((grid_session b)\<lparr>geomToWkt := map_assign geom_less [p] ?t ?m\<rparr>)"
      by (simp add: texts_ok_def)
    with None show ?thesis
      by (simp add: point_wkt_def G [symmetric] Let_def with_grids_def getWktFromCache_def setWktCache_def co zoomS_def bindS_def
          liftS_def getS_def retS_def modifyS_def)
  qed
qed

section \<open>Properties\<close>

text \<open>C27: a read call ends, and calling the C function until it is done refines a plain list: the tuples of
  the float table as they are, then, for every tuple of the grid table in its order, one row per point
  that the tuple's field gives for the place asked for, in the order of the points; the state of the
  caches and every error are the same too, with the rows of the float table returned before the grid
  table is queried at all.\<close>

theorem read_call_rows:
  "settles (\<lambda>n. fetch n E args None b) (finish (read_rows E args) b)"
proof -
  obtain r b1 where first: "wciReadFloat_first E args b = (r, b1)" by fastforce
  have step: "fetch (Suc n) E args None b = bindS (wciReadFloat_first E args) (\<lambda>st. fetch (Suc n) E args (Some st)) b" for n
    by (simp add: fetch.simps(2) wciReadFloat_def bindS_bindS)
  have spec: "finish (read_rows E args) = bindS (wciReadFloat_first E args) (\<lambda>st.
      bindS (runWciReadFloatQueryGrid E args st) (\<lambda>st1.
      mapS (prepend (map float_row (tuples st))) (finish (grid_rows E st1 True (tuples st1)))))"
    by (simp add: read_rows_def finish_bindS finish_append)
  show ?thesis
  proof (cases r)
    case (Inl e)
    then show ?thesis unfolding spec by (intro settles_const, unfold step) (simp add: bindS_def first)
  next
    case (Inr st)
    with first obtain rows where st: "st = ReadStoreFloatReturnInit\<lparr>tuples := rows, tupleCount := length rows\<rparr>"
      by (auto simp: wciReadFloat_first_def runWciReadFloatQueryFloat_def bindS_eq_Inr mapS_eq_Inr retS_def failS_def split: if_splits)
    have eq: "st = ReadStoreFloatReturnInit\<lparr>tuples := rows, tupleCount := length rows, locationString := None,
        currentTupleIndex := 0, rs_values := rs_values st\<rparr>"
      by (simp add: st ReadStoreFloatReturnInit_def)
    have out: "ReadStoreFloatReturnInit\<lparr>tuples := rows, tupleCount := length rows, locationString := None\<rparr> = st"
      by (simp add: st ReadStoreFloatReturnInit_def)
    have "returnMode (ReadStoreFloatReturnInit :: 'a ReadStore) = ReturningFromFloatTable"
      by (simp add: ReadStoreFloatReturnInit_def)
    from fetch_float [OF this le0, of E args "rs_values st" rows b1, folded eq, unfolded out drop_0]
    have "settles (\<lambda>n. fetch n E args (Some st) b1) (bindS (runWciReadFloatQueryGrid E args st) (\<lambda>st1.
        mapS (prepend (map float_row rows)) (finish (grid_rows E st1 True (tuples st1)))) b1)" .
    then have "settles (\<lambda>n. fetch n E args None b) (bindS (runWciReadFloatQueryGrid E args st) (\<lambda>st1.
        mapS (prepend (map float_row rows)) (finish (grid_rows E st1 True (tuples st1)))) b1)"
      by (rule settles_shift) (unfold step, simp add: bindS_def first Inr)
    moreover have ts: "tuples st = rows" by (simp add: st)
    ultimately show ?thesis
      unfolding spec bindS_Inr [where m = "wciReadFloat_first E args", OF first [unfolded Inr]] ts by blast
  qed
qed

text \<open>C28: a place that is no longer known. When the first field of a read belongs to such a place the call
  ends at once, without a row and without an error, however many fields follow; when a later field does,
  the code dereferences a null iterator.\<close>

theorem unknown_place:
  assumes "returnMode st = ReturningFromGridTable" and "currentTupleIndex st < tupleCount st"
    and "tuple_points E st (tuples st ! currentTupleIndex st) b = (Inr None, b1)"
  shows "wciReadFloat E args (Some (st\<lparr>pointData := None\<rparr>)) b = (Inr None, b1)
    \<and> wciReadFloat E args (Some (st\<lparr>pointData := Some (l, length l)\<rparr>)) b
      = (Inl (Undefined ''a null iterator is dereferenced''), b1)"
proof -
  have nxt: "getNextSetOfValues E (st\<lparr>pointData := pd\<rparr>) b = (Inr (st\<lparr>pointData := None\<rparr>), b1)" for pd
    using assms(3) tuple_points_cong [of st "st\<lparr>pointData := pd\<rparr>"]
    unfolding getNextSetOfValues_eq by (simp add: bindS_def retS_def)
  have "wciReadFloat_grid E (st\<lparr>pointData := None\<rparr>) b = (Inr None, b1)"
    using nxt [of None] assms(2) by (subst grid_first_call) (simp_all add: ReadStoreHasMoreTuples_def bindS_def retS_def)
  moreover have "wciReadFloat_grid E (st\<lparr>pointData := Some (l, length l)\<rparr>) b
      = (Inl (Undefined ''a null iterator is dereferenced''), b1)"
    using nxt [of "Some (l, length l)"] assms(2)
    by (subst grid_tuple_call [where l = l and pos = "length l"]) (simp_all add: ReadStoreHasMoreTuples_def bindS_def failS_def)
  ultimately show ?thesis
    using assms(1) by (simp add: wciReadFloat_def wciReadFloat_next_def)
qed

text \<open>The cache of geometry texts is transparent: the text of a point is that of its geometry whether it
  was cached or not, and the cache stays consistent.\<close>

theorem geometry_texts:
  assumes "text_of_coordinates (geos_of (env_reading E))" and "texts_ok (geos_of (env_reading E)) (grid_session b)"
    and "GEOSGeom_getCoordSeq (geos_of (env_reading E)) (gp_location d) = Inr (Some [p])" and "point_valid p"
  shows "fst (point_wkt E d b) = Inr (GEOSGeomToWKT (geos_of (env_reading E)) (gp_location d))
    \<and> texts_ok (geos_of (env_reading E)) (grid_session (snd (point_wkt E d b)))"
  by (rule point_wkt_ok [OF assms(1) refl assms(2-4)])

definition sample_environment :: "point list environment" where
  "sample_environment = \<lparr>env_reading = \<lparr>geos_of = point_geos\<lparr>GEOSGeomToWKT := (\<lambda>g. ''POINT'')\<rparr>, proj_of = plain_proj,
       storage_spi = (\<lambda>_ _. Spi_other), os_of = sample_os\<rparr>,
     env_boost = boost_ref, wci_schema = ''wci'', place_spi = (\<lambda>_ _. Spi_select []), name_spi = (\<lambda>_ _. Spi_select []),
     tuple_spi = (\<lambda>_ _. Spi_select []), prepare = (\<lambda>_. Prepare_ok), other_code = 0, spi_connects = True,
     composite_result = True\<rparr>"

definition sample_backend :: "point list backend" where
  "sample_backend = \<lparr>grid_session = new_session sample_storage, known_places = [], known_names = [], known_plans = no_plans\<rparr>"

definition sample_store :: "point list ReadStore" where
  "sample_store = ReadStoreFloatReturnInit\<lparr>tuples := [replicate 21 (Some (IntD 7))], tupleCount := 1,
     returnMode := ReturningFromGridTable\<rparr>"

definition no_arguments :: read_arguments where
  "no_arguments = \<lparr>arg0 = None, arg1 = None, arg2 = None, arg3 = None, arg4 = None, arg5 = None, arg6 = None\<rparr>"

theorem unknown_place_witness:
  "fst (wciReadFloat sample_environment no_arguments (Some sample_store) sample_backend) = Inr None
   \<and> currentTupleIndex sample_store < tupleCount sample_store"
proof -
  have st: "returnMode sample_store = ReturningFromGridTable" "currentTupleIndex sample_store < tupleCount sample_store"
    "tuples sample_store ! currentTupleIndex sample_store = replicate 21 (Some (IntD 7))"
    "sample_store\<lparr>pointData := None\<rparr> = sample_store"
    by (simp_all add: sample_store_def ReadStoreFloatReturnInit_def)
  have "tuple_points sample_environment sample_store (replicate 21 (Some (IntD 7))) sample_backend = (Inr None, sample_backend)"
    by (simp add: tuple_points_def SPI_getbinval_def int64_datum_def getValues_def with_places_def zoomS_def bindS_def liftS_def retS_def
        getPlaceSpecification_def getPlaceSpecificationFromDatabase_def single_row_def sample_environment_def sample_backend_def)
  from unknown_place [OF st(1,2), unfolded st(3), OF this, of no_arguments "[]"] st(2,4) show ?thesis by simp
qed

theorem geometry_texts_witness:
  "fst (point_wkt sample_environment \<lparr>gp_location = [(Fin 1, Fin 2)], gp_value = NaN, gp_x = Fin 0, gp_y = Fin 0\<rparr> sample_backend)
     = Inr ''POINT''"
proof -
  let ?G = "geos_of (env_reading sample_environment)" and ?d = "\<lparr>gp_location = [(Fin 1, Fin 2)], gp_value = NaN, gp_x = Fin 0, gp_y = Fin 0\<rparr>"
  have "text_of_coordinates ?G" "texts_ok ?G (grid_session sample_backend)" "point_valid (Fin 1, Fin 2)"
      "GEOSGeom_getCoordSeq ?G (gp_location ?d) = Inr (Some [(Fin 1, Fin 2)])" "GEOSGeomToWKT ?G (gp_location ?d) = ''POINT''"
    by (simp_all add: text_of_coordinates_def texts_ok_def sample_environment_def sample_backend_def new_session_def point_valid_def
        point_geos_def)
  with geometry_texts [of sample_environment sample_backend ?d "(Fin 1, Fin 2)"] show ?thesis by simp
qed

end
