(* ===== verification/GeomWrapper.thy ===== *)
theory GeomWrapper
  imports Prelude "HOL-Library.Word"
begin

text \<open>
  The reference counted wrapper of a GEOS geometry (\<open>GEOSGeomWrapper.cpp\<close>) as a state machine: a heap of
  counted cells, the wrappers that point to them, and the geometries that were destroyed. The counter has
  32 bits, a deleted cell that is used again is undefined, and the reachable heaps are those of
  programs that construct, copy, assign and destroy wrappers.
\<close>

section \<open>The heap\<close>

record geom_cell =
  useCount :: "32 word"
  cell_geom :: "nat option"

record heap =
  cells :: "nat \<Rightarrow> geom_cell option"
  next_cell :: nat
  wrappers :: "nat \<Rightarrow> nat option"
  given :: "nat list"
  destroyed :: "nat list"

definition empty_heap :: heap where
  "empty_heap = \<lparr>cells = (\<lambda>_. None), next_cell = 0, wrappers = (\<lambda>_. None), given = [], destroyed = []\<rparr>"

definition deref :: "heap \<Rightarrow> nat \<Rightarrow> geom_cell res" where
  "deref h a = (case cells h a of None \<Rightarrow> Inl (Undefined ''use of a deleted object'') | Some c \<Rightarrow> Inr c)"

definition pointer :: "heap \<Rightarrow> nat \<Rightarrow> nat res" where
  "pointer h w = (case wrappers h w of None \<Rightarrow> Inl (Undefined ''no such wrapper'') | Some a \<Rightarrow> Inr a)"

text \<open>\<open>++useCount\<close>, and \<open>--useCount\<close> with the deletion at zero; the destructor of the cell destroys a
  geometry that is not null.\<close>

definition acquire :: "nat \<Rightarrow> heap \<Rightarrow> heap res" where
  "acquire a h = mapE (\<lambda>c. h\<lparr>cells := (cells h)(a \<mapsto> c\<lparr>useCount := useCount c + 1\<rparr>)\<rparr>) (deref h a)"

definition delete_cell :: "nat \<Rightarrow> geom_cell \<Rightarrow> heap \<Rightarrow> heap" where
  "delete_cell a c h = h\<lparr>cells := (cells h)(a := None),
     destroyed := (case cell_geom c of None \<Rightarrow> destroyed h | Some g \<Rightarrow> g # destroyed h)\<rparr>"

definition release :: "nat \<Rightarrow> heap \<Rightarrow> heap res" where
  "release a h = mapE (\<lambda>c. if useCount c - 1 = 0 then delete_cell a c h
     else h\<lparr>cells := (cells h)(a \<mapsto> c\<lparr>useCount := useCount c - 1\<rparr>)\<rparr>) (deref h a)"

section \<open>The operations\<close>

text \<open>The two constructors that take a geometry (or none): the wrapper owns it.\<close>

definition new_wrapper :: "nat \<Rightarrow> nat option \<Rightarrow> heap \<Rightarrow> heap res" where
  "new_wrapper w g h = Inr (h\<lparr>cells := (cells h)(next_cell h \<mapsto> \<lparr>useCount = 1, cell_geom = g\<rparr>),
     next_cell := next_cell h + 1, wrappers := (wrappers h)(w \<mapsto> next_cell h),
     given := (case g of None \<Rightarrow> given h | Some x \<Rightarrow> x # given h)\<rparr>)"

definition copy_wrapper :: "nat \<Rightarrow> nat \<Rightarrow> heap \<Rightarrow> heap res" where
  "copy_wrapper w v h = bindE (pointer h v) (\<lambda>a. mapE (\<lambda>h1. h1\<lparr>wrappers := (wrappers h1)(w \<mapsto> a)\<rparr>) (acquire a h))"

text \<open>The assignment releases its own cell first, and reads the pointer of the other wrapper
  afterwards.\<close>

definition assign_wrapper :: "nat \<Rightarrow> nat \<Rightarrow> heap \<Rightarrow> heap res" where
  "assign_wrapper w v h = bindE (pointer h w) (\<lambda>a. bindE (release a h) (\<lambda>h1.
     bindE (pointer h1 v) (\<lambda>b. acquire b (h1\<lparr>wrappers := (wrappers h1)(w \<mapsto> b)\<rparr>))))"

definition destroy_wrapper :: "nat \<Rightarrow> heap \<Rightarrow> heap res" where
  "destroy_wrapper w h = bindE (pointer h w) (\<lambda>a. mapE (\<lambda>h1. h1\<lparr>wrappers := (wrappers h1)(w := None)\<rparr>) (release a h))"

definition wrapper_get :: "nat \<Rightarrow> heap \<Rightarrow> nat option res" where
  "wrapper_get w h = bindE (pointer h w) (\<lambda>a. mapE cell_geom (deref h a))"

text \<open>\<open>operator==\<close>: two wrappers without geometries are not equal, since the two null pointers are
  combined with \<open>and\<close>.\<close>

definition wrapper_equal :: "(nat \<Rightarrow> nat \<Rightarrow> bool) \<Rightarrow> nat option \<Rightarrow> nat option \<Rightarrow> bool" where
  "wrapper_equal GEOSEquals a b = (case (a, b) of
     (Some x, Some y) \<Rightarrow> GEOSEquals x y
   | _ \<Rightarrow> a \<noteq> None \<and> b \<noteq> None)"

datatype wrapper_op = New_wrapper nat "nat option" | Copy_wrapper nat nat | Assign_wrapper nat nat | Destroy_wrapper nat

fun apply_op :: "wrapper_op \<Rightarrow> heap \<Rightarrow> heap res" where
  "apply_op (New_wrapper w g) h = new_wrapper w g h"
| "apply_op (Copy_wrapper w v) h = copy_wrapper w v h"
| "apply_op (Assign_wrapper w v) h = assign_wrapper w v h"
| "apply_op (Destroy_wrapper w) h = destroy_wrapper w h"

section \<open>Programs\<close>

text \<open>What a C++ program can do: a wrapper is constructed once, an existing one is used, every geometry
  is given to one wrapper, there are less than \<open>2 ^ 32\<close> wrappers, and no wrapper is assigned to itself.\<close>

definition room :: "heap \<Rightarrow> bool" where
  "room h \<longleftrightarrow> card (dom (wrappers h)) < 2 ^ 32 - 1"

fun op_ok :: "heap \<Rightarrow> wrapper_op \<Rightarrow> bool" where
  "op_ok h (New_wrapper w g) \<longleftrightarrow> wrappers h w = None \<and> room h \<and> (case g of None \<Rightarrow> True | Some x \<Rightarrow> x \<notin> set (given h))"
| "op_ok h (Copy_wrapper w v) \<longleftrightarrow> wrappers h w = None \<and> wrappers h v \<noteq> None \<and> room h"
| "op_ok h (Assign_wrapper w v) \<longleftrightarrow> wrappers h w \<noteq> None \<and> wrappers h v \<noteq> None \<and> w \<noteq> v"
| "op_ok h (Destroy_wrapper w) \<longleftrightarrow> wrappers h w \<noteq> None"

inductive reachable :: "heap \<Rightarrow> bool" where
  start: "reachable empty_heap"
| step: "reachable h \<Longrightarrow> op_ok h opr \<Longrightarrow> apply_op opr h = Inr h' \<Longrightarrow> reachable h'"

section \<open>The invariant\<close>

definition holders :: "heap \<Rightarrow> nat \<Rightarrow> nat set" where
  "holders h a = {w. wrappers h w = Some a}"

text \<open>The geometries in the cells, and how they, the destroyed and the given ones belong together.\<close>

definition geom_at :: "heap \<Rightarrow> nat \<Rightarrow> nat option" where
  "geom_at h a = (case cells h a of None \<Rightarrow> None | Some c \<Rightarrow> cell_geom c)"

definition owned :: "(nat \<Rightarrow> nat option) \<Rightarrow> nat list \<Rightarrow> nat list \<Rightarrow> bool" where
  "owned m d gs \<longleftrightarrow> inj_on m (dom m) \<and> distinct d \<and> ran m \<inter> set d = {} \<and> distinct gs \<and> set gs = ran m \<union> set d"

text \<open>The counters are those of a cell that one wrapper may be about to leave or to join: \<open>extra\<close> is the
  number of pointers that are counted although no wrapper holds them.\<close>

fun counted :: "geom_cell option \<Rightarrow> nat set \<Rightarrow> nat \<Rightarrow> bool" where
  "counted None H e \<longleftrightarrow> H = {} \<and> e = 0"
| "counted (Some c) H e \<longleftrightarrow> unat (useCount c) = card H + e \<and> useCount c \<noteq> 0"

definition counts :: "heap \<Rightarrow> (nat \<Rightarrow> nat) \<Rightarrow> bool" where
  "counts h extra \<longleftrightarrow> (\<forall>a. counted (cells h a) (holders h a) (extra a))"

definition geoms_ok :: "heap \<Rightarrow> bool" where
  "geoms_ok h \<longleftrightarrow> owned (geom_at h) (destroyed h) (given h)"

definition heap_ok :: "heap \<Rightarrow> bool" where
  "heap_ok h \<longleftrightarrow> finite (dom (wrappers h)) \<and> card (dom (wrappers h)) < 2 ^ 32
     \<and> (\<forall>a \<ge> next_cell h. cells h a = None) \<and> counts h (\<lambda>_. 0) \<and> geoms_ok h"

section \<open>Pointers that join and leave\<close>

lemma holders_update:
  "holders (h\<lparr>wrappers := (wrappers h)(w := None)\<rparr>) a = holders h a - {w}"
  "wrappers h w = None \<Longrightarrow> holders (h\<lparr>wrappers := (wrappers h)(w \<mapsto> b)\<rparr>) a = (if a = b then insert w (holders h a) else holders h a)"
  by (auto simp: holders_def)

lemma finite_holders: "finite (dom (wrappers h)) \<Longrightarrow> finite (holders h a)"
  and card_holders: "finite (dom (wrappers h)) \<Longrightarrow> card (holders h a) \<le> card (dom (wrappers h))"
proof -
  have sub: "holders h a \<subseteq> dom (wrappers h)" by (auto simp: holders_def)
  show "finite (dom (wrappers h)) \<Longrightarrow> finite (holders h a)" using sub by (rule finite_subset)
  show "finite (dom (wrappers h)) \<Longrightarrow> card (holders h a) \<le> card (dom (wrappers h))" using sub by (rule card_mono [rotated])
qed

lemma countsD: "counts h extra \<Longrightarrow> counted (cells h a) (holders h a) (extra a)"
  by (simp add: counts_def)

lemma counts_cell: "counts h extra \<Longrightarrow> w \<in> holders h a \<or> extra a \<noteq> 0 \<Longrightarrow> \<exists>c. cells h a = Some c"
  by (cases "cells h a") (auto dest: countsD [of _ _ a])

lemma counts_leave:
  assumes "counts h extra" and "wrappers h w = Some a" and "finite (dom (wrappers h))"
  shows "counts (h\<lparr>wrappers := (wrappers h)(w := None)\<rparr>) (extra(a := extra a + 1))"
  unfolding counts_def
proof
  fix b
  have w: "w \<in> holders h b \<longleftrightarrow> b = a" for b using assms(2) by (auto simp: holders_def)
  have "card (holders h a) = card (holders h a - {w}) + 1"
    using w card_Suc_Diff1 [of "holders h a" w] finite_holders [OF assms(3)] by simp
  then show "counted (cells (h\<lparr>wrappers := (wrappers h)(w := None)\<rparr>) b)
      (holders (h\<lparr>wrappers := (wrappers h)(w := None)\<rparr>) b) ((extra(a := extra a + 1)) b)"
    using countsD [OF assms(1), of b] w unfolding holders_update by (cases "cells h b") auto
qed

lemma counts_join:
  assumes "counts h extra" and "wrappers h w = None" and "extra a \<noteq> 0" and "finite (dom (wrappers h))"
  shows "counts (h\<lparr>wrappers := (wrappers h)(w \<mapsto> a)\<rparr>) (extra(a := extra a - 1))"
  unfolding counts_def
proof
  fix b
  have "w \<notin> holders h b" using assms(2) by (simp add: holders_def)
  then have c: "card (insert w (holders h b)) = card (holders h b) + 1" using finite_holders [OF assms(4)] by simp
  show "counted (cells (h\<lparr>wrappers := (wrappers h)(w \<mapsto> a)\<rparr>) b)
      (holders (h\<lparr>wrappers := (wrappers h)(w \<mapsto> a)\<rparr>) b) ((extra(a := extra a - 1)) b)"
    using countsD [OF assms(1), of b] assms(3) c unfolding holders_update(2) [OF assms(2)] by (cases "cells h b") auto
qed

lemma holders_cells [simp]: "holders (h\<lparr>cells := x\<rparr>) = holders h" "holders (delete_cell a c h) = holders h"
  by (simp_all add: holders_def delete_cell_def fun_eq_iff)

lemma acquire_counts:
  assumes "counts h extra" and "cells h a = Some c" and "card (holders h a) + extra a < 2 ^ 32 - 1"
  shows "counts (h\<lparr>cells := (cells h)(a \<mapsto> c\<lparr>useCount := useCount c + 1\<rparr>)\<rparr>) (extra(a := extra a + 1))"
proof -
  have u: "unat (useCount c) = card (holders h a) + extra a" using countsD [OF assms(1), of a] assms(2) by simp
  then have "unat (useCount c + 1) = unat (useCount c) + 1"
    using assms(3) by (simp add: unat_word_ariths)
  moreover from this have "useCount c + 1 \<noteq> 0" by (metis add_eq_0_iff_both_eq_0 unat_0 zero_neq_one)
  ultimately show ?thesis using assms(1) u unfolding counts_def by simp
qed

lemma release_counts:
  assumes "counts h extra" and "cells h a = Some c" and "extra a \<noteq> 0" and fin: "finite (dom (wrappers h))"
  shows "counts (if useCount c - 1 = 0 then delete_cell a c h
     else h\<lparr>cells := (cells h)(a \<mapsto> c\<lparr>useCount := useCount c - 1\<rparr>)\<rparr>) (extra(a := extra a - 1))"
proof -
  have u: "unat (useCount c) = card (holders h a) + extra a" "useCount c \<noteq> 0"
    using countsD [OF assms(1), of a] assms(2) by simp_all
  have minus: "unat (useCount c - 1) = unat (useCount c) - 1"
    using u(2) by (simp add: unat_minus_one)
  show ?thesis
  proof (cases "useCount c - 1 = 0")
    case True
    then have "unat (useCount c) - 1 = 0" using minus by simp
    then have "card (holders h a) = 0" "extra a = 1" using u assms(3) by linarith+
    then have "holders h a = {}" "extra a = 1" using finite_holders [OF fin] by simp_all
    then show ?thesis using True assms(1) unfolding counts_def by (simp add: delete_cell_def holders_def)
  next
    case False
    then have "unat (useCount c - 1) = card (holders h a) + (extra a - 1)" using u assms(3) minus by linarith
    then show ?thesis using False assms(1) unfolding counts_def by simp
  qed
qed

section \<open>Geometries that are created and destroyed\<close>

lemma owned_inj:
  assumes "owned m d gs" and b: "m b = Some x" and c: "m c = Some x"
  shows "b = c"
proof (rule inj_onD [of m "dom m"])
  show "inj_on m (dom m)" using assms(1) by (simp only: owned_def)
  show "m b = m c" using b c by (simp only:)
  show "b \<in> dom m" using b by (rule domI)
  show "c \<in> dom m" using c by (rule domI)
qed

lemma inj_on_domI:
  assumes "\<And>b c x. m b = Some x \<Longrightarrow> m c = Some x \<Longrightarrow> b = c"
  shows "inj_on m (dom m)"
proof (rule inj_onI)
  fix b c
  assume "b \<in> dom m" and eq: "m b = m c"
  then obtain x where x: "m b = Some x" by (auto simp: dom_def)
  have "m c = Some x" using eq x by simp
  with x show "b = c" by (rule assms)
qed

lemma owned_delete:
  assumes own: "owned m d gs" and a: "m a = Some g"
  shows "owned (m(a := None)) (g # d) gs"
proof -
  from own have d: "distinct d" "ran m \<inter> set d = {}" "distinct gs" "set gs = ran m \<union> set d"
    by (simp_all add: owned_def)
  have only: "b = a" if "m b = Some g" for b using owned_inj [OF own that a] .
  have "ran (m(a := None)) = ran m - {g}"
  proof (intro set_eqI iffI)
    fix x
    assume "x \<in> ran (m(a := None))"
    then obtain b where b: "b \<noteq> a" "m b = Some x" by (auto simp: ran_def split: if_splits)
    then have "x \<noteq> g" using only [of b] by blast
    with b(2) show "x \<in> ran m - {g}" by (blast intro: ranI)
  next
    fix x
    assume "x \<in> ran m - {g}"
    then obtain b where b: "m b = Some x" "x \<noteq> g" by (auto simp: ran_def)
    with a have "(m(a := None)) b = Some x" by auto
    then show "x \<in> ran (m(a := None))" by (rule ranI)
  qed
  moreover have g: "g \<in> ran m" using a by (rule ranI)
  moreover have "inj_on (m(a := None)) (dom (m(a := None)))"
  proof (rule inj_on_domI)
    fix b c x
    assume "(m(a := None)) b = Some x" "(m(a := None)) c = Some x"
    then have "m b = Some x" "m c = Some x" by (simp_all split: if_splits)
    then show "b = c" by (rule owned_inj [OF own])
  qed
  moreover have "g \<notin> set d" using g d(2) by blast
  moreover have "set gs = (ran m - {g}) \<union> set (g # d)" "(ran m - {g}) \<inter> set (g # d) = {}"
    using d(2,4) g by auto
  ultimately show ?thesis using d(1,3) unfolding owned_def by simp
qed

lemma owned_new:
  assumes own: "owned m d gs" and g: "g \<notin> set gs" and a: "m a = None"
  shows "owned (m(a \<mapsto> g)) d (g # gs)"
proof -
  from own have d: "distinct d" "ran m \<inter> set d = {}" "distinct gs" "set gs = ran m \<union> set d"
    by (simp_all add: owned_def)
  have new: "g \<notin> ran m" "g \<notin> set d" using g d(4) by simp_all
  then have fresh: "m b \<noteq> Some g" for b by (auto simp: ran_def)
  have "inj_on (m(a \<mapsto> g)) (dom (m(a \<mapsto> g)))"
  proof (rule inj_on_domI)
    fix b c x
    assume bc: "(m(a \<mapsto> g)) b = Some x" "(m(a \<mapsto> g)) c = Some x"
    show "b = c"
    proof (cases "b = a \<or> c = a")
      case True
      with bc fresh show ?thesis by (auto split: if_splits)
    next
      case False
      with bc have "m b = Some x" "m c = Some x" by simp_all
      then show ?thesis by (rule owned_inj [OF own])
    qed
  qed
  moreover have "ran (m(a \<mapsto> g)) = insert g (ran m)" using a by simp
  moreover have "insert g (ran m) \<inter> set d = {}" using d(2) new(2) by blast
  ultimately show ?thesis using d g unfolding owned_def by simp
qed

lemma geoms_same:
  assumes "geoms_ok h" and "cells h a = Some c"
  shows "geoms_ok (h\<lparr>cells := (cells h)(a \<mapsto> c\<lparr>useCount := n\<rparr>)\<rparr>)"
proof -
  have "geom_at (h\<lparr>cells := (cells h)(a \<mapsto> c\<lparr>useCount := n\<rparr>)\<rparr>) = geom_at h"
    using assms(2) by (simp add: geom_at_def fun_eq_iff)
  then show ?thesis using assms(1) by (simp add: geoms_ok_def)
qed

lemma geoms_delete:
  assumes "geoms_ok h" and "cells h a = Some c"
  shows "geoms_ok (delete_cell a c h)"
proof -
  have at: "geom_at (delete_cell a c h) = (geom_at h)(a := None)" by (simp add: geom_at_def delete_cell_def fun_eq_iff)
  have c: "geom_at h a = cell_geom c" using assms(2) by (simp add: geom_at_def)
  show ?thesis
  proof (cases "cell_geom c")
    case None
    then have "(geom_at h)(a := None) = geom_at h" using c by (simp add: fun_upd_idem)
    then show ?thesis using assms(1) at None by (simp add: geoms_ok_def delete_cell_def)
  next
    case (Some g)
    with owned_delete [of "geom_at h" "destroyed h" "given h" a g] assms(1) c at show ?thesis
      by (simp add: geoms_ok_def delete_cell_def)
  qed
qed

lemma geoms_new:
  assumes "geoms_ok h" and "\<And>x. g = Some x \<Longrightarrow> x \<notin> set (given h)" and "cells h a = None"
  shows "geoms_ok (h\<lparr>cells := (cells h)(a \<mapsto> \<lparr>useCount = n, cell_geom = g\<rparr>), next_cell := k, wrappers := W,
     given := (case g of None \<Rightarrow> given h | Some x \<Rightarrow> x # given h)\<rparr>)"
proof -
  have at: "geom_at (h\<lparr>cells := (cells h)(a \<mapsto> \<lparr>useCount = n, cell_geom = g\<rparr>), next_cell := k, wrappers := W,
      given := (case g of None \<Rightarrow> given h | Some x \<Rightarrow> x # given h)\<rparr>) = (geom_at h)(a := g)"
    by (simp add: geom_at_def fun_eq_iff)
  have none: "geom_at h a = None" using assms(3) by (simp add: geom_at_def)
  show ?thesis
  proof (cases g)
    case None
    with none have "(geom_at h)(a := g) = geom_at h" by (simp add: fun_upd_idem)
    with at None assms(1) show ?thesis by (simp add: geoms_ok_def)
  next
    case (Some x)
    with owned_new [of "geom_at h" "destroyed h" "given h" x a] assms(1,2) none at show ?thesis by (simp add: geoms_ok_def)
  qed
qed

lemma geoms_wrappers [simp]: "geoms_ok (h\<lparr>wrappers := W\<rparr>) = geoms_ok h"
  by (simp add: geoms_ok_def geom_at_def [abs_def])

section \<open>Every operation keeps the invariant\<close>

definition cells_below :: "heap \<Rightarrow> bool" where
  "cells_below h \<longleftrightarrow> (\<forall>a \<ge> next_cell h. cells h a = None)"

lemma release_step:
  assumes "counts h extra" and "extra a \<noteq> 0" and "finite (dom (wrappers h))" and "geoms_ok h" and "cells_below h"
  shows "\<exists>h'. release a h = Inr h' \<and> counts h' (extra(a := extra a - 1)) \<and> wrappers h' = wrappers h \<and> geoms_ok h' \<and> cells_below h'
    \<and> (\<forall>W. release a (h\<lparr>wrappers := W\<rparr>) = Inr (h'\<lparr>wrappers := W\<rparr>))"
proof -
  from counts_cell [OF assms(1)] assms(2) obtain c where c: "cells h a = Some c" by blast
  define h' where "h' = (if useCount c - 1 = 0 then delete_cell a c h else h\<lparr>cells := (cells h)(a \<mapsto> c\<lparr>useCount := useCount c - 1\<rparr>)\<rparr>)"
  have "release a h = Inr h'" using c by (simp add: release_def deref_def h'_def)
  moreover have "counts h' (extra(a := extra a - 1))" unfolding h'_def by (rule release_counts [OF assms(1) c assms(2,3)])
  moreover have "wrappers h' = wrappers h" by (simp add: h'_def delete_cell_def)
  moreover have "geoms_ok h'" using geoms_same [OF assms(4) c] geoms_delete [OF assms(4) c] by (simp add: h'_def)
  moreover have "cells_below h'"
    using assms(5) c by (auto simp: cells_below_def h'_def delete_cell_def)
  moreover have "release a (h\<lparr>wrappers := W\<rparr>) = Inr (h'\<lparr>wrappers := W\<rparr>)" for W
    using c by (simp add: release_def deref_def h'_def) (simp add: delete_cell_def split: option.split)
  ultimately show ?thesis by blast
qed

lemma acquire_step:
  assumes "counts h extra" and "cells h a = Some c" and "card (holders h a) + extra a < 2 ^ 32 - 1" and "geoms_ok h" and "cells_below h"
  shows "\<exists>h'. acquire a h = Inr h' \<and> counts h' (extra(a := extra a + 1)) \<and> wrappers h' = wrappers h \<and> geoms_ok h' \<and> cells_below h'
    \<and> (\<forall>W. acquire a (h\<lparr>wrappers := W\<rparr>) = Inr (h'\<lparr>wrappers := W\<rparr>))"
proof -
  define h' where "h' = h\<lparr>cells := (cells h)(a \<mapsto> c\<lparr>useCount := useCount c + 1\<rparr>)\<rparr>"
  have "acquire a h = Inr h'" using assms(2) by (simp add: acquire_def deref_def h'_def)
  moreover have "counts h' (extra(a := extra a + 1))" unfolding h'_def by (rule acquire_counts [OF assms(1-3)])
  moreover have "wrappers h' = wrappers h" "geoms_ok h'" using geoms_same [OF assms(4,2)] by (simp_all add: h'_def)
  moreover have "cells_below h'" using assms(2,5) by (auto simp: cells_below_def h'_def)
  moreover have "acquire a (h\<lparr>wrappers := W\<rparr>) = Inr (h'\<lparr>wrappers := W\<rparr>)" for W
    using assms(2) by (simp add: acquire_def deref_def h'_def)
  ultimately show ?thesis by blast
qed

lemma cells_below_wrappers [simp]: "cells_below (h\<lparr>wrappers := W\<rparr>) = cells_below h"
  by (simp add: cells_below_def)

lemma heap_okI:
  assumes "finite (dom (wrappers h))" "card (dom (wrappers h)) < 2 ^ 32" "cells_below h" "counts h (\<lambda>_. 0)" "geoms_ok h"
  shows "heap_ok h"
  using assms by (simp add: heap_ok_def cells_below_def)

lemma heap_okD:
  assumes "heap_ok h"
  shows "finite (dom (wrappers h))" "card (dom (wrappers h)) < 2 ^ 32" "cells_below h" "counts h (\<lambda>_. 0)" "geoms_ok h"
  using assms by (simp_all add: heap_ok_def cells_below_def)

text \<open>Leaving: the wrapper's pointer is counted but no longer held.\<close>

lemma leave_step:
  assumes "heap_ok h" and "wrappers h w = Some a"
  shows "\<exists>h1. release a h = Inr h1 \<and> wrappers h1 = wrappers h \<and> heap_ok (h1\<lparr>wrappers := (wrappers h)(w := None)\<rparr>)
    \<and> card (dom ((wrappers h)(w := None))) < 2 ^ 32 - 1"
proof -
  note ok = heap_okD [OF assms(1)]
  let ?h0 = "h\<lparr>wrappers := (wrappers h)(w := None)\<rparr>"
  have fin: "finite (dom (wrappers ?h0))" using ok(1) by simp
  from release_step [OF counts_leave [OF ok(4) assms(2) ok(1)] _ fin, of a] ok(3,5) obtain h'
    where h': "counts h' ((\<lambda>_. 0)(a := 0))" "wrappers h' = wrappers ?h0" "geoms_ok h'" "cells_below h'"
      "\<forall>W. release a (?h0\<lparr>wrappers := W\<rparr>) = Inr (h'\<lparr>wrappers := W\<rparr>)" by auto
  have "card (dom (wrappers h) - {w}) < card (dom (wrappers h))"
    using assms(2) ok(1) by (intro card_Diff1_less) auto
  then have card: "card (dom ((wrappers h)(w := None))) < 2 ^ 32 - 1" using ok(2) by simp
  from h'(5) have "release a h = Inr (h'\<lparr>wrappers := wrappers h\<rparr>)" by (drule_tac spec [of _ "wrappers h"]) simp
  moreover have "heap_ok (h'\<lparr>wrappers := (wrappers h)(w := None)\<rparr>)"
  proof (rule heap_okI)
    have "h'\<lparr>wrappers := (wrappers h)(w := None)\<rparr> = h'" using h'(2) by simp
    then show "counts (h'\<lparr>wrappers := (wrappers h)(w := None)\<rparr>) (\<lambda>_. 0)" using h'(1) by (simp add: fun_upd_idem)
  qed (use ok(1) card h'(3,4) in simp_all)
  ultimately show ?thesis using card by (intro exI [of _ "h'\<lparr>wrappers := wrappers h\<rparr>"]) simp
qed

lemma join_step:
  assumes "heap_ok h" and "wrappers h w = None" and "wrappers h v = Some b" and "card (dom (wrappers h)) < 2 ^ 32 - 1"
  shows "\<exists>h1. acquire b h = Inr h1 \<and> wrappers h1 = wrappers h \<and> heap_ok (h1\<lparr>wrappers := (wrappers h)(w \<mapsto> b)\<rparr>)
    \<and> acquire b (h\<lparr>wrappers := (wrappers h)(w \<mapsto> b)\<rparr>) = Inr (h1\<lparr>wrappers := (wrappers h)(w \<mapsto> b)\<rparr>)"
proof -
  note ok = heap_okD [OF assms(1)]
  have "v \<in> holders h b" using assms(3) by (simp add: holders_def)
  with counts_cell [OF ok(4)] obtain c where c: "cells h b = Some c" by blast
  have "card (holders h b) + 0 < 2 ^ 32 - 1" using card_holders [OF ok(1), of b] assms(4) by linarith
  from acquire_step [OF ok(4) c this ok(5,3)] obtain h1
    where h1: "acquire b h = Inr h1" "counts h1 ((\<lambda>_. 0)(b := 1))" "wrappers h1 = wrappers h" "geoms_ok h1" "cells_below h1"
      "\<forall>W. acquire b (h\<lparr>wrappers := W\<rparr>) = Inr (h1\<lparr>wrappers := W\<rparr>)" by auto
  have "counts (h1\<lparr>wrappers := (wrappers h1)(w \<mapsto> b)\<rparr>) (((\<lambda>_. 0)(b := 1))(b := 0))"
    using counts_join [OF h1(2), of w b] h1(3) assms(2) ok(1) by simp
  moreover have "((\<lambda>_. 0)(b := 1))(b := 0) = (\<lambda>_. 0 :: nat)" by auto
  ultimately have "counts (h1\<lparr>wrappers := (wrappers h)(w \<mapsto> b)\<rparr>) (\<lambda>_. 0)" using h1(3) by simp
  moreover have "card (insert w (dom (wrappers h))) < 2 ^ 32" using assms(4) card_insert_le_m1 [of "2 ^ 32 - 1" "dom (wrappers h)" w]
      ok(1) by (simp add: card_insert_if)
  ultimately have "heap_ok (h1\<lparr>wrappers := (wrappers h)(w \<mapsto> b)\<rparr>)"
    by (intro heap_okI) (use ok(1) h1(4,5) in simp_all)
  with h1(1,3,6) show ?thesis by blast
qed

lemma heap_ok_empty: "heap_ok empty_heap"
  by (rule heap_okI)
    (simp_all add: empty_heap_def cells_below_def counts_def holders_def geoms_ok_def owned_def geom_at_def [abs_def])

lemma new_step:
  assumes "heap_ok h" and "op_ok h (New_wrapper w g)"
  shows "\<exists>h'. new_wrapper w g h = Inr h' \<and> heap_ok h'"
proof -
  note ok = heap_okD [OF assms(1)]
  have w: "wrappers h w = None" "room h" and g: "g = Some x \<Longrightarrow> x \<notin> set (given h)" for x
    using assms(2) by (auto split: option.splits)
  define h' where "h' = h\<lparr>cells := (cells h)(next_cell h \<mapsto> \<lparr>useCount = 1, cell_geom = g\<rparr>),
     next_cell := next_cell h + 1, wrappers := (wrappers h)(w \<mapsto> next_cell h),
     given := (case g of None \<Rightarrow> given h | Some x \<Rightarrow> x # given h)\<rparr>"
  have none: "cells h (next_cell h) = None" using ok(3) by (simp add: cells_below_def)
  then have empty: "holders h (next_cell h) = {}" using countsD [OF ok(4), of "next_cell h"] by simp
  have holders': "holders h' a = (if a = next_cell h then {w} else holders h a)" for a
    using w(1) empty by (auto simp: h'_def holders_def)
  have "counts h' (\<lambda>_. 0)"
    unfolding counts_def holders'
  proof
    fix a
    show "counted (cells h' a) (if a = next_cell h then {w} else holders h a) 0"
      using countsD [OF ok(4), of a] by (simp add: h'_def)
  qed
  moreover have "cells_below h'" using ok(3) by (simp add: cells_below_def h'_def)
  moreover have "geoms_ok h'" unfolding h'_def by (rule geoms_new [OF ok(5) g none])
  moreover have "finite (dom (wrappers h'))" "card (dom (wrappers h')) < 2 ^ 32"
    using ok(1) w by (simp_all add: h'_def room_def card_insert_if)
  ultimately show ?thesis by (intro exI [of _ h']) (simp add: new_wrapper_def h'_def heap_okI)
qed

lemma copy_step:
  assumes "heap_ok h" and "op_ok h (Copy_wrapper w v)"
  shows "\<exists>h'. copy_wrapper w v h = Inr h' \<and> heap_ok h'"
proof -
  obtain b where w: "wrappers h w = None" "wrappers h v = Some b" "card (dom (wrappers h)) < 2 ^ 32 - 1"
    using assms(2) by (auto simp: room_def)
  from join_step [OF assms(1) w] show ?thesis
    using w(2) by (auto simp: copy_wrapper_def pointer_def)
qed

lemma destroy_step:
  assumes "heap_ok h" and "op_ok h (Destroy_wrapper w)"
  shows "\<exists>h'. destroy_wrapper w h = Inr h' \<and> heap_ok h'"
proof -
  obtain a where w: "wrappers h w = Some a" using assms(2) by auto
  from leave_step [OF assms(1) w] show ?thesis
    using w by (auto simp: destroy_wrapper_def pointer_def)
qed

lemma assign_step:
  assumes "heap_ok h" and "op_ok h (Assign_wrapper w v)"
  shows "\<exists>h'. assign_wrapper w v h = Inr h' \<and> heap_ok h'"
proof -
  obtain a b where w: "wrappers h w = Some a" "wrappers h v = Some b" "w \<noteq> v" using assms(2) by auto
  from leave_step [OF assms(1) w(1)] obtain h1
    where h1: "release a h = Inr h1" "wrappers h1 = wrappers h" "heap_ok (h1\<lparr>wrappers := (wrappers h)(w := None)\<rparr>)"
      "card (dom ((wrappers h)(w := None))) < 2 ^ 32 - 1" by blast
  let ?h2 = "h1\<lparr>wrappers := (wrappers h)(w := None)\<rparr>"
  have "wrappers ?h2 w = None" "wrappers ?h2 v = Some b" "card (dom (wrappers ?h2)) < 2 ^ 32 - 1"
    using w h1(4) by simp_all
  from join_step [OF h1(3) this] obtain h3
    where "acquire b (?h2\<lparr>wrappers := (wrappers ?h2)(w \<mapsto> b)\<rparr>) = Inr (h3\<lparr>wrappers := (wrappers ?h2)(w \<mapsto> b)\<rparr>)"
      "heap_ok (h3\<lparr>wrappers := (wrappers ?h2)(w \<mapsto> b)\<rparr>)" by blast
  then have "acquire b (h1\<lparr>wrappers := (wrappers h)(w \<mapsto> b)\<rparr>) = Inr (h3\<lparr>wrappers := (wrappers h)(w \<mapsto> b)\<rparr>)"
    "heap_ok (h3\<lparr>wrappers := (wrappers h)(w \<mapsto> b)\<rparr>)" by simp_all
  with w h1(1,2) show ?thesis by (simp add: assign_wrapper_def pointer_def)
qed

lemma op_step:
  assumes "heap_ok h" and "op_ok h opr"
  shows "\<exists>h'. apply_op opr h = Inr h' \<and> heap_ok h'"
  using assms(2) new_step [OF assms(1)] copy_step [OF assms(1)] assign_step [OF assms(1)] destroy_step [OF assms(1)]
  by (cases opr) simp_all

lemma reachable_ok: "reachable h \<Longrightarrow> heap_ok h"
proof (induction rule: reachable.induct)
  case start
  show ?case by (rule heap_ok_empty)
next
  case (step h opr h')
  from op_step [OF step.IH step.hyps(2)] step.hyps(3) show ?case by auto
qed

lemma no_wrappers_no_cells:
  assumes "heap_ok h" and "wrappers h = (\<lambda>_. None)"
  shows "cells h a = None"
  using countsD [OF heap_okD(4) [OF assms(1)], of a] assms(2)
  by (cases "cells h a") (simp_all add: holders_def unat_eq_0)

section \<open>Properties\<close>

text \<open>C29: No wrapper of a reachable heap dangles. Its counter is the number of wrappers that share the cell,
  the next operation of the program succeeds (so no deleted cell is ever used), and a geometry that a
  wrapper still holds has not been destroyed.\<close>

theorem wrappers_never_dangle:
  assumes "reachable h"
  shows "(\<forall>opr. op_ok h opr \<longrightarrow> (\<exists>h'. apply_op opr h = Inr h'))
    \<and> (\<forall>w a. wrappers h w = Some a \<longrightarrow> (\<exists>c. cells h a = Some c \<and> unat (useCount c) = card {v. wrappers h v = Some a}))
    \<and> (\<forall>w g. wrapper_get w h = Inr (Some g) \<longrightarrow> g \<in> set (given h) \<and> g \<notin> set (destroyed h))"
proof (intro conjI allI impI)
  note heap = reachable_ok [OF assms]
  note ok = heap_okD [OF heap]
  show "\<exists>h'. apply_op opr h = Inr h'" if "op_ok h opr" for opr using op_step [OF heap that] by blast
  have held: "\<exists>c. cells h a = Some c \<and> unat (useCount c) = card {v. wrappers h v = Some a}" if w: "wrappers h w = Some a" for w a
  proof -
    have "w \<in> holders h a" using w by (simp add: holders_def)
    then obtain c where "cells h a = Some c" using counts_cell [OF ok(4)] by blast
    with countsD [OF ok(4), of a] show ?thesis by (simp add: holders_def)
  qed
  then show "\<exists>c. cells h a = Some c \<and> unat (useCount c) = card {v. wrappers h v = Some a}" if "wrappers h w = Some a" for w a
    using that by blast
  fix w g
  assume get: "wrapper_get w h = Inr (Some g)"
  then obtain a c where "wrappers h w = Some a" "cells h a = Some c" "cell_geom c = Some g"
    by (auto simp: wrapper_get_def pointer_def deref_def mapE_def bindE_def split: option.splits sum.splits)
  then have "geom_at h a = Some g" by (simp add: geom_at_def)
  then have g: "g \<in> ran (geom_at h)" by (rule ranI)
  have "owned (geom_at h) (destroyed h) (given h)" using ok(5) by (simp only: geoms_ok_def)
  with g show "g \<in> set (given h)" "g \<notin> set (destroyed h)" by (auto simp: owned_def)
qed

text \<open>The wrappers that are left go out of scope, in some order.\<close>

fun destroy_all :: "nat list \<Rightarrow> heap \<Rightarrow> heap res" where
  "destroy_all [] h = Inr h"
| "destroy_all (w # ws) h = bindE (destroy_wrapper w h) (destroy_all ws)"

lemma destroy_wrapper_frame:
  "destroy_wrapper w h = Inr h' \<Longrightarrow> dom (wrappers h') = dom (wrappers h) - {w} \<and> given h' = given h"
  by (auto simp: destroy_wrapper_def pointer_def release_def deref_def delete_cell_def mapE_def bindE_def
      split: option.splits sum.splits if_splits)

lemma destroy_all_ok:
  "heap_ok h \<Longrightarrow> distinct ws \<Longrightarrow> set ws = dom (wrappers h) \<Longrightarrow>
   \<exists>h'. destroy_all ws h = Inr h' \<and> heap_ok h' \<and> dom (wrappers h') = {} \<and> given h' = given h"
proof (induction ws arbitrary: h)
  case (Nil h)
  from Nil.prems(3) [symmetric] Nil.prems(1) show ?case by simp
next
  case (Cons w ws)
  have "op_ok h (Destroy_wrapper w)" using Cons.prems(3) by auto
  from destroy_step [OF Cons.prems(1) this] obtain h1 where h1: "destroy_wrapper w h = Inr h1" "heap_ok h1" by blast
  note frame = destroy_wrapper_frame [OF h1(1)]
  have "set ws = dom (wrappers h1)" using frame Cons.prems(2,3) by auto
  from Cons.IH [OF h1(2) _ this] Cons.prems(2) h1(1) frame show ?case by auto
qed

text \<open>C30: No geometry leaks and none is freed twice. From every reachable heap, when the wrappers that are left
  are destroyed, in whatever order, no cell remains and exactly the geometries that were given to wrappers have
  been destroyed, each of them once.\<close>

theorem geometries_destroyed_once:
  assumes "reachable h" and "distinct ws" and "set ws = dom (wrappers h)"
  shows "\<exists>h'. destroy_all ws h = Inr h' \<and> (\<forall>a. cells h' a = None)
    \<and> distinct (destroyed h') \<and> set (destroyed h') = set (given h)"
proof -
  from destroy_all_ok [OF reachable_ok [OF assms(1)] assms(2,3)] obtain h'
    where h': "destroy_all ws h = Inr h'" "heap_ok h'" "wrappers h' = (\<lambda>_. None)" "given h' = given h" by auto
  have cells: "cells h' a = None" for a by (rule no_wrappers_no_cells [OF h'(2,3)])
  then have none: "ran (geom_at h') = {}" by (simp add: geom_at_def [abs_def])
  have "owned (geom_at h') (destroyed h') (given h')" using heap_okD(5) [OF h'(2)] by (simp only: geoms_ok_def)
  with none have "distinct (destroyed h')" "set (destroyed h') = set (given h')" by (simp_all add: owned_def)
  with h' cells show ?thesis by auto
qed

text \<open>A program: two wrappers of two geometries, a copy of the first, and the second assigned from the copy,
  which destroys the second geometry.\<close>

definition shared_heap :: heap where
  "shared_heap = \<lparr>cells = [0 \<mapsto> \<lparr>useCount = 3, cell_geom = Some 7\<rparr>], next_cell = 2,
     wrappers = [10 \<mapsto> 0, 11 \<mapsto> 0, 12 \<mapsto> 0], given = [8, 7], destroyed = [8]\<rparr>"

lemmas wrapper_defs = new_wrapper_def copy_wrapper_def assign_wrapper_def destroy_wrapper_def pointer_def deref_def
  acquire_def release_def delete_cell_def room_def

lemma shared_heap_reachable: "reachable shared_heap"
proof -
  define h1 where "h1 = \<lparr>cells = [0 \<mapsto> \<lparr>useCount = 1, cell_geom = Some 7\<rparr>], next_cell = 1,
    wrappers = [10 \<mapsto> 0], given = [7], destroyed = []\<rparr>"
  define h2 where "h2 = \<lparr>cells = [0 \<mapsto> \<lparr>useCount = 1, cell_geom = Some 7\<rparr>, 1 \<mapsto> \<lparr>useCount = 1, cell_geom = Some 8\<rparr>], next_cell = 2,
    wrappers = [10 \<mapsto> 0, 11 \<mapsto> 1], given = [8, 7], destroyed = []\<rparr>"
  define h3 where "h3 = \<lparr>cells = [0 \<mapsto> \<lparr>useCount = 2, cell_geom = Some 7\<rparr>, 1 \<mapsto> \<lparr>useCount = 1, cell_geom = Some 8\<rparr>], next_cell = 2,
    wrappers = [10 \<mapsto> 0, 11 \<mapsto> 1, 12 \<mapsto> 0], given = [8, 7], destroyed = []\<rparr>"
  have "reachable h1"
    by (rule step [OF start, of "New_wrapper 10 (Some 7)"]) (simp_all add: h1_def empty_heap_def wrapper_defs)
  then have "reachable h2"
    by (rule step [where opr = "New_wrapper 11 (Some 8)"]) (simp_all add: h1_def h2_def wrapper_defs)
  then have "reachable h3"
    by (rule step [where opr = "Copy_wrapper 12 10"]) (simp_all add: h2_def h3_def wrapper_defs fun_upd_twist)
  then show ?thesis
    by (rule step [where opr = "Assign_wrapper 11 12"]) (simp_all add: h3_def shared_heap_def wrapper_defs fun_upd_twist)
qed

theorem wrappers_never_dangle_witness:
  "unat (3 :: 32 word) = card {v. wrappers shared_heap v = Some 0} \<and> 7 \<notin> set (destroyed shared_heap)"
proof -
  note safe = wrappers_never_dangle [OF shared_heap_reachable]
  have "wrappers shared_heap 10 = Some 0" "cells shared_heap 0 = Some \<lparr>useCount = 3, cell_geom = Some 7\<rparr>"
    by (simp_all add: shared_heap_def)
  moreover from this have "wrapper_get 10 shared_heap = Inr (Some 7)" by (simp add: wrapper_get_def pointer_def deref_def)
  ultimately show ?thesis using safe by fastforce
qed

theorem geometries_destroyed_once_witness:
  "\<exists>h'. destroy_all [12, 10, 11] shared_heap = Inr h' \<and> destroyed h' = [7, 8]"
proof -
  have "set [12, 10, 11] = dom (wrappers shared_heap)" by (auto simp: shared_heap_def)
  from geometries_destroyed_once [OF shared_heap_reachable _ this] obtain h'
    where "destroy_all [12, 10, 11] shared_heap = Inr h'" by auto
  moreover from this have "destroyed h' = [7, 8]"
    by (auto simp: shared_heap_def wrapper_defs fun_upd_twist)
  ultimately show ?thesis by blast
qed

text \<open>Assigning a wrapper that is the only owner to itself deletes the cell and then uses it.\<close>

lemma self_assignment:
  assumes "pointer h w = Inr a" and "cells h a = Some \<lparr>useCount = 1, cell_geom = g\<rparr>"
  shows "assign_wrapper w w h = Inl (Undefined ''use of a deleted object'')"
  using assms by (auto simp: wrapper_defs split: option.splits)

lemma null_wrappers_not_equal: "\<not> wrapper_equal GEOSEquals None None"
  by (simp add: wrapper_equal_def)

end
