(* ===== verification/Browse.thy ===== *)
theory Browse
  imports BuildQuery
begin

text \<open>
  The functions of \<open>wci.browse\<close> (\<open>wciBrowse.c\<close>): for each of seven views the text of the query that lists
  what the data base holds, for the arguments of a read, in the grid table (twice) and in the float table.
\<close>

section \<open>The queries\<close>

definition getWciBrowseDataProviderQuery :: "loc_action boost \<Rightarrow> string \<Rightarrow> read_arguments \<Rightarrow> string res" where
  "getWciBrowseDataProviderQuery E wci args = bindE (parseReadParameters args) (\<lambda>p. build_query E wci (Some p) GridTable OutputGid
     ''dataprovidername, min(referencetime), max(referencetime), count(*)''
     None (Some ''dataprovidername''))"

definition getWciBrowsePlaceQuery :: "loc_action boost \<Rightarrow> string \<Rightarrow> read_arguments \<Rightarrow> string res" where
  "getWciBrowsePlaceQuery E wci args = bindE (parseReadParameters args) (\<lambda>p. build_query E wci (Some p) GridTable OutputGid
     ''placename, min(referencetime), max(referencetime), count(*)''
     None (Some ''placename''))"

definition getWciBrowseReferenceTimeQuery :: "loc_action boost \<Rightarrow> string \<Rightarrow> read_arguments \<Rightarrow> string res" where
  "getWciBrowseReferenceTimeQuery E wci args = bindE (parseReadParameters args) (\<lambda>p. build_query E wci (Some p) GridTable OutputGid
     ''referencetime, count(*)''
     None (Some ''referencetime''))"

definition getWciBrowseValidTimeQuery :: "loc_action boost \<Rightarrow> string \<Rightarrow> read_arguments \<Rightarrow> string res" where
  "getWciBrowseValidTimeQuery E wci args = bindE (parseReadParameters args) (\<lambda>p. build_query E wci (Some p) GridTable OutputGid
     ''validtimefrom, validtimeto, count(*)''
     None (Some ''validtimefrom, validtimeto''))"

definition getWciBrowseValueParameterQuery :: "loc_action boost \<Rightarrow> string \<Rightarrow> read_arguments \<Rightarrow> string res" where
  "getWciBrowseValueParameterQuery E wci args = bindE (parseReadParameters args) (\<lambda>p. build_query E wci (Some p) GridTable OutputGid
     ''valueparametername, valueunitname, count(*)''
     None (Some ''valueparametername, valueunitname''))"

definition getWciBrowseLevelParameterQuery :: "loc_action boost \<Rightarrow> string \<Rightarrow> read_arguments \<Rightarrow> string res" where
  "getWciBrowseLevelParameterQuery E wci args = bindE (parseReadParameters args) (\<lambda>p. build_query E wci (Some p) GridTable OutputGid
     ''levelparametername, levelunitname, min(levelfrom), max(levelto), count(*)''
     None (Some ''levelparametername, levelunitname''))"

definition getWciBrowseDataVersionQuery :: "loc_action boost \<Rightarrow> string \<Rightarrow> read_arguments \<Rightarrow> string res" where
  "getWciBrowseDataVersionQuery E wci args = bindE (parseReadParameters args) (\<lambda>p. build_query E wci (Some p) GridTable OutputGid
     ''dataversion, count(*)''
     (Some ''1'') (Some ''1''))"

definition getWciBrowseDataProviderQueryGrid :: "loc_action boost \<Rightarrow> string \<Rightarrow> read_arguments \<Rightarrow> string res" where
  "getWciBrowseDataProviderQueryGrid E wci args = bindE (parseReadParameters args) (\<lambda>p. build_query E wci (Some p) GridTable OutputGid
     ''dataprovidername, min(referencetime), max(referencetime), count(*)''
     None (Some ''dataprovidername''))"

definition getWciBrowsePlaceQueryGrid :: "loc_action boost \<Rightarrow> string \<Rightarrow> read_arguments \<Rightarrow> string res" where
  "getWciBrowsePlaceQueryGrid E wci args = bindE (parseReadParameters args) (\<lambda>p. build_query E wci (Some p) GridTable OutputGid
     ''placename, min(referencetime), max(referencetime), count(*)''
     None (Some ''placename''))"

definition getWciBrowseReferenceTimeQueryGrid :: "loc_action boost \<Rightarrow> string \<Rightarrow> read_arguments \<Rightarrow> string res" where
  "getWciBrowseReferenceTimeQueryGrid E wci args = bindE (parseReadParameters args) (\<lambda>p. build_query E wci (Some p) GridTable OutputGid
     ''referencetime, count(*)''
     None (Some ''referencetime''))"

definition getWciBrowseValidTimeQueryGrid :: "loc_action boost \<Rightarrow> string \<Rightarrow> read_arguments \<Rightarrow> string res" where
  "getWciBrowseValidTimeQueryGrid E wci args = bindE (parseReadParameters args) (\<lambda>p. build_query E wci (Some p) GridTable OutputGid
     ''validtimefrom, validtimeto, count(*)''
     None (Some ''validtimefrom, validtimeto''))"

definition getWciBrowseValueParameterQueryGrid :: "loc_action boost \<Rightarrow> string \<Rightarrow> read_arguments \<Rightarrow> string res" where
  "getWciBrowseValueParameterQueryGrid E wci args = bindE (parseReadParameters args) (\<lambda>p. build_query E wci (Some p) GridTable OutputGid
     ''valueparametername, valueunitname, count(*)''
     None (Some ''valueparametername, valueunitname''))"

definition getWciBrowseLevelParameterQueryGrid :: "loc_action boost \<Rightarrow> string \<Rightarrow> read_arguments \<Rightarrow> string res" where
  "getWciBrowseLevelParameterQueryGrid E wci args = bindE (parseReadParameters args) (\<lambda>p. build_query E wci (Some p) GridTable OutputGid
     ''levelparametername, levelunitname, min(levelfrom), max(levelto), count(*)''
     None (Some ''levelparametername, levelunitname''))"

definition getWciBrowseDataVersionQueryGrid :: "loc_action boost \<Rightarrow> string \<Rightarrow> read_arguments \<Rightarrow> string res" where
  "getWciBrowseDataVersionQueryGrid E wci args = bindE (parseReadParameters args) (\<lambda>p. build_query E wci (Some p) GridTable OutputGid
     ''dataversion, count(*)''
     (Some ''1'') (Some ''1''))"

definition getWciBrowseDataProviderQueryFloat :: "loc_action boost \<Rightarrow> string \<Rightarrow> read_arguments \<Rightarrow> string res" where
  "getWciBrowseDataProviderQueryFloat E wci args = bindE (parseReadParameters args) (\<lambda>p. build_query E wci (Some p) FloatTable OutputFloat
     ''dataprovidername, min(referencetime), max(referencetime), count(*)''
     None (Some ''dataprovidername''))"

definition getWciBrowsePlaceQueryFloat :: "loc_action boost \<Rightarrow> string \<Rightarrow> read_arguments \<Rightarrow> string res" where
  "getWciBrowsePlaceQueryFloat E wci args = bindE (parseReadParameters args) (\<lambda>p. build_query E wci (Some p) FloatTable OutputFloat
     ''placename, min(referencetime), max(referencetime), count(*)''
     None (Some ''placename''))"

definition getWciBrowseReferenceTimeQueryFloat :: "loc_action boost \<Rightarrow> string \<Rightarrow> read_arguments \<Rightarrow> string res" where
  "getWciBrowseReferenceTimeQueryFloat E wci args = bindE (parseReadParameters args) (\<lambda>p. build_query E wci (Some p) FloatTable OutputFloat
     ''referencetime, count(*)''
     None (Some ''referencetime''))"

definition getWciBrowseValidTimeQueryFloat :: "loc_action boost \<Rightarrow> string \<Rightarrow> read_arguments \<Rightarrow> string res" where
  "getWciBrowseValidTimeQueryFloat E wci args = bindE (parseReadParameters args) (\<lambda>p. build_query E wci (Some p) FloatTable OutputFloat
     ''validtimefrom, validtimeto, count(*)''
     None (Some ''validtimefrom, validtimeto''))"

definition getWciBrowseValueParameterQueryFloat :: "loc_action boost \<Rightarrow> string \<Rightarrow> read_arguments \<Rightarrow> string res" where
  "getWciBrowseValueParameterQueryFloat E wci args = bindE (parseReadParameters args) (\<lambda>p. build_query E wci (Some p) FloatTable OutputFloat
     ''valueparametername, valueunitname, count(*)''
     None (Some ''valueparametername, valueunitname''))"

definition getWciBrowseLevelParameterQueryFloat :: "loc_action boost \<Rightarrow> string \<Rightarrow> read_arguments \<Rightarrow> string res" where
  "getWciBrowseLevelParameterQueryFloat E wci args = bindE (parseReadParameters args) (\<lambda>p. build_query E wci (Some p) FloatTable OutputFloat
     ''levelparametername, levelunitname, min(levelfrom), max(levelto), count(*)''
     None (Some ''levelparametername, levelunitname''))"

definition getWciBrowseDataVersionQueryFloat :: "loc_action boost \<Rightarrow> string \<Rightarrow> read_arguments \<Rightarrow> string res" where
  "getWciBrowseDataVersionQueryFloat E wci args = bindE (parseReadParameters args) (\<lambda>p. build_query E wci (Some p) FloatTable OutputFloat
     ''dataversion, count(*)''
     (Some ''1'') (Some ''1''))"

section \<open>The views\<close>

text \<open>Each function with its table, the columns it lists, its order and its grouping.\<close>

datatype browse = Browse (browse_fun: "loc_action boost \<Rightarrow> string \<Rightarrow> read_arguments \<Rightarrow> string res")
  (browse_source: DataSource) (browse_output: OutputType) (browse_columns: string) (browse_order: "string option") (browse_group: string)

definition browse_functions :: "browse list" where
  "browse_functions = [
     Browse getWciBrowseDataProviderQuery GridTable OutputGid ''dataprovidername, min(referencetime), max(referencetime), count(*)'' None ''dataprovidername'',
     Browse getWciBrowsePlaceQuery GridTable OutputGid ''placename, min(referencetime), max(referencetime), count(*)'' None ''placename'',
     Browse getWciBrowseReferenceTimeQuery GridTable OutputGid ''referencetime, count(*)'' None ''referencetime'',
     Browse getWciBrowseValidTimeQuery GridTable OutputGid ''validtimefrom, validtimeto, count(*)'' None ''validtimefrom, validtimeto'',
     Browse getWciBrowseValueParameterQuery GridTable OutputGid ''valueparametername, valueunitname, count(*)'' None ''valueparametername, valueunitname'',
     Browse getWciBrowseLevelParameterQuery GridTable OutputGid ''levelparametername, levelunitname, min(levelfrom), max(levelto), count(*)'' None ''levelparametername, levelunitname'',
     Browse getWciBrowseDataVersionQuery GridTable OutputGid ''dataversion, count(*)'' (Some ''1'') ''1'',
     Browse getWciBrowseDataProviderQueryGrid GridTable OutputGid ''dataprovidername, min(referencetime), max(referencetime), count(*)'' None ''dataprovidername'',
     Browse getWciBrowsePlaceQueryGrid GridTable OutputGid ''placename, min(referencetime), max(referencetime), count(*)'' None ''placename'',
     Browse getWciBrowseReferenceTimeQueryGrid GridTable OutputGid ''referencetime, count(*)'' None ''referencetime'',
     Browse getWciBrowseValidTimeQueryGrid GridTable OutputGid ''validtimefrom, validtimeto, count(*)'' None ''validtimefrom, validtimeto'',
     Browse getWciBrowseValueParameterQueryGrid GridTable OutputGid ''valueparametername, valueunitname, count(*)'' None ''valueparametername, valueunitname'',
     Browse getWciBrowseLevelParameterQueryGrid GridTable OutputGid ''levelparametername, levelunitname, min(levelfrom), max(levelto), count(*)'' None ''levelparametername, levelunitname'',
     Browse getWciBrowseDataVersionQueryGrid GridTable OutputGid ''dataversion, count(*)'' (Some ''1'') ''1'',
     Browse getWciBrowseDataProviderQueryFloat FloatTable OutputFloat ''dataprovidername, min(referencetime), max(referencetime), count(*)'' None ''dataprovidername'',
     Browse getWciBrowsePlaceQueryFloat FloatTable OutputFloat ''placename, min(referencetime), max(referencetime), count(*)'' None ''placename'',
     Browse getWciBrowseReferenceTimeQueryFloat FloatTable OutputFloat ''referencetime, count(*)'' None ''referencetime'',
     Browse getWciBrowseValidTimeQueryFloat FloatTable OutputFloat ''validtimefrom, validtimeto, count(*)'' None ''validtimefrom, validtimeto'',
     Browse getWciBrowseValueParameterQueryFloat FloatTable OutputFloat ''valueparametername, valueunitname, count(*)'' None ''valueparametername, valueunitname'',
     Browse getWciBrowseLevelParameterQueryFloat FloatTable OutputFloat ''levelparametername, levelunitname, min(levelfrom), max(levelto), count(*)'' None ''levelparametername, levelunitname'',
     Browse getWciBrowseDataVersionQueryFloat FloatTable OutputFloat ''dataversion, count(*)'' (Some ''1'') ''1'']"

section \<open>Browsing and reading\<close>

text \<open>The arguments of a call fix the tables and the conditions of its statement; they neither see nor change
  what is selected, the order and the groups.\<close>

definition paint :: "string list \<times> string list \<times> string list \<Rightarrow> Builder \<Rightarrow> Builder" where
  "paint p b = b\<lparr>what_list := fst p, orderBy_list := fst (snd p), groupBy_list := snd (snd p)\<rparr>"

definition blind :: "(Builder \<Rightarrow> Builder res) \<Rightarrow> bool" where
  "blind f \<longleftrightarrow> (\<forall>p b. f (paint p b) = mapE (paint p) (f b))"

lemma blindD: "blind f \<Longrightarrow> f (paint p b) = mapE (paint p) (f b)"
  unfolding blind_def by blast

lemma blind_Inr: "blind Inr"
  by (simp add: blind_def mapE_def)

lemma blind_bind: "blind f \<Longrightarrow> blind g \<Longrightarrow> blind (\<lambda>b. bindE (f b) g)"
  unfolding blind_def by (simp add: mapE_def bindE_def split: sum.splits)

lemma blind_mapE: "(\<And>q p b. h q (paint p b) = paint p (h q b)) \<Longrightarrow> blind (\<lambda>b. mapE (\<lambda>q. h q b) r)"
  by (auto simp: blind_def mapE_def split: sum.splits)

lemma blind_report: "blind f \<Longrightarrow> blind (\<lambda>b. report_InvalidSpecification (f b))"
  unfolding blind_def by (simp add: mapE_def report_InvalidSpecification_def split: sum.splits err.splits)

lemma paint_adders:
  "add_where c (paint p b) = paint p (add_where c b)" "add_from c (paint p b) = paint p (add_from c b)"
  by (simp_all add: paint_def clause_defs)

lemma add_with_paint: "add_with st al (paint p b) = mapE (paint p) (add_with st al b)"
  by (cases "str st") (simp_all add: add_with_def paint_def mapE_def)

lemma blind_conditions:
  "blind (addReferenceTimeQuery E rt)" "blind (addValidTimeQuery E vt)" "blind (addParameterQuery E ps)"
  "blind (addLevelQuery E lv)" "blind (addDataVersionQuery dv)" "blind (addDataProviderQuery E wci dp)"
proof -
  show "blind (addReferenceTimeQuery E rt)"
    unfolding addReferenceTimeQuery_def by (cases rt) (simp_all add: blind_Inr blind_mapE paint_adders)
  show "blind (addValidTimeQuery E vt)"
    unfolding addValidTimeQuery_def
    by (cases vt) (auto simp: blind_def mapE_def bindE_def paint_adders split: sum.splits)
  show "blind (addParameterQuery E ps)"
    unfolding addParameterQuery_def
    by (cases ps) (auto simp: blind_def mapE_def paint_adders split: sum.splits list.splits)
  show "blind (addLevelQuery E lv)"
    unfolding addLevelQuery_def by (cases lv) (simp_all add: blind_Inr blind_mapE paint_adders)
  show "blind (addDataVersionQuery dv)"
    unfolding addDataVersionQuery_def Let_def
    by (cases dv) (auto simp: blind_def mapE_def paint_adders split: sum.splits list.splits)
  show "blind (addDataProviderQuery E wci dp)"
    unfolding addDataProviderQuery_def
    by (cases dp) (auto simp: blind_def mapE_def paint_adders add_with_paint split: sum.splits list.splits)
qed

text \<open>A nearest or surrounding location wraps the statement of the float table into a subquery; the others only
  add conditions.\<close>

definition adds_conditions :: "loc_action boost \<Rightarrow> DataSource \<Rightarrow> string option \<Rightarrow> bool" where
  "adds_conditions E src loc = (case loc of
     None \<Rightarrow> True
   | Some s \<Rightarrow> src = GridTable \<or> (case Location_new E s of
       Inl e \<Rightarrow> True
     | Inr l \<Rightarrow> interpolationType l = Exact \<or> interpolationType l = Bilinear))"

lemma blind_with:
  assumes "\<And>p b. h (paint p b) = paint p (h b)" and "\<And>p b. k (paint p b) = paint p (k b)"
  shows "blind (\<lambda>b. mapE h (add_with st al (k b)))"
  unfolding blind_def assms(2) add_with_paint by (simp add: assms(1) mapE_def split: sum.splits)

lemma blind_exact_location: "blind (addToReturnExactFloatQuery wci l)"
proof -
  have geo: "(if hasGeometry l then add_where t (paint p b) else paint p b) = paint p (if hasGeometry l then add_where t b else b)" for t p b
    by (simp add: paint_adders)
  show ?thesis
    unfolding addToReturnExactFloatQuery_def [abs_def] Let_def
    by (cases "hasPlaceName l") (simp_all add: geo blind_def mapE_def add_with_paint paint_adders split: sum.splits)
qed

lemma blind_float_location:
  assumes "interpolationType l = Exact \<or> interpolationType l = Bilinear"
  shows "blind (addFloatTableQuery wci l)"
proof -
  have "blind (\<lambda>b. Inr (add_where ''FALSE'' (addToReturnBilinearFloatQuery b)))"
    by (simp add: blind_def addToReturnBilinearFloatQuery_def paint_adders mapE_def)
  with blind_exact_location [of wci l] show ?thesis
    using assms by (auto simp: addFloatTableQuery_def [abs_def])
qed

lemma blind_location:
  assumes "adds_conditions E src loc"
  shows "blind (addLocationQuery E wci loc src out)"
proof (cases loc)
  case None
  then show ?thesis by (simp add: addLocationQuery_def [abs_def] blind_Inr)
next
  case (Some s)
  show ?thesis
  proof (cases "Location_new E s")
    case (Inl e)
    then show ?thesis using Some
      by (auto simp: addLocationQuery_def blind_def bindE_def mapE_def report_InvalidSpecification_def split: err.splits)
  next
    case (Inr l)
    have "blind (\<lambda>b. Inr (addGridTableQuery wci l b))" by (simp add: blind_def addGridTableQuery_def paint_adders mapE_def)
    moreover have "blind (addFloatTableQuery wci l)" if "src = FloatTable"
      using assms Some Inr that by (intro blind_float_location) (simp add: adds_conditions_def)
    ultimately have "blind (\<lambda>b. if src = FloatTable then addFloatTableQuery wci l b
        else if out = OutputGid then Inr (addGridTableQuery wci l b) else Inr b)"
      by (cases src; cases out) (simp_all add: blind_Inr)
    then have "blind (\<lambda>b. report_InvalidSpecification (if src = FloatTable then addFloatTableQuery wci l b
        else if out = OutputGid then Inr (addGridTableQuery wci l b) else Inr b))" by (rule blind_report)
    moreover have "addLocationQuery E wci loc src out = (\<lambda>b. report_InvalidSpecification (if src = FloatTable then addFloatTableQuery wci l b
        else if out = OutputGid then Inr (addGridTableQuery wci l b) else Inr b))"
      using Some Inr by (simp add: fun_eq_iff addLocationQuery_def bindE_def)
    ultimately show ?thesis by simp
  qed
qed

lemma blind_parameters:
  assumes "adds_conditions E src (location p)"
  shows "blind (add_parameters E wci p src out)"
  unfolding add_parameters_def [abs_def]
  by (intro blind_bind blind_conditions blind_location [OF assms])

section \<open>The statements\<close>

definition group_clause :: "string option \<Rightarrow> string" where
  "group_clause g = (case g of None \<Rightarrow> '''' | Some x \<Rightarrow> '' GROUP BY '' @ x)"

definition order_clause :: "string option \<Rightarrow> string" where
  "order_clause g = (case g of None \<Rightarrow> '''' | Some x \<Rightarrow> '' ORDER BY '' @ x)"

lemma base_query_paint:
  "base_query wci src w = paint ([w], [], []) (base_query wci src '''')"
  by (simp add: base_query_def paint_def clause_defs Builder_new_def)

lemma str_paint:
  "str (case g of None \<Rightarrow> case o' of None \<Rightarrow> paint ([w], [], []) b | Some x \<Rightarrow> add_orderBy x (paint ([w], [], []) b)
        | Some y \<Rightarrow> add_groupBy y (case o' of None \<Rightarrow> paint ([w], [], []) b | Some x \<Rightarrow> add_orderBy x (paint ([w], [], []) b)))
   = (if from_list b = [] then Inl InvalidQuery else Inr
       ((if with_list b = [] then [] else ''WITH '' @ with_text b @ '' '') @ ''SELECT '' @ w
        @ ('' FROM '' @ from_text b @ section_text '' WHERE '' (where_list b) (where_text b))
        @ group_clause g @ order_clause o'))"
  by (cases g; cases o') (simp_all add: str_def paint_def clause_defs clause_texts group_clause_def order_clause_def)

lemma build_query_clauses:
  assumes "adds_conditions E src (location p)"
  shows "\<exists>clauses. \<forall>w o' g. build_query E wci (Some p) src out w o' g
     = mapE (\<lambda>(pre, rest). pre @ ''SELECT '' @ w @ rest @ group_clause g @ order_clause o') clauses"
proof -
  define r where "r = add_parameters E wci p src out (base_query wci src '''')"
  define clauses where "clauses = report_all ERRCODE_DATA_EXCEPTION (bindE r (\<lambda>b.
     if from_list b = [] then Inl InvalidQuery else Inr
       ((if with_list b = [] then [] else ''WITH '' @ with_text b @ '' ''),
        '' FROM '' @ from_text b @ section_text '' WHERE '' (where_list b) (where_text b))))"
  have run: "add_parameters E wci p src out (base_query wci src w) = mapE (paint ([w], [], [])) r" for w
    unfolding r_def base_query_paint [of wci src w] by (rule blindD [OF blind_parameters [OF assms]])
  have "build_query E wci (Some p) src out w o' g
      = mapE (\<lambda>(pre, rest). pre @ ''SELECT '' @ w @ rest @ group_clause g @ order_clause o') clauses" for w o' g
  proof (cases r)
    case (Inl e)
    then show ?thesis
      unfolding build_query_def option.case run clauses_def
      by (simp add: bindE_def mapE_def report_all_def report_std_def split: err.splits)
  next
    case (Inr b)
    then show ?thesis
      unfolding build_query_def option.case run clauses_def
      by (simp add: bindE_def mapE_def Let_def str_paint report_all_def report_std_def split: err.splits)
  qed
  then show ?thesis by blast
qed

text \<open>The columns of a view that are not aggregates.\<close>

definition plain_columns :: "string \<Rightarrow> string list" where
  "plain_columns cols = filter (\<lambda>c. CHR ''('' \<notin> set c) (map trim_space (split_at (\<lambda>c. c = CHR '','') cols))"

definition well_grouped :: "browse \<Rightarrow> bool" where
  "well_grouped v \<longleftrightarrow> plain_columns (browse_columns v) \<noteq> []
     \<and> (if browse_group v = ''1'' then length (plain_columns (browse_columns v)) = 1
          \<and> hd (plain_columns (browse_columns v)) = takeWhile (\<lambda>c. c \<noteq> CHR '','') (browse_columns v)
        else browse_group v = join '', '' (plain_columns (browse_columns v)))"

lemma browse_grouped: "list_all well_grouped browse_functions"
  unfolding browse_functions_def by code_simp

lemma browse_fun_eq:
  "list_all (\<lambda>v. browse_fun v E wci args = bindE (parseReadParameters args) (\<lambda>p.
     build_query E wci (Some p) (browse_source v) (browse_output v) (browse_columns v) (browse_order v) (Some (browse_group v))))
   browse_functions"
  unfolding browse_functions_def
  by (simp only: list.pred_inject browse.sel simp_thms getWciBrowseDataProviderQuery_def getWciBrowsePlaceQuery_def getWciBrowseReferenceTimeQuery_def
      getWciBrowseValidTimeQuery_def getWciBrowseValueParameterQuery_def getWciBrowseLevelParameterQuery_def
      getWciBrowseDataVersionQuery_def getWciBrowseDataProviderQueryGrid_def getWciBrowsePlaceQueryGrid_def
      getWciBrowseReferenceTimeQueryGrid_def getWciBrowseValidTimeQueryGrid_def getWciBrowseValueParameterQueryGrid_def
      getWciBrowseLevelParameterQueryGrid_def getWciBrowseDataVersionQueryGrid_def getWciBrowseDataProviderQueryFloat_def
      getWciBrowsePlaceQueryFloat_def getWciBrowseReferenceTimeQueryFloat_def getWciBrowseValidTimeQueryFloat_def
      getWciBrowseValueParameterQueryFloat_def getWciBrowseLevelParameterQueryFloat_def getWciBrowseDataVersionQueryFloat_def)

text \<open>C31: browsing lists what reading reads. For arguments without a nearest or surrounding location on the float
  table, each of the 21 browse functions fails exactly like the read of its table with the same arguments, or its
  statement is that of the read with other columns and a grouping at its end (so its tables and conditions are
  those of the read), and what it groups by is exactly its columns that are not aggregates.\<close>

theorem browse_selects_read_rows:
  assumes "v \<in> set browse_functions" and "parseReadParameters args = Inr p"
    and "adds_conditions E (browse_source v) (location p)"
  shows "(\<exists>clauses. (\<forall>cols. build_query E wci (Some p) (browse_source v) (browse_output v) cols None None
         = mapE (\<lambda>(pre, rest). pre @ ''SELECT '' @ cols @ rest) clauses)
      \<and> browse_fun v E wci args = mapE (\<lambda>(pre, rest). pre @ ''SELECT '' @ browse_columns v @ rest
         @ '' GROUP BY '' @ browse_group v @ order_clause (browse_order v)) clauses)
    \<and> well_grouped v"
proof (intro conjI)
  from build_query_clauses [OF assms(3), of wci "browse_output v"] obtain clauses
    where clauses: "\<And>w o' g. build_query E wci (Some p) (browse_source v) (browse_output v) w o' g
      = mapE (\<lambda>(pre, rest). pre @ ''SELECT '' @ w @ rest @ group_clause g @ order_clause o') clauses" by blast
  have "browse_fun v E wci args
      = build_query E wci (Some p) (browse_source v) (browse_output v) (browse_columns v) (browse_order v) (Some (browse_group v))"
    using browse_fun_eq [of E wci args] assms(1,2) by (simp add: list_all_iff bindE_def)
  then show "\<exists>clauses. (\<forall>cols. build_query E wci (Some p) (browse_source v) (browse_output v) cols None None
         = mapE (\<lambda>(pre, rest). pre @ ''SELECT '' @ cols @ rest) clauses)
      \<and> browse_fun v E wci args = mapE (\<lambda>(pre, rest). pre @ ''SELECT '' @ browse_columns v @ rest
         @ '' GROUP BY '' @ browse_group v @ order_clause (browse_order v)) clauses"
    using clauses by (intro exI [of _ clauses]) (simp add: group_clause_def order_clause_def)
  show "well_grouped v" using browse_grouped assms(1) by (simp add: list_all_iff)
qed

definition browse_arguments :: read_arguments where
  "browse_arguments = \<lparr>arg0 = None, arg1 = None, arg2 = None, arg3 = None, arg4 = None, arg5 = None,
     arg6 = Some \<lparr>arr_ndim = 1, arr_lbound = 1, arr_elems = [Some 1]\<rparr>\<rparr>"

theorem browse_selects_read_rows_witness:
  "\<exists>pre rest. build_query boost_ref ''wci_int'' (Some \<lparr>dataProvider = None, location = None, referenceTime = None,
       validTime = None, parameter = None, level = None, dataVersion = Some [1]\<rparr>) GridTable OutputGid ''x'' None None
     = Inr (pre @ ''SELECT x'' @ rest)
   \<and> getWciBrowseDataVersionQuery boost_ref ''wci_int'' browse_arguments
     = Inr (pre @ ''SELECT dataversion, count(*)'' @ rest @ '' GROUP BY 1 ORDER BY 1'')"
proof -
  define v where "v = Browse getWciBrowseDataVersionQuery GridTable OutputGid ''dataversion, count(*)'' (Some ''1'') ''1''"
  define p where "p = \<lparr>dataProvider = None, location = None, referenceTime = None, validTime = None, parameter = None,
    level = None, dataVersion = Some [1]\<rparr>"
  have v: "v \<in> set browse_functions" by (simp add: v_def browse_functions_def)
  have args: "parseReadParameters browse_arguments = Inr p"
    by (simp add: parseReadParameters_def browse_arguments_def p_def stringArrayFromDatum_def intArrayFromDatum_def
        arrayFromDatum_def array_ref_def bindE_def mapE_def charStringFromDatum_def)
  have loc: "adds_conditions boost_ref (browse_source v) (location p)" by (simp add: adds_conditions_def p_def)
  from browse_selects_read_rows [OF v args loc, of "''wci_int''"] obtain clauses
    where read: "\<And>cols. build_query boost_ref ''wci_int'' (Some p) GridTable OutputGid cols None None
        = mapE (\<lambda>(pre, rest). pre @ ''SELECT '' @ cols @ rest) clauses"
    and browse: "getWciBrowseDataVersionQuery boost_ref ''wci_int'' browse_arguments
        = mapE (\<lambda>(pre, rest). pre @ ''SELECT '' @ ''dataversion, count(*)'' @ rest @ '' GROUP BY '' @ ''1'' @ '' ORDER BY 1'') clauses"
    by (auto simp: v_def order_clause_def)
  have "parameters_ok boost_ref p"
    by (simp add: parameters_ok_def p_def time_ok_def valid_ok_def names_ok_def level_ok_def versions_ok_def
        location_ok_def INT_MIN_def)
  with build_query_cases [OF documented_ref, where wci = "''wci_int''" and p = p and src = GridTable and out = OutputGid
      and w = "''x''" and o' = None and g = None]
  obtain q where "build_query boost_ref ''wci_int'' (Some p) GridTable OutputGid ''x'' None None = Inr q"
    by (auto split: sum.splits)
  with read [of "''x''"] obtain pre rest where "clauses = Inr (pre, rest)" by (cases clauses) (auto simp: mapE_def)
  with read [of "''x''"] browse show ?thesis unfolding p_def by (intro exI [of _ pre] exI [of _ rest]) (simp add: mapE_def)
qed

end
