(* ===== verification/WciSession.thy ===== *)
theory WciSession
  imports Prelude Externals
begin

text \<open>
  The session of a database connection (\<open>wciSession.cpp\<close>, \<open>wciSession.h\<close>) and the change of the role
  (\<open>setRole\<close> in \<open>psqlTupleInterface.c\<close>): what \<open>wci.begin\<close> and \<open>wci.end\<close> do in C. The SQL functions are not
  declared \<open>STRICT\<close>, so each argument can be a null. The abstract session is an optional tuple of a user
  and three name spaces.
\<close>

section \<open>The session object\<close>

record WciSession =
  ns_user :: string
  ns_dataProvider :: int
  ns_place :: int
  ns_parameter :: int

definition WciSession_new :: WciSession where
  "WciSession_new = \<lparr>ns_user = '''', ns_dataProvider = - 1, ns_place = - 1, ns_parameter = - 1\<rparr>"

definition isInitialized :: "WciSession \<Rightarrow> bool" where
  "isInitialized s \<longleftrightarrow> ns_user s \<noteq> []"

definition initialize :: "string \<Rightarrow> int \<Rightarrow> int \<Rightarrow> int \<Rightarrow> (WciSession, unit) call" where
  "initialize userName dataProviderNs placeNs parameterNs =
     (if userName = [] then failS (Logic_error ''username cannot be empty'')
      else modifyS (\<lambda>s. s\<lparr>ns_user := userName, ns_dataProvider := dataProviderNs, ns_place := placeNs,
        ns_parameter := parameterNs\<rparr>))"

definition reset :: "(WciSession, unit) call" where
  "reset = bindS (getS isInitialized) (\<lambda>ini.
     if \<not> ini then failS (Logic_error ''Session was never initialized'')
     else modifyS (\<lambda>s. s\<lparr>ns_user := '''', ns_dataProvider := - 1, ns_place := - 1, ns_parameter := - 1\<rparr>))"

definition assertInitialized :: "(WciSession, unit) call" where
  "assertInitialized = bindS (getS isInitialized) (\<lambda>ini.
     if ini then retS () else failS (Ereport ERRCODE_RAISE_EXCEPTION ''wci has not been initialized.''))"

section \<open>The functions that SQL calls\<close>

text \<open>\<open>catch (std::logic_error \& e)\<close> around a call.\<close>

definition report_logic_error :: "('s, 'a) call \<Rightarrow> ('s, 'a) call" where
  "report_logic_error m = (\<lambda>s. case m s of
     (Inl (Logic_error t), s1) \<Rightarrow> (Inl (Ereport ERRCODE_RAISE_EXCEPTION t), s1)
   | r \<Rightarrow> r)"

text \<open>A null text argument is a null pointer, which is read; a null integer reads as 0.\<close>

definition int_arg :: "int option \<Rightarrow> int" where
  "int_arg d = (case d of None \<Rightarrow> 0 | Some i \<Rightarrow> i)"

definition wciSession_initialize ::
    "string option \<Rightarrow> int option \<Rightarrow> int option \<Rightarrow> int option \<Rightarrow> (WciSession, unit) call" where
  "wciSession_initialize user dataProviderNs placeNs parameterNs = (case user of
     None \<Rightarrow> failS (Undefined ''a null text is read'')
   | Some u \<Rightarrow> report_logic_error (initialize u (int_arg dataProviderNs) (int_arg placeNs) (int_arg parameterNs)))"

definition wciSession_reset :: "(WciSession, unit) call" where
  "wciSession_reset = report_logic_error reset"

definition wciSession_initialized :: "(WciSession, bool) call" where
  "wciSession_initialized = getS isInitialized"

text \<open>\<open>packSessionData\<close>: \<open>composite\<close> says whether the call expects a row.\<close>

definition packSessionData :: "bool \<Rightarrow> int \<Rightarrow> int \<Rightarrow> int \<Rightarrow> int list res" where
  "packSessionData composite dataProviderCs parameterCs levelParameterCs =
     (if \<not> composite then Inl (Ereport ERRCODE_DATA_EXCEPTION
        (CHR 0x27 # ''packSessionData'' @ CHR 0x27 # '': Function returning record called in context that cannot accept type record''))
      else Inr [dataProviderCs, parameterCs, levelParameterCs])"

definition wciSession_get :: "bool \<Rightarrow> (WciSession, int list) call" where
  "wciSession_get composite = bindS assertInitialized (\<lambda>_. bindS (getS (\<lambda>s. s)) (\<lambda>s.
     liftS (packSessionData composite (ns_dataProvider s) (ns_place s) (ns_parameter s))))"

text \<open>The size of the text counts the terminating zero of the C string.\<close>

definition wciSession_user :: "(WciSession, string) call" where
  "wciSession_user = bindS assertInitialized (\<lambda>_. getS (\<lambda>s. ns_user s @ [CHR 0x00]))"

section \<open>The role\<close>

definition role_rx :: rx where
  "role_rx = Cat (C (CSet [(CHR ''a'', CHR ''z''), (CHR ''A'', CHR ''Z''), (CHR ''_'', CHR ''_'')]))
     (Star (C (CSet [(CHR ''a'', CHR ''z''), (CHR ''A'', CHR ''Z''), (CHR ''_'', CHR ''_''), (CHR ''0'', CHR ''9'')])))"

lemma role_rx_text: "rx_text role_rx = ''[a-zA-Z_][a-zA-Z_0-9]*''"
  by (simp add: role_rx_def)

text \<open>\<open>snprintf\<close> into 128 bytes keeps 127 characters.\<close>

definition bufferSize :: nat where
  "bufferSize = 128"

definition role_command :: "string \<Rightarrow> string" where
  "role_command user = take (bufferSize - 1) (''SET ROLE '' @ user @ '';'')"

definition setRole :: "bool \<Rightarrow> (string \<Rightarrow> ('s, unit) call) \<Rightarrow> string \<Rightarrow> ('s, unit) call" where
  "setRole spi_connects SPI_execute user =
     (if \<not> spi_connects then failS (Ereport ERRCODE_CONNECTION_EXCEPTION ''Unable to create SPI connection to database.'')
      else SPI_execute (role_command user))"

definition wciSession_setRole :: "'a boost \<Rightarrow> bool \<Rightarrow> (string \<Rightarrow> ('s, unit) call) \<Rightarrow> string option \<Rightarrow> ('s, unit) call" where
  "wciSession_setRole E spi_connects SPI_execute role = (case role of
     None \<Rightarrow> failS (Ereport ERRCODE_NULL_VALUE_NOT_ALLOWED ''Role cannot be NULL'')
   | Some sRole \<Rightarrow>
       (if regex_match E False role_rx sRole = None
        then failS (Ereport ERRCODE_INVALID_ROLE_SPECIFICATION (''Invalid role name: '' @ sRole))
        else setRole spi_connects SPI_execute sRole))"

section \<open>Calls in sequence\<close>

datatype session_call =
    Session_initialize "string option" "int option" "int option" "int option"
  | Session_reset
  | Session_initialized
  | Session_get
  | Session_user

datatype session_answer = Answer_void | Answer_bool bool | Answer_row "int list" | Answer_text string

fun session_step :: "session_call \<Rightarrow> (WciSession, session_answer) call" where
  "session_step (Session_initialize u d p q) = mapS (\<lambda>_. Answer_void) (wciSession_initialize u d p q)"
| "session_step Session_reset = mapS (\<lambda>_. Answer_void) wciSession_reset"
| "session_step Session_initialized = mapS Answer_bool wciSession_initialized"
| "session_step Session_get = mapS Answer_row (wciSession_get True)"
| "session_step Session_user = mapS Answer_text wciSession_user"

text \<open>The session survives an error of a call, which only ends its statement.\<close>

fun session_run :: "session_call list \<Rightarrow> WciSession \<Rightarrow> session_answer res list \<times> WciSession" where
  "session_run [] s = ([], s)"
| "session_run (c # cs) s = (case session_step c s of (a, s1) \<Rightarrow> (case session_run cs s1 of (as, s2) \<Rightarrow> (a # as, s2)))"

section \<open>The abstract session\<close>

type_synonym abstract_session = "(string \<times> int \<times> int \<times> int) option"

definition concrete :: "abstract_session \<Rightarrow> WciSession" where
  "concrete a = (case a of
     None \<Rightarrow> WciSession_new
   | Some (u, d, p, q) \<Rightarrow> \<lparr>ns_user = u, ns_dataProvider = d, ns_place = p, ns_parameter = q\<rparr>)"

definition session_missing :: err where
  "session_missing = Ereport ERRCODE_RAISE_EXCEPTION ''wci has not been initialized.''"

fun session_spec :: "session_call \<Rightarrow> abstract_session \<Rightarrow> session_answer res \<times> abstract_session" where
  "session_spec (Session_initialize None d p q) a = (Inl (Undefined ''a null text is read''), a)"
| "session_spec (Session_initialize (Some []) d p q) a =
     (Inl (Ereport ERRCODE_RAISE_EXCEPTION ''username cannot be empty''), a)"
| "session_spec (Session_initialize (Some (c # u)) d p q) a =
     (Inr Answer_void, Some (c # u, int_arg d, int_arg p, int_arg q))"
| "session_spec Session_reset None = (Inl (Ereport ERRCODE_RAISE_EXCEPTION ''Session was never initialized''), None)"
| "session_spec Session_reset (Some (u, d, p, q)) = (Inr Answer_void, None)"
| "session_spec Session_initialized a = (Inr (Answer_bool (a \<noteq> None)), a)"
| "session_spec Session_get None = (Inl session_missing, None)"
| "session_spec Session_get (Some (u, d, p, q)) = (Inr (Answer_row [d, p, q]), Some (u, d, p, q))"
| "session_spec Session_user None = (Inl session_missing, None)"
| "session_spec Session_user (Some (u, d, p, q)) = (Inr (Answer_text (u @ [CHR 0x00])), Some (u, d, p, q))"

fun session_spec_run :: "session_call list \<Rightarrow> abstract_session \<Rightarrow> session_answer res list \<times> abstract_session" where
  "session_spec_run [] a = ([], a)"
| "session_spec_run (c # cs) a = (case session_spec c a of (r, a1) \<Rightarrow> (case session_spec_run cs a1 of (rs, a2) \<Rightarrow> (r # rs, a2)))"

definition named :: "abstract_session \<Rightarrow> bool" where
  "named a \<longleftrightarrow> (case a of None \<Rightarrow> True | Some (u, _) \<Rightarrow> u \<noteq> [])"

lemma session_spec_named: "named a \<Longrightarrow> named (snd (session_spec c a))"
  by (cases "(c, a)" rule: session_spec.cases) (simp_all add: named_def)

lemma isInitialized_concrete: "named a \<Longrightarrow> isInitialized (concrete a) \<longleftrightarrow> a \<noteq> None"
  by (auto simp: named_def isInitialized_def concrete_def WciSession_new_def split: option.splits)

lemmas session_defs = wciSession_initialize_def wciSession_reset_def wciSession_initialized_def wciSession_get_def
  wciSession_user_def initialize_def reset_def assertInitialized_def report_logic_error_def packSessionData_def
  session_missing_def

lemma session_step_spec:
  assumes "named a"
  shows "session_step c (concrete a) = (case session_spec c a of (r, a1) \<Rightarrow> (r, concrete a1))"
  using isInitialized_concrete [OF assms]
  by (cases "(c, a)" rule: session_spec.cases)
    (simp_all add: session_defs mapS_def bindS_def mapE_def concrete_def WciSession_new_def)

lemma session_run_spec:
  "named a \<Longrightarrow> session_run cs (concrete a) = (case session_spec_run cs a of (rs, a1) \<Rightarrow> (rs, concrete a1))"
proof (induction cs arbitrary: a)
  case (Cons c cs)
  obtain r a1 where c: "session_spec c a = (r, a1)" by (cases "session_spec c a")
  with session_spec_named [OF Cons.prems, of c] have "named a1" by simp
  from Cons.IH [OF this] session_step_spec [OF Cons.prems, of c] c show ?case
    by (cases "session_spec_run cs a1") simp
qed simp

text \<open>C32: the session object behaves like an optional tuple. For every sequence of calls, from the start of the
  connection, the answers are those of the abstract session: the name spaces and the user are exactly those of
  the last successful \<open>setupSession\<close> that no \<open>tearDownSession\<close> followed, without one every access is the
  error that wci has not been initialized, and a call that fails changes nothing.\<close>

theorem session_refines_option:
  "session_run cs WciSession_new = (case session_spec_run cs None of (rs, a) \<Rightarrow> (rs, concrete a))"
  using session_run_spec [of None cs] by (simp add: named_def concrete_def)

section \<open>The command that changes the role\<close>

definition role_name :: "string \<Rightarrow> bool" where
  "role_name r \<longleftrightarrow> (case r of [] \<Rightarrow> False | c # cs \<Rightarrow> isword c \<and> \<not> isdigit c \<and> list_all isword cs)"

lemma role_rx_names: "s \<in> rx_lang False role_rx \<longleftrightarrow> role_name s"
proof -
  have first: "cc_match False (CSet [(CHR ''a'', CHR ''z''), (CHR ''A'', CHR ''Z''), (CHR ''_'', CHR ''_'')]) c \<longleftrightarrow> isword c \<and> \<not> isdigit c" for c
    by (auto simp: isword_def isdigit_def islower_def isupper_def code_def)
  have rest: "cc_match False (CSet [(CHR ''a'', CHR ''z''), (CHR ''A'', CHR ''Z''), (CHR ''_'', CHR ''_''), (CHR ''0'', CHR ''9'')]) c \<longleftrightarrow> isword c" for c
    by (auto simp: isword_def isdigit_def islower_def isupper_def code_def)
  show ?thesis
    unfolding role_rx_def rx_lang_Cat_C rx_lang_star_C first rest role_name_def by (cases s) auto
qed

lemma role_command_eq:
  "role_command x = ''SET ROLE '' @ take 118 x @ (if length x \<le> 117 then '';'' else '''')"
proof -
  have "role_command x = take 127 (''SET ROLE '' @ x @ '';'')" by (simp only: role_command_def bufferSize_def) simp
  also have "\<dots> = ''SET ROLE '' @ take 118 (x @ '';'')" by (simp only: take_append) simp
  also have "take 118 (x @ '';'') = take 118 x @ (if length x \<le> 117 then '';'' else '''')"
    by (auto simp: take_Cons')
  finally show ?thesis .
qed

text \<open>C33: a role name cannot carry SQL. The server is sent nothing but the command \<open>SET ROLE\<close> followed by a name
  that starts with a letter or an underscore and goes on with letters, digits and underscores (118 of its
  characters at most, with the semicolon when there is room for it); every other argument, a null included,
  is its error and no command is sent.\<close>

theorem set_role_commands:
  assumes "documented E"
  shows "wciSession_setRole E spi_connects SPI_execute role =
    (case role of
       None \<Rightarrow> failS (Ereport ERRCODE_NULL_VALUE_NOT_ALLOWED ''Role cannot be NULL'')
     | Some x \<Rightarrow>
         (if \<not> role_name x then failS (Ereport ERRCODE_INVALID_ROLE_SPECIFICATION (''Invalid role name: '' @ x))
          else if \<not> spi_connects then failS (Ereport ERRCODE_CONNECTION_EXCEPTION ''Unable to create SPI connection to database.'')
          else SPI_execute (''SET ROLE '' @ take 118 x @ (if length x \<le> 117 then '';'' else ''''))))"
proof -
  have "regex_match E False role_rx x = None \<longleftrightarrow> \<not> role_name x" for x
    using rx_match_iff [of False role_rx x] role_rx_names [of x] assms by auto
  then show ?thesis
    unfolding wciSession_setRole_def setRole_def role_command_eq by (cases role) simp_all
qed

theorem set_role_commands_witness:
  "wciSession_setRole boost_ref True (\<lambda>cmd log. (Inr (), log @ [cmd])) (Some ''wdb_read'') [] = (Inr (), [''SET ROLE wdb_read;''])
   \<and> fst (wciSession_setRole boost_ref True (\<lambda>cmd log. (Inr (), log @ [cmd])) (Some ''a; DROP TABLE x'') [])
     = Inl (Ereport ERRCODE_INVALID_ROLE_SPECIFICATION ''Invalid role name: a; DROP TABLE x'')"
proof -
  have names: "role_name ''wdb_read''" "\<not> role_name ''a; DROP TABLE x''"
    by (simp_all add: role_name_def isword_def isdigit_def islower_def isupper_def code_def)
  note eq = set_role_commands [OF documented_ref, where spi_connects = True and SPI_execute = "\<lambda>cmd log. (Inr (), log @ [cmd])"]
  show ?thesis unfolding eq using names by simp
qed

end
