(* ===== verification/AdminUsers.thy ===== *)
theory AdminUsers
  imports Prelude Externals
begin

text \<open>
  The operations of the administration program (\<open>src/admin/operations/\<close>): the transactors that create, change
  and drop users, the clean-up transactors, and \<open>AdminOperations\<close>, which performs them over a connection that is
  opened on first use. The PostgreSQL client library, the server behind it and the shell are parameters: the
  record \<open>'s admin_env\<close>, with the server's state \<open>'s\<close>. Log output is left out.
\<close>

section \<open>The client library as a parameter\<close>

record pq_result =
  pq_columns :: "string list"
  pq_rows :: "string list list"

definition no_result :: pq_result where
  "no_result = \<lparr>pq_columns = [], pq_rows = []\<rparr>"

text \<open>What a transactor hands back through its references.\<close>

datatype tx_value = Tx_none | Tx_count int | Tx_table pq_result

text \<open>\<open>exec\<close> runs a statement in a transaction, \<open>esc\<close> escapes a text for a literal, \<open>perform\<close> is
  \<open>pqxx::connection::perform\<close>, \<open>result_at\<close>, \<open>column_name\<close> and \<open>field_to_int\<close> read a result.\<close>

record 's admin_env =
  exec :: "string \<Rightarrow> ('s, pq_result) call"
  esc :: "string \<Rightarrow> string"
  perform :: "('s, tx_value) call \<Rightarrow> 's \<Rightarrow> (unit res \<times> tx_value) \<times> 's"
  open_connection :: "('s, unit) call"
  shell :: "string \<Rightarrow> 's \<Rightarrow> int \<times> 's"
  result_at :: "pq_result \<Rightarrow> nat \<Rightarrow> nat \<Rightarrow> string res"
  column_name :: "pq_result \<Rightarrow> nat \<Rightarrow> string res"
  field_to_int :: "string \<Rightarrow> int res"
  admin_boost :: "unit boost"
  wciUser :: string
  pkglibdir :: string
  wdb_schema :: string
  wci_schema :: string
  printAdditionalInfo :: bool

definition sql_quote :: string where
  "sql_quote = [CHR 0x27]"

definition when_S :: "bool \<Rightarrow> ('s, unit) call \<Rightarrow> ('s, unit) call" where
  "when_S c m = (if c then m else retS ())"

section \<open>Queries on roles\<close>

definition user_query :: "'s admin_env \<Rightarrow> string \<Rightarrow> string" where
  "user_query A userName = ''SELECT usename FROM pg_user WHERE usename='' @ sql_quote @ esc A userName @ sql_quote"

definition roleExists :: "'s admin_env \<Rightarrow> string \<Rightarrow> ('s, bool) call" where
  "roleExists A userName = bindS (exec A (user_query A userName)) (\<lambda>user.
     if pq_rows user = [] then retS False
     else if length (pq_rows user) \<noteq> 1
     then failS (Logic_error (show_nat (length (pq_rows user)) @ ''users returned. This should not be possible.''))
     else retS True)"

definition execute :: "'s admin_env \<Rightarrow> string \<Rightarrow> ('s, unit) call" where
  "execute A q = mapS (\<lambda>_. ()) (exec A q)"

definition revokeRole :: "'s admin_env \<Rightarrow> string \<Rightarrow> string \<Rightarrow> ('s, unit) call" where
  "revokeRole A userName role = execute A (''REVOKE '' @ role @ '' FROM '' @ esc A userName)"

definition grantRole :: "'s admin_env \<Rightarrow> string \<Rightarrow> string \<Rightarrow> ('s, unit) call" where
  "grantRole A userName role = execute A (''GRANT '' @ role @ '' TO '' @ esc A userName)"

section \<open>Changing a user\<close>

definition member_query :: "'s admin_env \<Rightarrow> string \<Rightarrow> string \<Rightarrow> string" where
  "member_query A userName role = ''select * from pg_user where usename = '' @ sql_quote @ esc A userName @ sql_quote
     @ '' AND usesysid IN ( select grolist[s] from (SELECT grolist, generate_subscripts(grolist, 1) as s FROM pg_group where groname = ''
     @ sql_quote @ role @ sql_quote @ '') AS gs )''"

definition has_role :: "'s admin_env \<Rightarrow> string \<Rightarrow> string \<Rightarrow> ('s, bool) call" where
  "has_role A userName role = mapS (\<lambda>r. 0 < length (pq_rows r)) (exec A (member_query A userName role))"

text \<open>Which of the roles for reading, writing and administration the user has.\<close>

definition checkRoles :: "'s admin_env \<Rightarrow> string \<Rightarrow> ('s, bool \<times> bool \<times> bool) call" where
  "checkRoles A userName =
     bindS (has_role A userName ''wdb_read'') (\<lambda>hasRead.
     bindS (has_role A userName ''wdb_write'') (\<lambda>hasWrite.
     bindS (has_role A userName ''wdb_admin'') (\<lambda>hasAdmin. retS (hasAdmin, hasRead, hasWrite))))"

text \<open>The name is escaped twice, here and in \<open>revokeRole\<close>.\<close>

definition revokeRoles :: "'s admin_env \<Rightarrow> string \<Rightarrow> bool \<times> bool \<times> bool \<Rightarrow> bool \<times> bool \<times> bool \<Rightarrow> ('s, unit) call" where
  "revokeRoles A userName = (\<lambda>(admin, read, write) (hasAdmin, hasRead, hasWrite).
     bindS (when_S (\<not> admin \<and> hasAdmin) (revokeRole A (esc A userName) ''wdb_admin'')) (\<lambda>_.
     bindS (when_S (\<not> read \<and> hasRead) (revokeRole A (esc A userName) ''wdb_read'')) (\<lambda>_.
     when_S (\<not> write \<and> hasWrite) (revokeRole A (esc A userName) ''wdb_write''))))"

definition grantRoles :: "'s admin_env \<Rightarrow> string \<Rightarrow> bool \<times> bool \<times> bool \<Rightarrow> bool \<times> bool \<times> bool \<Rightarrow> ('s, unit) call" where
  "grantRoles A userName = (\<lambda>(admin, read, write) (hasAdmin, hasRead, hasWrite).
     bindS (when_S (admin \<and> \<not> hasAdmin) (grantRole A (esc A userName) ''wdb_admin'')) (\<lambda>_.
     bindS (when_S (read \<and> \<not> hasRead) (grantRole A (esc A userName) ''wdb_read'')) (\<lambda>_.
     when_S (write \<and> \<not> hasWrite) (grantRole A (esc A userName) ''wdb_write''))))"

definition ChangeUser :: "'s admin_env \<Rightarrow> string \<Rightarrow> bool \<times> bool \<times> bool \<Rightarrow> ('s, unit) call" where
  "ChangeUser A userName flags = bindS (checkRoles A userName) (\<lambda>has.
     bindS (revokeRoles A userName flags has) (\<lambda>_. grantRoles A userName flags has))"

section \<open>Creating and dropping a user\<close>

definition createRole :: "'s admin_env \<Rightarrow> string \<Rightarrow> ('s, unit) call" where
  "createRole A userName = execute A (''CREATE ROLE '' @ esc A userName @ '' LOGIN'')"

definition createDataProvider :: "'s admin_env \<Rightarrow> string \<Rightarrow> ('s, unit) call" where
  "createDataProvider A userName = execute A (''SELECT wci.addwciuser('' @ sql_quote @ esc A userName @ sql_quote @ '')'')"

definition CreateUser :: "'s admin_env \<Rightarrow> string \<Rightarrow> bool \<times> bool \<times> bool \<Rightarrow> ('s, unit) call" where
  "CreateUser A newUserName flags =
     bindS (execute A (''SELECT wci.begin( '' @ sql_quote @ esc A (wciUser A) @ sql_quote @ '' );'')) (\<lambda>_.
     bindS (roleExists A newUserName) (\<lambda>old.
     bindS (when_S (\<not> old) (bindS (createRole A newUserName) (\<lambda>_. bindS (roleExists A newUserName) (\<lambda>made.
       when_S (\<not> made) (failS (Runtime_error (''Error when trying to create role '' @ newUserName))))))) (\<lambda>_.
     bindS (ChangeUser A newUserName flags) (\<lambda>_. createDataProvider A newUserName))))"

definition DropUser :: "'s admin_env \<Rightarrow> string \<Rightarrow> ('s, unit) call" where
  "DropUser A userName = bindS (roleExists A userName) (\<lambda>old.
     if old then bindS (execute A (''DROP ROLE '' @ esc A userName)) (\<lambda>_. bindS (roleExists A userName) (\<lambda>left.
       when_S left (failS (Runtime_error (''Unable to drop role '' @ userName)))))
     else failS (Runtime_error (''Role '' @ userName @ '' does not exist'')))"

section \<open>Statistics and clean-up\<close>

definition first_count :: "'s admin_env \<Rightarrow> pq_result \<Rightarrow> int res" where
  "first_count A r = bindE (result_at A r 0 0) (field_to_int A)"

definition PerformClean :: "'s admin_env \<Rightarrow> ('s, int) call" where
  "PerformClean A =
     bindS (exec A ''SELECT count(*) FROM admin.blob_v'') (\<lambda>r1.
     bindS (execute A ''SELECT cleanupdb()'') (\<lambda>_.
     bindS (exec A ''SELECT count(*) FROM admin.blob_v'') (\<lambda>r2.
     bindS (liftS (first_count A r1)) (\<lambda>c1. bindS (liftS (first_count A r2)) (\<lambda>c2. retS (c1 - c2))))))"

definition PerformTestClean :: "'s admin_env \<Rightarrow> ('s, int) call" where
  "PerformTestClean A =
     bindS (execute A (''SELECT wci.begin('' @ sql_quote @ esc A (wciUser A) @ sql_quote @ '')'')) (\<lambda>_.
     bindS (exec A ''SELECT count(numberoftuples) FROM wci.browse( NULL::wci.browsedataprovider )'') (\<lambda>r1.
     bindS (execute A ''SELECT test.cleanTestData()'') (\<lambda>_.
     bindS (exec A ''SELECT count(numberoftuples) FROM wci.browse( NULL::wci.browsedataprovider )'') (\<lambda>r2.
     bindS (liftS (first_count A r1)) (\<lambda>c1. bindS (liftS (first_count A r2)) (\<lambda>c2. retS (c1 - c2)))))))"

definition tables_query :: "'s admin_env \<Rightarrow> string" where
  "tables_query A = ''SELECT relname, seq_scan, seq_tup_read, idx_scan, idx_tup_fetch, n_tup_ins, n_tup_upd, n_tup_del FROM pg_stat_all_tables WHERE schemaname=''
     @ sql_quote @ wdb_schema A @ sql_quote @ '' OR schemaname = '' @ sql_quote @ wci_schema A @ sql_quote"

definition ListTables :: "'s admin_env \<Rightarrow> ('s, pq_result) call" where
  "ListTables A = exec A (tables_query A)"

definition indexes_query :: "'s admin_env \<Rightarrow> string" where
  "indexes_query A = ''SELECT indexrelname, idx_scan, idx_tup_read, idx_tup_fetch FROM pg_stat_all_indexes WHERE schemaname=''
     @ sql_quote @ wci_schema A @ sql_quote @ '' OR schemaname='' @ sql_quote @ wdb_schema A @ sql_quote"

definition ListIndexes :: "'s admin_env \<Rightarrow> ('s, pq_result) call" where
  "ListIndexes A = exec A (indexes_query A)"

definition io_query :: "'s admin_env \<Rightarrow> string" where
  "io_query A = ''SELECT relname, heap_blks_read, heap_blks_hit, idx_blks_read, idx_blks_hit, toast_blks_read, toast_blks_hit, tidx_blks_read, tidx_blks_hit FROM pg_statio_all_tables WHERE schemaname=''
     @ sql_quote @ wdb_schema A @ sql_quote @ '' OR schemaname='' @ sql_quote @ wci_schema A @ sql_quote @ '';''"

definition ListIo :: "'s admin_env \<Rightarrow> ('s, pq_result) call" where
  "ListIo A = exec A (io_query A)"

section \<open>The operations\<close>

text \<open>The state of the program: the server, whether the connection is open, what was printed, and what the
  interactive shell remembers.\<close>

record 's admin =
  server :: 's
  connected :: bool
  printed :: string
  lastCommand :: string
  history :: "string list"
  helpText :: string

definition on_server :: "('s, 'x) call \<Rightarrow> ('s admin, 'x) call" where
  "on_server m = zoomS server (\<lambda>t st. st\<lparr>server := t\<rparr>) m"

definition connection :: "'s admin_env \<Rightarrow> ('s admin, unit) call" where
  "connection A = bindS (getS connected) (\<lambda>c. if c then retS ()
     else bindS (on_server (open_connection A)) (\<lambda>_. modifyS (\<lambda>st. st\<lparr>connected := True\<rparr>)))"

text \<open>\<open>connection().perform(t)\<close>: whether it threw, and what the transactor has written through its references,
  which it may have done although the transaction failed in the end.\<close>

definition perform_on :: "'s admin_env \<Rightarrow> ('s, tx_value) call \<Rightarrow> 's admin \<Rightarrow> (unit res \<times> tx_value) \<times> 's admin" where
  "perform_on A t st = (case connection A st of
     (Inl e, st1) \<Rightarrow> ((Inl e, Tx_none), st1)
   | (Inr _, st1) \<Rightarrow> (case perform A t (server st1) of (r, s) \<Rightarrow> (r, st1\<lparr>server := s\<rparr>)))"

text \<open>\<open>try { perform } catch (std::exception \&) { return false; } return true;\<close>\<close>

definition succeeds :: "'s admin_env \<Rightarrow> ('s, unit) call \<Rightarrow> ('s admin, bool) call" where
  "succeeds A t st = (case perform_on A (mapS (\<lambda>_. Tx_none) t) st of
     ((Inr _, w), st1) \<Rightarrow> (Inr True, st1)
   | ((Inl e, w), st1) \<Rightarrow> (if is_std_exception e then (Inr False, st1) else (Inl e, st1)))"

text \<open>The others return what was written, or the initial value, after an exception too.\<close>

definition written :: "'s admin_env \<Rightarrow> ('s, tx_value) call \<Rightarrow> ('s admin, tx_value) call" where
  "written A t st = (case perform_on A t st of
     ((Inr _, w), st1) \<Rightarrow> (Inr w, st1)
   | ((Inl e, w), st1) \<Rightarrow> (if is_std_exception e then (Inr w, st1) else (Inl e, st1)))"

definition performCreateUser :: "'s admin_env \<Rightarrow> string \<Rightarrow> bool \<times> bool \<times> bool \<Rightarrow> ('s admin, bool) call" where
  "performCreateUser A username flags = succeeds A (CreateUser A (to_lower (admin_boost A) username) flags)"

definition performChangeUser :: "'s admin_env \<Rightarrow> string \<Rightarrow> bool \<times> bool \<times> bool \<Rightarrow> ('s admin, bool) call" where
  "performChangeUser A username flags = succeeds A (ChangeUser A (to_lower (admin_boost A) username) flags)"

definition performDropUser :: "'s admin_env \<Rightarrow> string \<Rightarrow> ('s admin, bool) call" where
  "performDropUser A username = succeeds A (DropUser A (to_lower (admin_boost A) username))"

fun table_of :: "tx_value \<Rightarrow> pq_result" where
  "table_of (Tx_table r) = r" | "table_of _ = no_result"

fun count_of :: "tx_value \<Rightarrow> int" where
  "count_of (Tx_count n) = n" | "count_of _ = 0"

definition listTables :: "'s admin_env \<Rightarrow> ('s admin, pq_result) call" where
  "listTables A = mapS table_of (written A (mapS Tx_table (ListTables A)))"

definition listIndexes :: "'s admin_env \<Rightarrow> ('s admin, pq_result) call" where
  "listIndexes A = mapS table_of (written A (mapS Tx_table (ListIndexes A)))"

definition listIo :: "'s admin_env \<Rightarrow> ('s admin, pq_result) call" where
  "listIo A = mapS table_of (written A (mapS Tx_table (ListIo A)))"

definition performTestClean :: "'s admin_env \<Rightarrow> ('s admin, int) call" where
  "performTestClean A = mapS count_of (written A (mapS Tx_count (PerformTestClean A)))"

definition performClean :: "'s admin_env \<Rightarrow> ('s admin, int) call" where
  "performClean A = mapS count_of (written A (mapS Tx_count (PerformClean A)))"

text \<open>The connection of the vacuum is made outside the \<open>try\<close>.\<close>

definition performVacuum :: "'s admin_env \<Rightarrow> ('s admin, bool) call" where
  "performVacuum A = bindS (connection A) (\<lambda>_ st. (case on_server (execute A ''VACUUM ANALYZE'') st of
     (Inr _, st1) \<Rightarrow> (Inr True, st1)
   | (Inl e, st1) \<Rightarrow> (if is_std_exception e then (Inr False, st1) else (Inl e, st1))))"

definition run_shell :: "'s admin_env \<Rightarrow> string \<Rightarrow> string \<Rightarrow> ('s admin, unit) call" where
  "run_shell A cmd problem st = (case shell A cmd (server st) of
     (status, s) \<Rightarrow> (if status \<noteq> 0 then Inl (Runtime_error problem) else Inr (), st\<lparr>server := s\<rparr>))"

definition ops_createDatabase :: "'s admin_env \<Rightarrow> string \<Rightarrow> ('s admin, unit) call" where
  "ops_createDatabase A databaseName =
     run_shell A (pkglibdir A @ ''/install_database -d '' @ databaseName) ''Error when creating database''"

definition ops_dropDatabase :: "'s admin_env \<Rightarrow> string \<Rightarrow> ('s admin, unit) call" where
  "ops_dropDatabase A databaseName =
     run_shell A (pkglibdir A @ ''/uninstall_database -d '' @ databaseName) ''Error when dropping database''"

section \<open>A server with roles\<close>

text \<open>The roles as PostgreSQL (8.4 to 15) keeps them: the roles that can log in, which are those \<open>pg_user\<close>
  shows, and the direct members of each group, which may be roles that cannot log in (\<open>wdbUserDefinitions.in.sql\<close>
  puts \<open>wdb_test NOLOGIN\<close> in \<open>wdb_read\<close>). No other session changes roles in between. The names considered need no
  quotes, are not cut (63 bytes), are not the groups themselves and not words that stand for another role.\<close>

type_synonym roles = "string set \<times> (string \<Rightarrow> string set)"

definition wdb_roles :: "string set" where
  "wdb_roles = {''wdb_admin'', ''wdb_read'', ''wdb_write''}"

definition special_roles :: "string set" where
  "special_roles = {''current_user'', ''session_user'', ''current_role''}"

definition plain :: "string \<Rightarrow> bool" where
  "plain u \<longleftrightarrow> u \<noteq> [] \<and> length u \<le> 63 \<and> list_all (\<lambda>c. islower c \<or> isdigit c \<or> code c = 95) u
     \<and> u \<notin> wdb_roles \<and> u \<notin> special_roles"

definition statement_does :: "'s admin_env \<Rightarrow> ('s \<Rightarrow> roles) \<Rightarrow> string \<Rightarrow> (roles \<Rightarrow> roles) \<Rightarrow> bool" where
  "statement_does A rho q f \<longleftrightarrow> (\<forall>s r s'. exec A q s = (Inr r, s') \<longrightarrow> rho s' = f (rho s))"

definition query_tells :: "'s admin_env \<Rightarrow> ('s \<Rightarrow> roles) \<Rightarrow> string \<Rightarrow> (roles \<Rightarrow> bool) \<Rightarrow> bool" where
  "query_tells A rho q P \<longleftrightarrow> (\<forall>s r s'. exec A q s = (Inr r, s') \<longrightarrow> rho s' = rho s \<and> (pq_rows r \<noteq> [] \<longleftrightarrow> P (rho s)))"

text \<open>The other statements of the program, which do not touch roles, whether they fail or not.\<close>

definition maintenance :: "'s admin_env \<Rightarrow> string set" where
  "maintenance A = {''SELECT count(*) FROM admin.blob_v'', ''SELECT cleanupdb()'', ''SELECT test.cleanTestData()'',
     ''SELECT count(numberoftuples) FROM wci.browse( NULL::wci.browsedataprovider )'', ''VACUUM ANALYZE'',
     ''SELECT wci.begin('' @ sql_quote @ esc A (wciUser A) @ sql_quote @ '')'',
     ''SELECT wci.begin( '' @ sql_quote @ esc A (wciUser A) @ sql_quote @ '' );''}
   \<union> {tables_query A, indexes_query A, io_query A}"

text \<open>A connection performs a transactor as a transaction: after a success the roles are those after the
  statements of one run; after a failure they are those before, or, when the outcome of the commit is in doubt,
  those after a run.\<close>

definition transactional :: "'s admin_env \<Rightarrow> ('s \<Rightarrow> roles) \<Rightarrow> bool" where
  "transactional A rho \<longleftrightarrow> (\<forall>t s r w s'. perform A t s = ((r, w), s') \<longrightarrow>
     (\<exists>s0 x s1. rho s0 = rho s \<and> t s0 = (Inr x, s1) \<and> rho s' = rho s1) \<or> (r \<noteq> Inr () \<and> rho s' = rho s))"

text \<open>The statements on a role. The query of \<open>checkRoles\<close> goes through \<open>pg_user\<close>: it gives no row for a member
  that cannot log in. A statement that fails is not described.\<close>

definition role_statements :: "'s admin_env \<Rightarrow> ('s \<Rightarrow> roles) \<Rightarrow> string \<Rightarrow> bool" where
  "role_statements A rho u \<longleftrightarrow> esc A u = u
     \<and> query_tells A rho (user_query A u) (\<lambda>(U, M). u \<in> U)
     \<and> (\<forall>g \<in> wdb_roles. query_tells A rho (member_query A u g) (\<lambda>(U, M). u \<in> U \<and> u \<in> M g)
          \<and> statement_does A rho (''GRANT '' @ g @ '' TO '' @ u) (\<lambda>(U, M). (U, M(g := insert u (M g))))
          \<and> statement_does A rho (''REVOKE '' @ g @ '' FROM '' @ u) (\<lambda>(U, M). (U, M(g := M g - {u}))))
     \<and> statement_does A rho (''CREATE ROLE '' @ u @ '' LOGIN'') (\<lambda>(U, M). (insert u U, M))
     \<and> statement_does A rho (''DROP ROLE '' @ u) (\<lambda>(U, M). (U - {u}, \<lambda>g. M g - {u}))
     \<and> statement_does A rho (''SELECT wci.addwciuser('' @ sql_quote @ u @ sql_quote @ '')'') (\<lambda>r. r)"

definition role_server :: "'s admin_env \<Rightarrow> ('s \<Rightarrow> roles) \<Rightarrow> bool" where
  "role_server A rho \<longleftrightarrow> (\<forall>u. plain u \<longrightarrow> role_statements A rho u) \<and> transactional A rho
     \<and> (\<forall>q \<in> maintenance A. \<forall>s. rho (snd (exec A q s)) = rho s)
     \<and> (\<forall>s. rho (snd (open_connection A s)) = rho s)"

lemma role_serverD:
  assumes "role_server A rho"
  shows "plain u \<Longrightarrow> role_statements A rho u" "transactional A rho"
    "q \<in> maintenance A \<Longrightarrow> exec A q s = (r, s') \<Longrightarrow> rho s' = rho s"
    "open_connection A s = (rc, s') \<Longrightarrow> rho s' = rho s"
proof -
  show "plain u \<Longrightarrow> role_statements A rho u" "transactional A rho" using assms by (simp_all add: role_server_def)
  have "q \<in> maintenance A \<Longrightarrow> rho (snd (exec A q s)) = rho s" and "rho (snd (open_connection A s)) = rho s"
    using assms by (simp_all add: role_server_def)
  then show "q \<in> maintenance A \<Longrightarrow> exec A q s = (r, s') \<Longrightarrow> rho s' = rho s"
    and "open_connection A s = (rc, s') \<Longrightarrow> rho s' = rho s" by simp_all
qed

section \<open>What the transactors do\<close>

text \<open>The groups of a role as requested. A role that \<open>pg_user\<close> does not show is put in groups, but never taken out.\<close>

definition set_member :: "bool \<Rightarrow> bool \<Rightarrow> string \<Rightarrow> string set \<Rightarrow> string set" where
  "set_member b known u G = (if b then insert u G else if known then G - {u} else G)"

definition requested :: "bool \<times> bool \<times> bool \<Rightarrow> bool \<Rightarrow> string \<Rightarrow> (string \<Rightarrow> string set) \<Rightarrow> string \<Rightarrow> string set" where
  "requested = (\<lambda>(admin, read, write) known u M. M(
     ''wdb_admin'' := set_member admin known u (M ''wdb_admin''),
     ''wdb_read'' := set_member read known u (M ''wdb_read''),
     ''wdb_write'' := set_member write known u (M ''wdb_write'')))"

lemma statementD: "statement_does A rho q f \<Longrightarrow> execute A q s = (Inr x, s') \<Longrightarrow> rho s' = f (rho s)"
  by (auto simp: statement_does_def execute_def mapS_eq_Inr)

lemma when_S_Inr: "when_S c m s = (Inr x, s') \<longleftrightarrow> (if c then m s = (Inr x, s') else s' = s)"
  by (auto simp: when_S_def)

lemma roleExists_does:
  assumes "role_statements A rho u" and "roleExists A u s = (Inr b, s')"
  shows "rho s' = rho s \<and> (b \<longleftrightarrow> u \<in> fst (rho s))"
proof -
  from assms(2) obtain r s1 where q: "exec A (user_query A u) s = (Inr r, s1)" and "s' = s1" "b \<longleftrightarrow> pq_rows r \<noteq> []"
    by (auto simp: roleExists_def bindS_eq_Inr split: if_splits)
  with assms(1) show ?thesis
    by (auto simp: role_statements_def query_tells_def split_beta)
qed

lemma has_role_does:
  assumes "role_statements A rho u" and "g \<in> wdb_roles" and "has_role A u g s = (Inr b, s')"
  shows "rho s' = rho s \<and> (b \<longleftrightarrow> u \<in> fst (rho s) \<and> u \<in> snd (rho s) g)"
proof -
  from assms(3) obtain r where "exec A (member_query A u g) s = (Inr r, s')" "b \<longleftrightarrow> pq_rows r \<noteq> []"
    by (auto simp: has_role_def mapS_eq_Inr)
  with assms(1,2) show ?thesis
    by (auto simp: role_statements_def query_tells_def split_beta)
qed

lemma wdb_roles_mem [simp]: "''wdb_admin'' \<in> wdb_roles" "''wdb_read'' \<in> wdb_roles" "''wdb_write'' \<in> wdb_roles"
  by (simp_all add: wdb_roles_def)

lemma revoke_does:
  assumes "role_statements A rho u" and "g \<in> wdb_roles"
    and "when_S c (revokeRole A (esc A u) g) s = (Inr x, s')"
  shows "rho s' = (fst (rho s), (snd (rho s))(g := if c then snd (rho s) g - {u} else snd (rho s) g))"
  using assms by (auto simp: role_statements_def when_S_Inr revokeRole_def split_beta dest!: statementD split: if_splits)

lemma grant_does:
  assumes "role_statements A rho u" and "g \<in> wdb_roles"
    and "when_S c (grantRole A (esc A u) g) s = (Inr x, s')"
  shows "rho s' = (fst (rho s), (snd (rho s))(g := if c then insert u (snd (rho s) g) else snd (rho s) g))"
  using assms by (auto simp: role_statements_def when_S_Inr grantRole_def split_beta dest!: statementD split: if_splits)

lemma checkRoles_does:
  assumes "role_statements A rho u" and "checkRoles A u s = (Inr has, s')"
  shows "rho s' = rho s \<and> has = (u \<in> fst (rho s) \<and> u \<in> snd (rho s) ''wdb_admin'', u \<in> fst (rho s) \<and> u \<in> snd (rho s) ''wdb_read'',
    u \<in> fst (rho s) \<and> u \<in> snd (rho s) ''wdb_write'')"
  using assms(2) unfolding checkRoles_def
  by (auto simp: bindS_eq_Inr dest!: has_role_does [OF assms(1), rotated])

lemma revokeRoles_does:
  assumes "role_statements A rho u" and "revokeRoles A u (a, rd, w) (ha, hr, hw) s = (Inr x, s')"
  shows "rho s' = (fst (rho s), (snd (rho s))(
     ''wdb_admin'' := if \<not> a \<and> ha then snd (rho s) ''wdb_admin'' - {u} else snd (rho s) ''wdb_admin'',
     ''wdb_read'' := if \<not> rd \<and> hr then snd (rho s) ''wdb_read'' - {u} else snd (rho s) ''wdb_read'',
     ''wdb_write'' := if \<not> w \<and> hw then snd (rho s) ''wdb_write'' - {u} else snd (rho s) ''wdb_write''))"
proof -
  from assms(2) obtain s1 s2
    where "when_S (\<not> a \<and> ha) (revokeRole A (esc A u) ''wdb_admin'') s = (Inr (), s1)"
      and "when_S (\<not> rd \<and> hr) (revokeRole A (esc A u) ''wdb_read'') s1 = (Inr (), s2)"
      and "when_S (\<not> w \<and> hw) (revokeRole A (esc A u) ''wdb_write'') s2 = (Inr (), s')"
    by (auto simp: revokeRoles_def bindS_eq_Inr)
  from this [THEN revoke_does [OF assms(1), rotated]] show ?thesis by (simp cong: if_cong split del: if_split)
qed

lemma grantRoles_does:
  assumes "role_statements A rho u" and "grantRoles A u (a, rd, w) (ha, hr, hw) s = (Inr x, s')"
  shows "rho s' = (fst (rho s), (snd (rho s))(
     ''wdb_admin'' := if a \<and> \<not> ha then insert u (snd (rho s) ''wdb_admin'') else snd (rho s) ''wdb_admin'',
     ''wdb_read'' := if rd \<and> \<not> hr then insert u (snd (rho s) ''wdb_read'') else snd (rho s) ''wdb_read'',
     ''wdb_write'' := if w \<and> \<not> hw then insert u (snd (rho s) ''wdb_write'') else snd (rho s) ''wdb_write''))"
proof -
  from assms(2) obtain s1 s2
    where "when_S (a \<and> \<not> ha) (grantRole A (esc A u) ''wdb_admin'') s = (Inr (), s1)"
      and "when_S (rd \<and> \<not> hr) (grantRole A (esc A u) ''wdb_read'') s1 = (Inr (), s2)"
      and "when_S (w \<and> \<not> hw) (grantRole A (esc A u) ''wdb_write'') s2 = (Inr (), s')"
    by (auto simp: grantRoles_def bindS_eq_Inr)
  from this [THEN grant_does [OF assms(1), rotated]] show ?thesis by (simp cong: if_cong split del: if_split)
qed

lemma set_member_steps:
  "(if b \<and> (u \<in> U \<longrightarrow> u \<notin> G) then insert u G
    else if \<not> b \<and> u \<in> U \<and> u \<in> G then G - {u} else G) = set_member b (u \<in> U) u G"
  by (auto simp: set_member_def)

lemma ChangeUser_does:
  assumes "role_statements A rho u" and "ChangeUser A u flags s = (Inr x, s')"
  shows "rho s' = (fst (rho s), requested flags (u \<in> fst (rho s)) u (snd (rho s)))"
proof -
  obtain a rd w where flags: "flags = (a, rd, w)" by (cases flags)
  from assms(2) obtain has s1 s2 where check: "checkRoles A u s = (Inr has, s1)"
    and steps: "revokeRoles A u flags has s1 = (Inr (), s2)" "grantRoles A u flags has s2 = (Inr (), s')"
    by (auto simp: ChangeUser_def bindS_eq_Inr)
  from checkRoles_does [OF assms(1) check]
  have s1: "rho s1 = rho s" and has: "has = (u \<in> fst (rho s) \<and> u \<in> snd (rho s) ''wdb_admin'',
      u \<in> fst (rho s) \<and> u \<in> snd (rho s) ''wdb_read'', u \<in> fst (rho s) \<and> u \<in> snd (rho s) ''wdb_write'')"
    by simp_all
  from revokeRoles_does [OF assms(1) steps(1) [unfolded flags has]] grantRoles_does [OF assms(1) steps(2) [unfolded flags has]] s1
  show ?thesis by (simp add: flags requested_def set_member_steps cong: if_cong split del: if_split)
qed

lemma CreateUser_does:
  assumes "role_server A rho" and "plain u" and "CreateUser A u flags s = (Inr x, s')"
  shows "rho s' = (insert u (fst (rho s)), requested flags True u (snd (rho s)))"
proof -
  note u = role_serverD(1) [OF assms(1,2)]
  then have esc: "esc A u = u" by (simp add: role_statements_def)
  from assms(3) obtain s1 old s2 s3 s4
    where start: "execute A (''SELECT wci.begin( '' @ sql_quote @ esc A (wciUser A) @ sql_quote @ '' );'') s = (Inr (), s1)"
      and old: "roleExists A u s1 = (Inr old, s2)"
      and made: "when_S (\<not> old) (bindS (createRole A u) (\<lambda>_. bindS (roleExists A u) (\<lambda>made.
         when_S (\<not> made) (failS (Runtime_error (''Error when trying to create role '' @ u)))))) s2 = (Inr (), s3)"
      and change: "ChangeUser A u flags s3 = (Inr (), s4)" and prov: "createDataProvider A u s4 = (Inr x, s')"
    by (auto simp: CreateUser_def bindS_eq_Inr)
  have "rho s1 = rho s"
    using start role_serverD(3) [OF assms(1)] by (auto simp: execute_def mapS_eq_Inr maintenance_def)
  moreover have "rho s2 = rho s1" "old \<longleftrightarrow> u \<in> fst (rho s1)" using roleExists_does [OF u old] by simp_all
  moreover have "rho s3 = (insert u (fst (rho s2)), snd (rho s2))"
  proof (cases old)
    case True
    with made calculation show ?thesis by (simp add: when_S_Inr insert_absorb)
  next
    case False
    with made obtain t made' where "createRole A u s2 = (Inr (), t)" "roleExists A u t = (Inr made', s3)"
      by (auto simp: when_S_def bindS_eq_Inr split: if_splits)
    with roleExists_does [OF u this(2)] u esc show ?thesis
      by (auto simp: createRole_def role_statements_def split_beta dest!: statementD)
  qed
  moreover have "rho s4 = (fst (rho s3), requested flags (u \<in> fst (rho s3)) u (snd (rho s3)))" by (rule ChangeUser_does [OF u change])
  moreover have "rho s' = rho s4"
    using prov u esc by (auto simp: createDataProvider_def role_statements_def dest!: statementD)
  ultimately show ?thesis by simp
qed

lemma DropUser_does:
  assumes "role_server A rho" and "plain u" and "DropUser A u s = (Inr x, s')"
  shows "u \<in> fst (rho s) \<and> rho s' = (fst (rho s) - {u}, \<lambda>g. snd (rho s) g - {u})"
proof -
  note u = role_serverD(1) [OF assms(1,2)]
  then have esc: "esc A u = u" by (simp add: role_statements_def)
  from assms(3) obtain s1 s2 left where old: "roleExists A u s = (Inr True, s1)"
    and drop: "execute A (''DROP ROLE '' @ esc A u) s1 = (Inr (), s2)" and left: "roleExists A u s2 = (Inr left, s')"
    by (auto simp: DropUser_def bindS_eq_Inr when_S_def split: if_splits)
  from roleExists_does [OF u old] roleExists_does [OF u left] drop u esc show ?thesis
    by (auto simp: role_statements_def split_beta dest!: statementD)
qed

section \<open>What the operations do\<close>

lemma perform_on_does:
  assumes "role_server A rho" and "perform_on A t st = ((r, w), st')"
  shows "(\<exists>s0 x s1. rho s0 = rho (server st) \<and> t s0 = (Inr x, s1) \<and> rho (server st') = rho s1)
    \<or> (r \<noteq> Inr () \<and> rho (server st') = rho (server st))"
proof -
  obtain c st1 where c: "connection A st = (c, st1)" by (cases "connection A st")
  then have same: "rho (server st1) = rho (server st)"
    using role_serverD(4) [OF assms(1)]
    by (auto simp: connection_def bindS_def on_server_def zoomS_def split: if_splits prod.splits sum.splits)
  show ?thesis
  proof (cases c)
    case (Inl e)
    with assms(2) c same show ?thesis by (auto simp: perform_on_def)
  next
    case (Inr y)
    obtain r' w' s' where p: "perform A t (server st1) = ((r', w'), s')" by (metis prod.exhaust)
    with assms(2) c Inr have eq: "r = r'" "st' = st1\<lparr>server := s'\<rparr>" by (simp_all add: perform_on_def)
    from role_serverD(2) [OF assms(1)] p
    have "(\<exists>s0 x s1. rho s0 = rho (server st1) \<and> t s0 = (Inr x, s1) \<and> rho s' = rho s1) \<or> (r' \<noteq> Inr () \<and> rho s' = rho (server st1))"
      unfolding transactional_def by blast
    with same eq show ?thesis by simp
  qed
qed

lemma succeeds_does:
  assumes "role_server A rho" and "\<And>s x s'. t s = (Inr x, s') \<Longrightarrow> rho s' = f (rho s)"
    and "succeeds A t st = (r, st')"
  shows "rho (server st') = f (rho (server st)) \<or> (r \<noteq> Inr True \<and> rho (server st') = rho (server st))"
proof -
  obtain o' w st1 where p: "perform_on A (mapS (\<lambda>_. Tx_none) t) st = ((o', w), st1)" by (metis prod.exhaust)
  then have st': "st' = st1" "o' \<noteq> Inr () \<Longrightarrow> r \<noteq> Inr True"
    using assms(3) by (auto simp: succeeds_def split: sum.splits if_splits)
  from perform_on_does [OF assms(1) p] assms(2) st' show ?thesis by (fastforce simp: mapS_eq_Inr)
qed

end
