(* ===== verification/AdminShell.thy ===== *)
theory AdminShell
  imports AdminUsers
begin

text \<open>
  The command line of the administration program (\<open>src/admin/ui/cmdLine/\<close>): the printed results of the
  operations, the commands with their arguments, the interactive loop and \<open>main\<close>. A line of the terminal is an
  optional string (none at its end); the history file, the limit of the history and the signal handler are left
  to the readline library.
\<close>

section \<open>Output\<close>

definition newline :: string where
  "newline = [CHR 0x0A]"

definition tab :: string where
  "tab = [CHR 0x09]"

definition print :: "string \<Rightarrow> ('s admin, unit) call" where
  "print t = modifyS (\<lambda>st. st\<lparr>printed := printed st @ t\<rparr>)"

definition info :: "string \<Rightarrow> ('s admin, unit) call" where
  "info t = print (t @ newline)"

definition setw :: "nat \<Rightarrow> string \<Rightarrow> string" where
  "setw n t = replicate (n - length t) CHR '' '' @ t"

definition report :: "('s admin, bool) call \<Rightarrow> string \<Rightarrow> string \<Rightarrow> ('s admin, bool) call" where
  "report m good bad = bindS m (\<lambda>ok. bindS (print ((if ok then good else bad) @ newline)) (\<lambda>_. retS ok))"

definition out_createUser :: "'s admin_env \<Rightarrow> string \<Rightarrow> bool \<times> bool \<times> bool \<Rightarrow> ('s admin, bool) call" where
  "out_createUser A user flags = report (performCreateUser A user flags)
     (''User '' @ user @ '' created'') (''Error when attempting to create user '' @ user)"

definition out_changeUser :: "'s admin_env \<Rightarrow> string \<Rightarrow> bool \<times> bool \<times> bool \<Rightarrow> ('s admin, bool) call" where
  "out_changeUser A user flags = report (performChangeUser A user flags)
     (''User '' @ user @ '' modified'') ''Error when attempting to change user''"

definition out_dropUser :: "'s admin_env \<Rightarrow> string \<Rightarrow> ('s admin, bool) call" where
  "out_dropUser A user = report (performDropUser A user)
     (''User '' @ user @ '' deleted'') (''Unable to drop user '' @ user)"

text \<open>A line of a table: the first column 30 wide, the others 10.\<close>

definition print_row :: "(nat \<Rightarrow> string res) \<Rightarrow> nat \<Rightarrow> ('s admin, unit) call" where
  "print_row cell n =
     bindS (liftS (cell 0)) (\<lambda>t. bindS (print (setw 30 t @ tab)) (\<lambda>_.
     bindS (forS [1..<n] (\<lambda>i. bindS (liftS (cell i)) (\<lambda>t. print (setw 10 t @ tab)))) (\<lambda>_. print newline)))"

definition print_stats :: "'s admin_env \<Rightarrow> pq_result \<Rightarrow> ('s admin, bool) call" where
  "print_stats A R = (let n = length (pq_columns R);
       rows = bindS (forS [0..<length (pq_rows R)] (\<lambda>k. print_row (result_at A R k) n)) (\<lambda>_. retS True)
     in if printAdditionalInfo A
        then bindS (print_row (column_name A R) n) (\<lambda>_.
          if pq_rows R = [] then bindS (info ''<No data>'') (\<lambda>_. retS True) else rows)
        else rows)"

definition out_listStats :: "'s admin_env \<Rightarrow> string \<Rightarrow> ('s admin, bool) call" where
  "out_listStats A kind =
     (if kind = ''table'' then bindS (listTables A) (print_stats A)
      else if kind = ''index'' then bindS (listIndexes A) (print_stats A)
      else if kind = ''io'' then bindS (listIo A) (print_stats A)
      else bindS (info ''Usage: stats <table|index|io>'') (\<lambda>_. retS False))"

definition out_testClean :: "'s admin_env \<Rightarrow> ('s admin, bool) call" where
  "out_testClean A = bindS (performTestClean A) (\<lambda>rows.
     bindS (info (''Database cleaned. '' @ show_int rows @ '' rows removed.'')) (\<lambda>_. retS True))"

definition info_if :: "bool \<Rightarrow> string \<Rightarrow> ('s admin, unit) call" where
  "info_if c t = (if c then info t else retS ())"

definition out_vacuum :: "'s admin_env \<Rightarrow> ('s admin, bool) call" where
  "out_vacuum A =
     bindS (info_if (printAdditionalInfo A) ''Cleaning WDB system...'') (\<lambda>_.
     bindS (performClean A) (\<lambda>rows.
     bindS (info_if (printAdditionalInfo A) (show_int rows @ '' data objects were cleaned from the database.'')) (\<lambda>_.
     bindS (info_if (printAdditionalInfo A) ''Starting database vacuum...'') (\<lambda>_.
     bindS (performVacuum A) (\<lambda>ok.
     bindS (info_if (ok \<and> printAdditionalInfo A) ''Vacuum completed.'') (\<lambda>_. retS True))))))"

text \<open>\<open>catch (std::exception \& e)\<close> with the text printed.\<close>

definition catch_print :: "('s admin, unit) call \<Rightarrow> ('s admin, bool) call" where
  "catch_print m st = (case m st of
     (Inr _, st1) \<Rightarrow> (Inr True, st1)
   | (Inl e, st1) \<Rightarrow> (if is_std_exception e then bindS (info (what e)) (\<lambda>_. retS False) st1 else (Inl e, st1)))"

definition out_createDatabase :: "'s admin_env \<Rightarrow> string \<Rightarrow> ('s admin, bool) call" where
  "out_createDatabase A databaseName = catch_print (
     bindS (info_if (printAdditionalInfo A) (''Attempting to create database <'' @ databaseName @ ''>...'')) (\<lambda>_.
     bindS (ops_createDatabase A databaseName) (\<lambda>_.
     info (''Successfully created wdb database <'' @ databaseName @ ''>''))))"

definition out_dropDatabase :: "'s admin_env \<Rightarrow> string \<Rightarrow> ('s admin, bool) call" where
  "out_dropDatabase A databaseName = catch_print (
     bindS (ops_dropDatabase A databaseName) (\<lambda>_.
     info (''Successfully dropped wdb database <'' @ databaseName @ ''>'')))"

section \<open>The commands\<close>

datatype command = HelpCommand | QuitCommand | CreateUserCommand | ChangeUserCommand | DropUserCommand
  | StatsCommand | TestCleanCommand | VacuumCommand | CreateDatabaseCommand | DropDatabaseCommand

text \<open>What a command ends with: its result, or the exception that ends the program.\<close>

datatype outcome = Done bool | EndOfFileInput

definition finish :: "('s admin, bool) call \<Rightarrow> ('s admin, outcome) call" where
  "finish m = mapS Done m"

definition refuse :: "string \<Rightarrow> ('s admin, outcome) call" where
  "refuse t = bindS (info t) (\<lambda>_. retS (Done False))"

text \<open>The options after the user name; the first invalid one is reported as it was typed.\<close>

fun create_options :: "string list \<Rightarrow> bool \<times> bool \<times> bool \<Rightarrow> string + (bool \<times> bool \<times> bool)" where
  "create_options [] flags = Inr flags"
| "create_options (x # xs) (admin, read, write) =
     (if lowercase x = ''admin'' then create_options xs (True, read, write)
      else if lowercase x = ''write'' then create_options xs (admin, read, True)
      else if lowercase x = ''noread'' then create_options xs (admin, False, write)
      else Inl x)"

fun change_options :: "string list \<Rightarrow> bool \<times> bool \<times> bool \<Rightarrow> string + (bool \<times> bool \<times> bool)" where
  "change_options [] flags = Inr flags"
| "change_options (x # xs) (admin, read, write) =
     (if lowercase x = ''admin'' then change_options xs (True, read, write)
      else if lowercase x = ''write'' then change_options xs (admin, read, True)
      else if lowercase x = ''read'' then change_options xs (admin, True, write)
      else Inl x)"

definition create_usage :: string where
  "create_usage = ''Usage: createuser username [admin] [write] [noread] ''"

definition change_usage :: string where
  "change_usage = ''Usage: changeuser username [admin] [write] [read] ''"

definition run_createUser :: "'s admin_env \<Rightarrow> string list \<Rightarrow> ('s admin, outcome) call" where
  "run_createUser A input = (if length input < 2 then refuse create_usage
     else (case create_options (drop 2 input) (False, True, False) of
         Inl bad \<Rightarrow> bindS (info (''Invalid option: '' @ bad)) (\<lambda>_. refuse create_usage)
       | Inr flags \<Rightarrow> finish (out_createUser A (input ! 1) flags)))"

definition run_changeUser :: "'s admin_env \<Rightarrow> string list \<Rightarrow> ('s admin, outcome) call" where
  "run_changeUser A input = (if length input < 2 then refuse change_usage
     else (case change_options (drop 2 input) (False, False, False) of
         Inl bad \<Rightarrow> bindS (info (''Invalid option: '' @ bad)) (\<lambda>_. refuse change_usage)
       | Inr flags \<Rightarrow> finish (out_changeUser A (input ! 1) flags)))"

definition run_dropUser :: "'s admin_env \<Rightarrow> string list \<Rightarrow> ('s admin, outcome) call" where
  "run_dropUser A input = (if length input \<noteq> 2 then refuse ''Usage: dropuser username ''
     else finish (out_dropUser A (input ! 1)))"

definition run_stats :: "'s admin_env \<Rightarrow> string list \<Rightarrow> ('s admin, outcome) call" where
  "run_stats A input = (if length input \<noteq> 2 then refuse ''Usage: stats <table|index|io>''
     else finish (out_listStats A (lowercase (input ! 1))))"

definition run_testClean :: "'s admin_env \<Rightarrow> string list \<Rightarrow> ('s admin, outcome) call" where
  "run_testClean A input = (if length input \<noteq> 1 then refuse ''No arguments required for this command''
     else finish (out_testClean A))"

definition run_vacuum :: "'s admin_env \<Rightarrow> string list \<Rightarrow> ('s admin, outcome) call" where
  "run_vacuum A input = (if length input \<noteq> 1 then refuse ''No arguments required for this command''
     else finish (out_vacuum A))"

definition run_createDatabase :: "'s admin_env \<Rightarrow> string list \<Rightarrow> ('s admin, outcome) call" where
  "run_createDatabase A input = (if length input \<noteq> 2 then refuse ''Usage: createdb NAME''
     else finish (out_createDatabase A (input ! 1)))"

definition run_dropDatabase :: "'s admin_env \<Rightarrow> string list \<Rightarrow> ('s admin, outcome) call" where
  "run_dropDatabase A input = (if length input \<noteq> 2 then refuse ''Usage: dropdb NAME''
     else finish (out_dropDatabase A (input ! 1)))"

section \<open>The list of commands\<close>

text \<open>\<open>std::map\<close> from names to commands, in the order of the names.\<close>

fun name_less :: "string \<Rightarrow> string \<Rightarrow> bool" where
  "name_less [] t = (t \<noteq> [])"
| "name_less (c # s) [] = False"
| "name_less (c # s) (d # t) = (code c < code d \<or> (c = d \<and> name_less s t))"

fun map_put :: "string \<Rightarrow> 'v \<Rightarrow> (string \<times> 'v) list \<Rightarrow> (string \<times> 'v) list" where
  "map_put k v [] = [(k, v)]"
| "map_put k v ((l, w) # m) = (if k = l then (k, v) # m
     else if name_less k l then (k, v) # (l, w) # m else (l, w) # map_put k v m)"

definition commands_ordered :: "(string \<times> command) list" where
  "commands_ordered = fold (\<lambda>(k, v). map_put k v)
     [(''help'', HelpCommand), (''?'', HelpCommand), (''quit'', QuitCommand), (''q'', QuitCommand),
      (''createuser'', CreateUserCommand), (''changeuser'', ChangeUserCommand), (''dropuser'', DropUserCommand),
      (''stats'', StatsCommand), (''testclean'', TestCleanCommand), (''vacuum'', VacuumCommand),
      (''createdb'', CreateDatabaseCommand), (''dropdb'', DropDatabaseCommand)] []"

fun command_help :: "command \<Rightarrow> string" where
  "command_help QuitCommand = ''Quit program''"
| "command_help CreateUserCommand = ''Create WDB User (usage: createuser username [admin] [write] [noread])''"
| "command_help ChangeUserCommand = ''Change WDB user attributes (usage: changeuser username [admin] [write] [noread])''"
| "command_help DropUserCommand = ''Delete WDB User (usage: dropuser username)''"
| "command_help StatsCommand = ''Display database stats (usage: stats <table|index|io>)''"
| "command_help TestCleanCommand = ''Clean the database of all test data (usage: testClean)''"
| "command_help VacuumCommand = ''Vacuum the database (usage: vacuum)''"
| "command_help HelpCommand = ''Display this help''"
| "command_help CreateDatabaseCommand = ''Create a new wdb database instance. (Usage: createdb NAME)''"
| "command_help DropDatabaseCommand = ''Drop a wdb database instance. (Usage: dropdb NAME)''"

definition help_line :: "string \<times> command \<Rightarrow> string" where
  "help_line kc = fst kc @ (if length (fst kc) < 8 then tab else []) @ tab @ ''  '' @ command_help (snd kc) @ newline"

definition help_text :: string where
  "help_text = ''Available functions'' @ newline
     @ concat (map help_line (filter (\<lambda>(k, c). 1 < length k \<and> k \<noteq> ''help'' \<and> k \<noteq> ''quit'') commands_ordered))
     @ (case map_of commands_ordered ''quit'' of None \<Rightarrow> [] | Some c \<Rightarrow> help_line (''quit'', c))"

text \<open>The text is made once.\<close>

definition run_help :: "('s admin, outcome) call" where
  "run_help = bindS (modifyS (\<lambda>st. if helpText st = [] then st\<lparr>helpText := help_text\<rparr> else st)) (\<lambda>_.
     bindS (getS helpText) (\<lambda>t. bindS (info t) (\<lambda>_. retS (Done True))))"

fun run_command :: "'s admin_env \<Rightarrow> command \<Rightarrow> string list \<Rightarrow> ('s admin, outcome) call" where
  "run_command A HelpCommand input = run_help"
| "run_command A QuitCommand input = retS EndOfFileInput"
| "run_command A CreateUserCommand input = run_createUser A input"
| "run_command A ChangeUserCommand input = run_changeUser A input"
| "run_command A DropUserCommand input = run_dropUser A input"
| "run_command A StatsCommand input = run_stats A input"
| "run_command A TestCleanCommand input = run_testClean A input"
| "run_command A VacuumCommand input = run_vacuum A input"
| "run_command A CreateDatabaseCommand input = run_createDatabase A input"
| "run_command A DropDatabaseCommand input = run_dropDatabase A input"

definition run_line :: "'s admin_env \<Rightarrow> string list \<Rightarrow> ('s admin, outcome) call" where
  "run_line A input = (case input of
     [] \<Rightarrow> failS (Undefined ''front of an empty vector'')
   | base # _ \<Rightarrow> (case map_of commands_ordered (lowercase base) of
       Some c \<Rightarrow> run_command A c input
     | None \<Rightarrow> bindS (info (''Unrecognized command: '' @ lowercase base)) (\<lambda>_. retS (Done False))))"

section \<open>The interactive loop\<close>

text \<open>None at the end of the terminal, otherwise the words of the line; a line with blanks only has none.\<close>

definition readLine :: "'s admin_env \<Rightarrow> string option \<Rightarrow> ('s admin, string list option) call" where
  "readLine A input = (case input of
     None \<Rightarrow> bindS (info '''') (\<lambda>_. retS None)
   | Some line \<Rightarrow>
       (let cmd = trim (admin_boost A) line
        in if cmd = [] then retS (Some [])
           else bindS (modifyS (\<lambda>st. if lastCommand st \<noteq> cmd then st\<lparr>history := history st @ [line]\<rparr> else st)) (\<lambda>_.
                bindS (modifyS (\<lambda>st. st\<lparr>lastCommand := cmd\<rparr>)) (\<lambda>_. retS (Some (split (admin_boost A) isspace cmd))))))"

text \<open>One turn of the loop: whether it goes on. Past the given lines the terminal is at its end.\<close>

definition shell_turn :: "'s admin_env \<Rightarrow> string option \<Rightarrow> ('s admin, bool) call" where
  "shell_turn A input st = (case bindS (readLine A input) (\<lambda>c. case c of
       None \<Rightarrow> retS EndOfFileInput
     | Some [] \<Rightarrow> retS (Done True)
     | Some words \<Rightarrow> run_line A words) st of
     (Inr (Done b), st1) \<Rightarrow> (Inr True, st1)
   | (Inr EndOfFileInput, st1) \<Rightarrow> (Inr False, st1)
   | (Inl e, st1) \<Rightarrow> (if is_std_exception e then bindS (info (what e)) (\<lambda>_. retS True) st1 else (Inl e, st1)))"

fun shell_loop :: "'s admin_env \<Rightarrow> string list \<Rightarrow> ('s admin, unit) call" where
  "shell_loop A [] = mapS (\<lambda>_. ()) (shell_turn A None)"
| "shell_loop A (line # rest) = bindS (shell_turn A (Some line)) (\<lambda>go. if go then shell_loop A rest else retS ())"

definition shell_run :: "'s admin_env \<Rightarrow> string list \<Rightarrow> ('s admin, unit) call" where
  "shell_run A input = bindS (info ''wdb administration'') (\<lambda>_.
     bindS (info ''===================================='') (\<lambda>_.
     bindS (info ''Type <help> to get help'') (\<lambda>_. shell_loop A input)))"

text \<open>\<open>main\<close> after the configuration was read: the status of the program.\<close>

definition admin_main :: "'s admin_env \<Rightarrow> string list \<Rightarrow> string list \<Rightarrow> ('s admin, int) call" where
  "admin_main A commands input st = (case (if commands = [] then mapS (\<lambda>_. Done True) (shell_run A input) else run_line A commands) st of
     (Inr (Done b), st1) \<Rightarrow> (Inr (if b then 0 else 1), st1)
   | (Inr EndOfFileInput, st1) \<Rightarrow> (Inr 0, st1)
   | (Inl e, st1) \<Rightarrow> (if is_std_exception e then (Inr 1, st1) else (Inl e, st1)))"

section \<open>What a command does to the roles\<close>

lemma print_server [simp]: "print t st = (Inr (), st\<lparr>printed := printed st @ t\<rparr>)"
  by (simp add: print_def)

lemma report_does:
  assumes "report m good bad st = (r, st')"
  shows "\<exists>st1. m st = (r, st1) \<and> server st' = server st1"
  using assms by (auto simp: report_def bindS_def split: prod.splits sum.splits if_splits)

lemma finish_does: "finish m st = (r, st') \<Longrightarrow> \<exists>r0. m st = (r0, st') \<and> (r = Inr (Done True) \<longleftrightarrow> r0 = Inr True)"
  by (auto simp: finish_def mapS_def mapE_def split: prod.splits sum.splits)

lemma info_server [simp]: "info t st = (Inr (), st\<lparr>printed := printed st @ t @ newline\<rparr>)"
  by (simp add: info_def)

lemma refuse_does: "refuse t st = (Inr (Done False), st\<lparr>printed := printed st @ t @ newline\<rparr>)"
  by (simp add: refuse_def bindS_def)

text \<open>Effects on the roles: \<open>f\<close> when the operation succeeds, \<open>f\<close> or nothing when it does not.\<close>

definition role_effect :: "('s \<Rightarrow> roles) \<Rightarrow> ('s admin, 'x) call \<Rightarrow> 'x \<Rightarrow> (roles \<Rightarrow> roles) \<Rightarrow> bool" where
  "role_effect rho m ok f \<longleftrightarrow> (\<forall>st r st'. m st = (r, st') \<longrightarrow>
     rho (server st') = f (rho (server st)) \<or> (r \<noteq> Inr ok \<and> rho (server st') = rho (server st)))"

lemma role_effectD: "role_effect rho m ok f \<Longrightarrow> m st = (r, st') \<Longrightarrow>
    rho (server st') = f (rho (server st)) \<or> (r \<noteq> Inr ok \<and> rho (server st') = rho (server st))"
  by (simp add: role_effect_def)

lemma effect_finish_report:
  assumes "role_effect rho m True f"
  shows "role_effect rho (finish (report m good bad)) (Done True) f"
  unfolding role_effect_def
proof (intro allI impI)
  fix st r st'
  assume "finish (report m good bad) st = (r, st')"
  from finish_does [OF this] obtain r0 where r0: "report m good bad st = (r0, st')" "r = Inr (Done True) \<longleftrightarrow> r0 = Inr True" by blast
  from report_does [OF r0(1)] obtain st1 where "m st = (r0, st1)" "server st' = server st1" by blast
  with role_effectD [OF assms this(1)] r0(2)
  show "rho (server st') = f (rho (server st)) \<or> r \<noteq> Inr (Done True) \<and> rho (server st') = rho (server st)" by auto
qed

definition create_effect :: "bool \<times> bool \<times> bool \<Rightarrow> string \<Rightarrow> roles \<Rightarrow> roles" where
  "create_effect flags u = (\<lambda>(U, M). (insert u U, requested flags True u M))"

definition change_effect :: "bool \<times> bool \<times> bool \<Rightarrow> string \<Rightarrow> roles \<Rightarrow> roles" where
  "change_effect flags u = (\<lambda>(U, M). (U, requested flags (u \<in> U) u M))"

definition drop_effect :: "string \<Rightarrow> roles \<Rightarrow> roles" where
  "drop_effect u = (\<lambda>(U, M). (U - {u}, \<lambda>g. M g - {u}))"

lemma succeeds_effect:
  assumes "role_server A rho" and "\<And>s x s'. t s = (Inr x, s') \<Longrightarrow> rho s' = f (rho s)"
  shows "role_effect rho (succeeds A t) True f"
  unfolding role_effect_def
proof (intro allI impI)
  fix st r st'
  assume "succeeds A t st = (r, st')"
  with assms show "rho (server st') = f (rho (server st)) \<or> r \<noteq> Inr True \<and> rho (server st') = rho (server st)"
    by (rule succeeds_does)
qed

lemma user_effects:
  assumes "role_server A rho" and "documented (admin_boost A)" and "plain (lowercase name)"
  shows "role_effect rho (finish (out_createUser A name flags)) (Done True) (create_effect flags (lowercase name))"
    "role_effect rho (finish (out_changeUser A name flags)) (Done True) (change_effect flags (lowercase name))"
    "role_effect rho (finish (out_dropUser A name)) (Done True) (drop_effect (lowercase name))"
proof -
  note u = role_serverD(1) [OF assms(1,3)]
  have "role_effect rho (performCreateUser A name flags) True (create_effect flags (lowercase name))"
    unfolding performCreateUser_def documented_simps [OF assms(2)]
    by (rule succeeds_effect [OF assms(1)], drule CreateUser_does [OF assms(1,3)]) (simp add: create_effect_def split_beta)
  then show "role_effect rho (finish (out_createUser A name flags)) (Done True) (create_effect flags (lowercase name))"
    unfolding out_createUser_def by (rule effect_finish_report)
  have "role_effect rho (performChangeUser A name flags) True (change_effect flags (lowercase name))"
    unfolding performChangeUser_def documented_simps [OF assms(2)]
    by (rule succeeds_effect [OF assms(1)], drule ChangeUser_does [OF u]) (simp add: change_effect_def split_beta)
  then show "role_effect rho (finish (out_changeUser A name flags)) (Done True) (change_effect flags (lowercase name))"
    unfolding out_changeUser_def by (rule effect_finish_report)
  have "role_effect rho (performDropUser A name) True (drop_effect (lowercase name))"
    unfolding performDropUser_def documented_simps [OF assms(2)]
    by (rule succeeds_effect [OF assms(1)], drule DropUser_does [OF assms(1,3)]) (simp add: drop_effect_def split_beta)
  then show "role_effect rho (finish (out_dropUser A name)) (Done True) (drop_effect (lowercase name))"
    unfolding out_dropUser_def by (rule effect_finish_report)
qed

text \<open>The options of a command.\<close>

lemma create_options_eq:
  "create_options xs (a, r, w) = (case find (\<lambda>x. lowercase x \<notin> {''admin'', ''write'', ''noread''}) xs of
     Some x \<Rightarrow> Inl x
   | None \<Rightarrow> Inr (a \<or> ''admin'' \<in> lowercase ` set xs, r \<and> ''noread'' \<notin> lowercase ` set xs, w \<or> ''write'' \<in> lowercase ` set xs))"
  by (induction xs arbitrary: a r w) (auto split: option.splits)

lemma change_options_eq:
  "change_options xs (a, r, w) = (case find (\<lambda>x. lowercase x \<notin> {''admin'', ''write'', ''read''}) xs of
     Some x \<Rightarrow> Inl x
   | None \<Rightarrow> Inr (a \<or> ''admin'' \<in> lowercase ` set xs, r \<or> ''read'' \<in> lowercase ` set xs, w \<or> ''write'' \<in> lowercase ` set xs))"
  by (induction xs arbitrary: a r w) (auto split: option.splits)

text \<open>The users and groups that a command with a user name and options asks for; none for an invalid option.\<close>

fun asked :: "string \<Rightarrow> string \<Rightarrow> string list \<Rightarrow> (roles \<Rightarrow> roles) option" where
  "asked cmd u opts =
     (if cmd = ''createuser'' then
        (if set opts \<subseteq> {''admin'', ''write'', ''noread''}
         then Some (create_effect (''admin'' \<in> set opts, ''noread'' \<notin> set opts, ''write'' \<in> set opts) u) else None)
      else if cmd = ''changeuser'' then
        (if set opts \<subseteq> {''admin'', ''write'', ''read''}
         then Some (change_effect (''admin'' \<in> set opts, ''read'' \<in> set opts, ''write'' \<in> set opts) u) else None)
      else if opts = [] then Some (drop_effect u) else None)"

definition user_commands :: "string set" where
  "user_commands = {''createuser'', ''changeuser'', ''dropuser''}"

lemma commands_lookup:
  "map_of commands_ordered ''createuser'' = Some CreateUserCommand"
  "map_of commands_ordered ''changeuser'' = Some ChangeUserCommand"
  "map_of commands_ordered ''dropuser'' = Some DropUserCommand"
  by (simp_all add: commands_ordered_def code_def)

lemma find_option: "find (\<lambda>x. lowercase x \<notin> S) xs = None \<longleftrightarrow> set (map lowercase xs) \<subseteq> S"
  by (auto simp: find_None_iff)

section \<open>What leaves the roles alone\<close>

definition steady :: "('s \<Rightarrow> 'r) \<Rightarrow> ('s, 'x) call \<Rightarrow> bool" where
  "steady a m \<longleftrightarrow> (\<forall>s. a (snd (m s)) = a s)"

lemma steadyI: "(\<And>s r s'. m s = (r, s') \<Longrightarrow> a s' = a s) \<Longrightarrow> steady a m"
  by (metis steady_def prod.collapse)

lemma steadyD: "steady a m \<Longrightarrow> m s = (r, s') \<Longrightarrow> a s' = a s"
  by (metis steady_def snd_conv)

lemma steady_simple: "steady a (retS x)" "steady a (failS e)" "steady a (liftS r)" "steady a (getS g)"
  by (simp_all add: steady_def)

lemma steady_modify: "(\<And>s. a (h s) = a s) \<Longrightarrow> steady a (modifyS h)"
  by (simp add: steady_def)

lemma steady_bind: "steady a m \<Longrightarrow> (\<And>x. steady a (f x)) \<Longrightarrow> steady a (bindS m f)"
  by (simp add: steady_def bindS_def split: prod.split sum.split) (metis snd_conv)

lemma steady_mapS: "steady a m \<Longrightarrow> steady a (mapS f m)"
  by (simp add: steady_def mapS_def split: prod.split) (metis snd_conv)

lemma steady_for: "(\<And>x. steady a (f x)) \<Longrightarrow> steady a (forS xs f)"
  by (induction xs) (auto intro!: steady_bind steady_simple)

lemma steady_if: "(c \<Longrightarrow> steady a m) \<Longrightarrow> (\<not> c \<Longrightarrow> steady a n) \<Longrightarrow> steady a (if c then m else n)"
  by simp

lemmas steady_rules = steady_simple steady_bind steady_mapS steady_for steady_if

lemma steady_output: "steady (\<lambda>st. rho (server st)) (print t)" "steady (\<lambda>st. rho (server st)) (info t)"
    "steady (\<lambda>st. rho (server st)) (info_if c t)" "steady (\<lambda>st. rho (server st)) (refuse t)"
  by (auto simp: steady_def info_if_def refuse_does)

lemma steady_maintenance:
  assumes "role_server A rho" and "q \<in> maintenance A"
  shows "steady rho (exec A q)" "steady rho (execute A q)"
proof -
  show q: "steady rho (exec A q)" using role_serverD(3) [OF assms] by (rule steadyI)
  then show "steady rho (execute A q)" by (simp add: execute_def steady_mapS)
qed

lemma steady_transactors:
  assumes "role_server A rho"
  shows "steady rho (PerformClean A)" "steady rho (PerformTestClean A)" "steady rho (ListTables A)"
    "steady rho (ListIndexes A)" "steady rho (ListIo A)"
proof -
  note q = steady_maintenance [OF assms]
  show "steady rho (PerformClean A)" "steady rho (PerformTestClean A)"
    unfolding PerformClean_def PerformTestClean_def
    by (intro steady_rules q; simp add: maintenance_def)+
  show "steady rho (ListTables A)" "steady rho (ListIndexes A)" "steady rho (ListIo A)"
    unfolding ListTables_def ListIndexes_def ListIo_def by (rule q; simp add: maintenance_def)+
qed

lemma steady_written:
  assumes "role_server A rho" and "steady rho t"
  shows "steady (\<lambda>st. rho (server st)) (written A t)"
proof (rule steadyI)
  fix st r st'
  assume w: "written A t st = (r, st')"
  obtain o' x st1 where p: "perform_on A t st = ((o', x), st1)" by (metis prod.exhaust)
  with w have "st' = st1" by (auto simp: written_def split: sum.splits if_splits)
  with perform_on_does [OF assms(1) p] steadyD [OF assms(2)] show "rho (server st') = rho (server st)" by metis
qed

lemma steady_on_server: "steady rho m \<Longrightarrow> steady (\<lambda>st. rho (server st)) (on_server m)"
  by (auto simp: steady_def on_server_def zoomS_def split: prod.split) (metis snd_conv)

lemma steady_connection: "role_server A rho \<Longrightarrow> steady (\<lambda>st. rho (server st)) (connection A)"
  unfolding connection_def
  by (intro steady_rules steady_on_server steady_modify) (auto intro: steadyI dest: role_serverD(4))

lemma steady_vacuum:
  assumes "role_server A rho"
  shows "steady (\<lambda>st. rho (server st)) (performVacuum A)"
  unfolding performVacuum_def
proof (rule steady_bind [OF steady_connection [OF assms]], rule steadyI)
  fix x st r st'
  assume "(case on_server (execute A ''VACUUM ANALYZE'') st of (Inr y, st1) \<Rightarrow> (Inr True, st1)
    | (Inl e, st1) \<Rightarrow> (if is_std_exception e then (Inr False, st1) else (Inl e, st1))) = (r, st')"
  then have "\<exists>r1. on_server (execute A ''VACUUM ANALYZE'') st = (r1, st')" by (auto split: prod.splits sum.splits if_splits)
  moreover have "steady (\<lambda>st. rho (server st)) (on_server (execute A ''VACUUM ANALYZE''))"
    by (rule steady_on_server, rule steady_maintenance [OF assms]) (simp add: maintenance_def)
  ultimately show "rho (server st') = rho (server st)" by (auto dest: steadyD)
qed

lemma steady_commands:
  assumes "role_server A rho"
  shows "steady (\<lambda>st. rho (server st)) (run_stats A input)" "steady (\<lambda>st. rho (server st)) (run_testClean A input)"
    "steady (\<lambda>st. rho (server st)) (run_vacuum A input)" "steady (\<lambda>st. rho (server st)) run_help"
proof -
  note t = steady_transactors [OF assms]
  show "steady (\<lambda>st. rho (server st)) (run_stats A input)"
    unfolding run_stats_def out_listStats_def finish_def print_stats_def Let_def print_row_def listTables_def listIndexes_def listIo_def
    by (intro steady_rules steady_output steady_written [OF assms] t)
  show "steady (\<lambda>st. rho (server st)) (run_testClean A input)"
    unfolding run_testClean_def out_testClean_def finish_def performTestClean_def
    by (intro steady_rules steady_output steady_written [OF assms] t)
  show "steady (\<lambda>st. rho (server st)) (run_vacuum A input)"
    unfolding run_vacuum_def out_vacuum_def finish_def performClean_def
    by (intro steady_rules steady_output steady_written [OF assms] t steady_vacuum [OF assms])
  show "steady (\<lambda>st. rho (server st)) run_help"
    unfolding run_help_def by (intro steady_rules steady_output steady_modify) simp
qed

section \<open>Properties\<close>

lemma user_command_does:
  assumes "role_server A rho" and "documented (admin_boost A)" and "plain (lowercase name)"
    and "lowercase cmd \<in> user_commands" and "run_line A (cmd # name # opts) st = (r, st')"
  shows "case asked (lowercase cmd) (lowercase name) (map lowercase opts) of
     None \<Rightarrow> r = Inr (Done False) \<and> server st' = server st
   | Some f \<Rightarrow> rho (server st') = f (rho (server st)) \<or> (r \<noteq> Inr (Done True) \<and> rho (server st') = rho (server st))"
proof -
  note eff = user_effects [OF assms(1-3)]
  from assms(4) consider (create) "lowercase cmd = ''createuser''" | (change) "lowercase cmd = ''changeuser''"
    | (drop) "lowercase cmd = ''dropuser''" by (auto simp: user_commands_def)
  then show ?thesis
  proof cases
    case create
    with assms(5) have "run_createUser A (cmd # name # opts) st = (r, st')" by (simp add: run_line_def commands_lookup)
    then show ?thesis
      using create role_effectD [OF eff(1)] find_option [of "{''admin'', ''write'', ''noread''}" opts]
      by (auto simp: run_createUser_def create_options_eq refuse_does bindS_def split: option.splits)
  next
    case change
    with assms(5) have "run_changeUser A (cmd # name # opts) st = (r, st')" by (simp add: run_line_def commands_lookup)
    then show ?thesis
      using change role_effectD [OF eff(2)] find_option [of "{''admin'', ''write'', ''read''}" opts]
      by (auto simp: run_changeUser_def change_options_eq refuse_does bindS_def split: option.splits)
  next
    case drop
    with assms(5) have "run_dropUser A (cmd # name # opts) st = (r, st')" by (simp add: run_line_def commands_lookup)
    then show ?thesis
      using drop role_effectD [OF eff(3)] by (auto simp: run_dropUser_def refuse_does split: if_splits)
  qed
qed

text \<open>C34: users get what was asked for. For a \<open>createuser\<close>, \<open>changeuser\<close> or \<open>dropuser\<close> command, typed in any case, on
  a plain name (of at most 63 letters, digits and underscores): with an invalid option nothing is sent to the server
  and the command returns false. Otherwise, if it returns true: after \<open>createuser\<close> the role can log in and is a
  direct member of the groups for administration, reading and writing exactly as the options say, whatever it was a
  member of before; after \<open>changeuser\<close> a role that can log in is a member of exactly the groups asked for, while one
  that cannot, or does not exist, has only been put in groups (without options nothing happens, and the command still
  returns true); after \<open>dropuser\<close> the role is gone from the users and from every group. Nobody else's groups, and no
  other group, change. If the command returns false, or ends with an error, that is so or nothing has changed.\<close>

theorem users_get_what_was_asked:
  assumes "role_server A rho" and "documented (admin_boost A)" and "plain (lowercase name)"
    and "lowercase cmd \<in> user_commands" and "run_line A (cmd # name # opts) st = (r, st')"
  shows "case asked (lowercase cmd) (lowercase name) (map lowercase opts) of
     None \<Rightarrow> r = Inr (Done False) \<and> server st' = server st
   | Some f \<Rightarrow> rho (server st') = f (rho (server st)) \<or> (r \<noteq> Inr (Done True) \<and> rho (server st') = rho (server st))"
  by (rule user_command_does [OF assms])

text \<open>A session at the terminal.\<close>

definition words_of :: "string \<Rightarrow> string list" where
  "words_of line = (if trim_space line = [] then [] else split_at isspace (trim_space line))"

text \<open>The lines of the property: no data base is created or dropped, and users have plain names, short enough to be
  kept whole.\<close>

definition ordinary :: "string list \<Rightarrow> bool" where
  "ordinary ws \<longleftrightarrow> (case ws of
     [] \<Rightarrow> True
   | [c] \<Rightarrow> True
   | c # n # _ \<Rightarrow> lowercase c \<notin> {''createdb'', ''dropdb''} \<and> (lowercase c \<in> user_commands \<longrightarrow> plain (lowercase n)))"

fun asks_admin :: "string \<Rightarrow> string list \<Rightarrow> bool" where
  "asks_admin v (c # n # opts) \<longleftrightarrow> lowercase c \<in> {''createuser'', ''changeuser''} \<and> lowercase n = v \<and> ''admin'' \<in> set (map lowercase opts)"
| "asks_admin v _ \<longleftrightarrow> False"

definition admins :: "('s \<Rightarrow> roles) \<Rightarrow> 's admin \<Rightarrow> string set" where
  "admins rho st = snd (rho (server st)) ''wdb_admin''"

lemma asked_admins:
  assumes "asked c u opts = Some f" and "v \<in> snd (f R) ''wdb_admin''" and "v \<notin> snd R ''wdb_admin''"
  shows "c \<in> {''createuser'', ''changeuser''} \<and> v = u \<and> ''admin'' \<in> set opts"
  using assms by (cases R)
    (auto simp: create_effect_def change_effect_def drop_effect_def requested_def set_member_def split: if_splits)

lemma other_command_steady:
  assumes "role_server A rho" and "ordinary (c # ws)" and "ws = [] \<or> lowercase c \<notin> user_commands"
  shows "steady (\<lambda>st. rho (server st)) (run_line A (c # ws))"
proof (cases "map_of commands_ordered (lowercase c)")
  case None
  then show ?thesis by (auto simp: run_line_def intro!: steady_rules steady_output)
next
  case (Some k)
  then have mem: "(lowercase c, k) \<in> set commands_ordered" by (rule map_of_SomeD)
  have "set commands_ordered = {(''help'', HelpCommand), (''?'', HelpCommand), (''quit'', QuitCommand), (''q'', QuitCommand),
      (''createuser'', CreateUserCommand), (''changeuser'', ChangeUserCommand), (''dropuser'', DropUserCommand),
      (''stats'', StatsCommand), (''testclean'', TestCleanCommand), (''vacuum'', VacuumCommand),
      (''createdb'', CreateDatabaseCommand), (''dropdb'', DropDatabaseCommand)}"
    by (simp add: commands_ordered_def code_def insert_commute)
  with mem have k: "lowercase c = ''createuser'' \<and> k = CreateUserCommand \<or> lowercase c = ''changeuser'' \<and> k = ChangeUserCommand
      \<or> lowercase c = ''dropuser'' \<and> k = DropUserCommand \<or> lowercase c = ''createdb'' \<and> k = CreateDatabaseCommand
      \<or> lowercase c = ''dropdb'' \<and> k = DropDatabaseCommand
      \<or> k \<in> {HelpCommand, QuitCommand, StatsCommand, TestCleanCommand, VacuumCommand}" by auto
  have "steady (\<lambda>st. rho (server st)) (run_command A k (c # ws))"
  proof (cases ws)
    case Nil
    with k steady_commands [OF assms(1)] show ?thesis
      by (auto simp: run_createUser_def run_changeUser_def run_dropUser_def run_createDatabase_def run_dropDatabase_def
          intro: steady_rules steady_output)
  next
    case (Cons n opts)
    with assms(2,3) k steady_commands [OF assms(1)] show ?thesis
      by (auto simp: ordinary_def user_commands_def intro: steady_rules)
  qed
  then show ?thesis using Some by (simp add: run_line_def)
qed

lemma line_admins:
  assumes "role_server A rho" and "documented (admin_boost A)" and "ordinary ws" and "ws \<noteq> []"
    and "run_line A ws st = (r, st')" and "v \<in> admins rho st'" and "v \<notin> admins rho st"
  shows "asks_admin v ws"
proof -
  obtain c rest where ws: "ws = c # rest" using assms(4) by (cases ws) auto
  show ?thesis
  proof (cases "rest = [] \<or> lowercase c \<notin> user_commands")
    case True
    from steadyD [OF other_command_steady [OF assms(1) _ True] assms(5) [unfolded ws]] assms(3,6,7) ws
    show ?thesis by (simp add: admins_def)
  next
    case False
    then obtain n opts where rest: "rest = n # opts" and c: "lowercase c \<in> user_commands" by (cases rest) auto
    with assms(3) ws have "plain (lowercase n)" by (simp add: ordinary_def)
    from user_command_does [OF assms(1,2) this c assms(5) [unfolded ws rest]] assms(6,7)
    show ?thesis unfolding ws rest admins_def
      by (auto split: option.splits simp del: asked.simps dest!: asked_admins)
  qed
qed

lemma split_at_not_empty: "split_at P s \<noteq> []"
  by (cases s) (auto split: list.splits)

lemma turn_admins:
  assumes "role_server A rho" and "documented (admin_boost A)" and "ordinary (words_of line)"
    and "shell_turn A (Some line) st = (r, st')" and "v \<in> admins rho st'" and "v \<notin> admins rho st"
  shows "asks_admin v (words_of line)"
proof (cases "trim_space line = []")
  case True
  with assms show ?thesis by (auto simp: shell_turn_def readLine_def bindS_def admins_def)
next
  case False
  define st1 where "st1 = snd (readLine A (Some line) st)"
  have read: "readLine A (Some line) st = (Inr (Some (words_of line)), st1)" and same: "admins rho st1 = admins rho st"
    using False assms(2) by (auto simp: st1_def readLine_def bindS_def words_of_def admins_def Let_def)
  obtain w ws where words: "words_of line = w # ws"
    using False split_at_not_empty [of isspace "trim_space line"] by (cases "words_of line") (auto simp: words_of_def)
  obtain r2 st2 where run: "run_line A (words_of line) st1 = (r2, st2)" by (cases "run_line A (words_of line) st1")
  then have "admins rho st' = admins rho st2"
    using assms(4) read words
    by (auto simp: shell_turn_def bindS_def admins_def split: sum.splits outcome.splits if_splits)
  then show ?thesis using line_admins [OF assms(1-3) _ run] assms(5,6) same words by simp
qed

lemma end_admins: "shell_turn A None st = (r, st') \<Longrightarrow> admins rho st' = admins rho st"
  by (auto simp: shell_turn_def readLine_def bindS_def admins_def)

lemma loop_admins:
  assumes "role_server A rho" and "documented (admin_boost A)"
  shows "list_all (\<lambda>l. ordinary (words_of l)) input \<Longrightarrow> shell_loop A input st = (r, st') \<Longrightarrow> v \<in> admins rho st' \<Longrightarrow>
    v \<notin> admins rho st \<Longrightarrow> \<exists>line \<in> set input. asks_admin v (words_of line)"
proof (induction input arbitrary: st)
  case Nil
  then show ?case using end_admins [of A st] by (auto simp: mapS_def split: prod.splits)
next
  case (Cons line rest)
  obtain r1 st1 where turn: "shell_turn A (Some line) st = (r1, st1)" by (cases "shell_turn A (Some line) st")
  show ?case
  proof (cases "v \<in> admins rho st1")
    case True
    with turn_admins [OF assms _ turn True Cons.prems(4)] Cons.prems(1) show ?thesis by simp
  next
    case False
    with Cons.prems(2,3) turn have "r1 = Inr True" "shell_loop A rest st1 = (r, st')"
      by (auto simp: bindS_def split: sum.splits if_splits)
    from Cons.IH [OF _ this(2) Cons.prems(3) False] Cons.prems(1) show ?thesis by simp
  qed
qed

text \<open>C35: nobody becomes an administrator unasked. When an interactive session over any lines, in which no data base
  is created or dropped and users have plain names of at most 63 bytes, leaves somebody in the group for administration who was not in
  it before, then one of the lines was a \<open>createuser\<close> or \<open>changeuser\<close> command for that user with the option
  \<open>admin\<close>, whatever failed in between.\<close>

theorem no_admin_unasked:
  assumes "role_server A rho" and "documented (admin_boost A)"
    and "list_all (\<lambda>l. ordinary (words_of l)) input" and "shell_run A input st = (r, st')"
    and "v \<in> admins rho st'" and "v \<notin> admins rho st"
  shows "\<exists>line \<in> set input. asks_admin v (words_of line)"
proof -
  from assms(4) obtain st1 where "shell_loop A input st1 = (r, st')" "server st1 = server st"
    by (auto simp: shell_run_def bindS_def)
  with loop_admins [OF assms(1-3) _ assms(5), of st1] assms(6) show ?thesis by (simp add: admins_def)
qed

section \<open>A server for examples\<close>

fun strip :: "string \<Rightarrow> string \<Rightarrow> string option" where
  "strip [] q = Some q"
| "strip (c # p) (d # q) = (if c = d then strip p q else None)"
| "strip (c # p) [] = None"

definition rows_if :: "bool \<Rightarrow> pq_result" where
  "rows_if b = \<lparr>pq_columns = [''usename''], pq_rows = (if b then [[''x'']] else [])\<rparr>"

definition until_quote :: "string \<Rightarrow> string" where
  "until_quote s = takeWhile (\<lambda>c. c \<noteq> CHR 0x27) s"

definition group_asked :: "string \<Rightarrow> string" where
  "group_asked s = (case strip (sql_quote @ '' AND usesysid IN ( select grolist[s] from (SELECT grolist, generate_subscripts(grolist, 1) as s FROM pg_group where groname = '' @ sql_quote) s of
     Some t \<Rightarrow> until_quote t | None \<Rightarrow> [])"

definition server_exec :: "string \<Rightarrow> (roles, pq_result) call" where
  "server_exec q = (\<lambda>(U, M).
     case strip (''SELECT usename FROM pg_user WHERE usename='' @ sql_quote) q of
       Some t \<Rightarrow> (Inr (rows_if (until_quote t \<in> U)), (U, M))
     | None \<Rightarrow> (case strip (''select * from pg_user where usename = '' @ sql_quote) q of
       Some t \<Rightarrow> (Inr (rows_if (until_quote t \<in> U \<and> until_quote t \<in> M (group_asked (drop (length (until_quote t)) t)))), (U, M))
     | None \<Rightarrow> (case strip ''GRANT '' q of
       Some t \<Rightarrow> (let g = take (length t - length (dropWhile (\<lambda>c. c \<noteq> CHR '' '') t)) t
         in (Inr no_result, (U, M(g := insert (drop (length g + 4) t) (M g)))))
     | None \<Rightarrow> (case strip ''REVOKE '' q of
       Some t \<Rightarrow> (let g = take (length t - length (dropWhile (\<lambda>c. c \<noteq> CHR '' '') t)) t
         in (Inr no_result, (U, M(g := M g - {drop (length g + 6) t}))))
     | None \<Rightarrow> (case strip ''CREATE ROLE '' q of
       Some t \<Rightarrow> (Inr no_result, (insert (take (length t - 6) t) U, M))
     | None \<Rightarrow> (case strip ''DROP ROLE '' q of
       Some t \<Rightarrow> (Inr no_result, (U - {t}, \<lambda>g. M g - {t}))
     | None \<Rightarrow> (Inr no_result, (U, M))))))))"

definition server_env :: "roles admin_env" where
  "server_env = \<lparr>exec = server_exec, esc = (\<lambda>t. t),
     perform = (\<lambda>t s. case t s of (Inr x, s1) \<Rightarrow> ((Inr (), x), s1) | (Inl e, _) \<Rightarrow> ((Inl e, Tx_none), s)),
     open_connection = retS (), shell = (\<lambda>_ s. (0, s)), result_at = (\<lambda>_ _ _. Inr ''0''), column_name = (\<lambda>_ _. Inr ''x''),
     field_to_int = (\<lambda>_. Inr 0), admin_boost = boost_ref, wciUser = ''wdb'', pkglibdir = '''', wdb_schema = ''wdb_int'',
     wci_schema = ''wci_int'', printAdditionalInfo = True\<rparr>"

definition empty_program :: "roles admin" where
  "empty_program = \<lparr>server = ({''wcitest''}, \<lambda>g. if g = ''wdb_read'' then {''wcitest'', ''wdb_test''} else {}), connected = False, printed = '''', lastCommand = '''', history = [], helpText = ''''\<rparr>"

lemma until_quote_plain: "plain u \<Longrightarrow> until_quote (u @ CHR 0x27 # t) = u"
proof -
  assume "plain u"
  then have "\<forall>c \<in> set u. c \<noteq> CHR 0x27"
    by (auto simp: plain_def list_all_iff islower_def isdigit_def code_def)
  then show ?thesis by (simp add: until_quote_def takeWhile_append)
qed

lemma until_quote_Cons: "until_quote (c # s) = (if c = CHR 0x27 then [] else c # until_quote s)"
  by (simp add: until_quote_def)

lemma server_statements:
  assumes "plain u"
  shows "role_statements server_env (\<lambda>s. s) u"
proof -
  note u = until_quote_plain [OF assms]
  have "query_tells server_env (\<lambda>s. s) (user_query server_env u) (\<lambda>(U, M). u \<in> U)"
    by (auto simp: query_tells_def server_env_def server_exec_def user_query_def sql_quote_def u rows_if_def split: if_splits)
  moreover have "query_tells server_env (\<lambda>s. s) (member_query server_env u g) (\<lambda>(U, M). u \<in> U \<and> u \<in> M g)" if "g \<in> wdb_roles" for g
    using that by (auto simp: wdb_roles_def query_tells_def server_env_def server_exec_def member_query_def sql_quote_def u rows_if_def
        group_asked_def until_quote_Cons split: if_splits)
  moreover have "statement_does server_env (\<lambda>s. s) (''GRANT '' @ g @ '' TO '' @ u) (\<lambda>(U, M). (U, M(g := insert u (M g))))"
    "statement_does server_env (\<lambda>s. s) (''REVOKE '' @ g @ '' FROM '' @ u) (\<lambda>(U, M). (U, M(g := M g - {u})))" if "g \<in> wdb_roles" for g
    using that by (auto simp: wdb_roles_def statement_does_def server_env_def server_exec_def sql_quote_def Let_def)
  moreover have "statement_does server_env (\<lambda>s. s) (''CREATE ROLE '' @ u @ '' LOGIN'') (\<lambda>(U, M). (insert u U, M))"
    "statement_does server_env (\<lambda>s. s) (''DROP ROLE '' @ u) (\<lambda>(U, M). (U - {u}, \<lambda>g. M g - {u}))"
    "statement_does server_env (\<lambda>s. s) (''SELECT wci.addwciuser('' @ sql_quote @ u @ sql_quote @ '')'') (\<lambda>r. r)"
    by (auto simp: statement_does_def server_env_def server_exec_def sql_quote_def)
  moreover have "esc server_env u = u" by (simp add: server_env_def)
  ultimately show ?thesis by (simp add: role_statements_def)
qed

lemma server_env_roles: "role_server server_env (\<lambda>s. s)"
proof -
  have "transactional server_env (\<lambda>s. s)"
    unfolding transactional_def server_env_def
    by (auto split: prod.splits sum.splits intro: exI)
  moreover have "snd (exec server_env q s) = s" if "q \<in> maintenance server_env" for q s
    using that by (cases s)
        (auto simp: maintenance_def tables_query_def indexes_query_def io_query_def server_env_def server_exec_def sql_quote_def)
  moreover have "snd (open_connection server_env s) = s" for s by (simp add: server_env_def)
  ultimately show ?thesis using server_statements by (simp add: role_server_def)
qed

theorem users_get_what_was_asked_witness:
  "(let st = snd (run_line server_env [''CreateUser'', ''Bob'', ''ADMIN''] empty_program)
    in ''bob'' \<in> admins (\<lambda>s. s) st \<and> ''bob'' \<notin> snd (server st) ''wdb_write'')"
proof -
  define res where "res = run_line server_env [''CreateUser'', ''Bob'', ''ADMIN''] empty_program"
  have names: "lowercase ''CreateUser'' = ''createuser''" "lowercase ''Bob'' = ''bob''" "map lowercase [''ADMIN''] = [''admin'']"
    by code_simp+
  have lib: "documented (admin_boost server_env)" by (simp add: server_env_def documented_ref)
  have "plain ''bob''" by code_simp
  then have hyp: "plain (lowercase ''Bob'')" "lowercase ''CreateUser'' \<in> user_commands" by (simp_all only: names) (simp add: user_commands_def)
  have true: "fst res = Inr (Done True)" unfolding res_def by code_simp
  from users_get_what_was_asked [OF server_env_roles lib hyp, of "[''ADMIN'']" empty_program "fst res" "snd res"] true
  have "server (snd res) = create_effect (True, True, False) ''bob'' (server empty_program)"
    unfolding names by (simp add: res_def)
  then show ?thesis
    unfolding res_def [symmetric]
    by (simp add: Let_def admins_def create_effect_def requested_def set_member_def empty_program_def)
qed

theorem no_admin_unasked_witness:
  "(let input = [''vacuum x'', ''changeuser wcitest read'', '' createuser Bob admin'', ''changeuser wdb_test''];
        st = snd (shell_run server_env input empty_program)
    in list_all (\<lambda>l. ordinary (words_of l)) input \<and> ''bob'' \<in> admins (\<lambda>s. s) st \<and> ''bob'' \<notin> admins (\<lambda>s. s) empty_program
     \<and> fst (server st) = {''bob'', ''wcitest''} \<and> snd (server st) ''wdb_read'' = {''wdb_test'', ''wcitest'', ''bob''}
     \<and> (\<exists>line \<in> set input. asks_admin ''bob'' (words_of line)))"
proof -
  define input where "input = [''vacuum x'', ''changeuser wcitest read'', '' createuser Bob admin'', ''changeuser wdb_test'']"
  define res where "res = shell_run server_env input empty_program"
  have lib: "documented (admin_boost server_env)" by (simp add: server_env_def documented_ref)
  have ord: "list_all (\<lambda>l. ordinary (words_of l)) input" unfolding input_def by code_simp
  have new: "''bob'' \<in> admins (\<lambda>s. s) (snd res)" unfolding res_def input_def by code_simp
  have old: "''bob'' \<notin> admins (\<lambda>s. s) empty_program" by (simp add: admins_def empty_program_def)
  have "shell_run server_env input empty_program = (fst res, snd res)" by (simp add: res_def)
  from no_admin_unasked [OF server_env_roles lib ord this new old]
  have "\<exists>line \<in> set input. asks_admin ''bob'' (words_of line)" .
  moreover have "fst (server (snd res)) = {''bob'', ''wcitest''}" unfolding res_def input_def by code_simp
  moreover have "snd (server (snd res)) ''wdb_read'' = {''wdb_test'', ''wcitest'', ''bob''}" unfolding res_def input_def by code_simp
  ultimately show ?thesis using ord new old unfolding Let_def res_def [symmetric] input_def [symmetric] by blast
qed

end
