(* ===== verification/ConfigFile.thy ===== *)
theory ConfigFile
  imports Prelude Externals
begin

text \<open>
  The key-value files of the WDB programs (\<open>WdbConfigFile.cpp\<close>): a line is cut at its comment, its blanks are
  joined, and its key and value are stored in a table; a line that begins with an exclamation mark makes its key
  one that is to be ignored. The content of the file is a parameter (none when it cannot be opened).
\<close>

section \<open>The program\<close>

record WdbConfigFile =
  configTable :: "string \<Rightarrow> string option"
  fileName :: string

definition WdbConfigFile_new :: WdbConfigFile where
  "WdbConfigFile_new = \<lparr>configTable = (\<lambda>_. None), fileName = ''''\<rparr>"

definition config_space_rx :: rx where
  "config_space_rx = Grp 1 (Plus (C CSpace))"

definition config_comma_rx :: rx where
  "config_comma_rx = Grp 1 (Cat (Plus (C CSpace)) (C (CChar CHR '','')))"

lemma config_rx_text:
  "rx_text config_space_rx = [CHR ''('', CHR 0x5C, CHR ''s'', CHR ''+'', CHR '')'']"
  "rx_text config_comma_rx = [CHR ''('', CHR 0x5C, CHR ''s'', CHR ''+'', CHR '','', CHR '')'']"
  by (simp_all add: config_space_rx_def config_comma_rx_def)

text \<open>\<open>substr\<close> before and after the first equals sign; without one both are the whole text.\<close>

definition extractKey :: "'a boost \<Rightarrow> string \<Rightarrow> string \<Rightarrow> string res" where
  "extractKey E file line =
     (let ret = trim E (case find_first (\<lambda>c. c = CHR ''='') line of Some i \<Rightarrow> take i line | None \<Rightarrow> line)
      in if ret = [] then Inl (Invalid_argument (''Specification in file '' @ file @ '' does not contain a key: '' @ line))
         else Inr ret)"

definition extractValue :: "'a boost \<Rightarrow> string \<Rightarrow> string \<Rightarrow> string res" where
  "extractValue E file line =
     (let ret = trim E (case find_first (\<lambda>c. c = CHR ''='') line of Some i \<Rightarrow> drop (i + 1) line | None \<Rightarrow> line)
      in if ret = [] then Inl (Invalid_argument (''Specification in file '' @ file @ '' does not contain a value: '' @ line))
         else Inr ret)"

definition strip_comment :: "string \<Rightarrow> string" where
  "strip_comment line = (case find_first (\<lambda>c. c = CHR ''#'') line of Some i \<Rightarrow> take i line | None \<Rightarrow> line)"

definition normalise :: "'a boost \<Rightarrow> string \<Rightarrow> string" where
  "normalise E line = trim E (regex_replace E config_comma_rx '','' (regex_replace E config_space_rx '' '' line))"

definition parse_line :: "'a boost \<Rightarrow> string \<Rightarrow> (WdbConfigFile, unit) call" where
  "parse_line E line0 st =
     (let line1 = strip_comment line0
      in if line1 = [] then (Inr (), st)
         else (let loadValue = (hd line1 \<noteq> CHR ''!''); line2 = normalise E line1
           in case bindE (extractKey E (fileName st) line2) (\<lambda>key.
                mapE (\<lambda>value. (key, value)) (if loadValue then extractValue E (fileName st) line2 else Inr ''NULL'')) of
                Inl e \<Rightarrow> (Inl e, st)
              | Inr (key, value) \<Rightarrow> (Inr (), st\<lparr>configTable := (configTable st)(key \<mapsto> value)\<rparr>)))"

fun parse_lines :: "'a boost \<Rightarrow> string list \<Rightarrow> (WdbConfigFile, unit) call" where
  "parse_lines E [] = retS ()"
| "parse_lines E (l # ls) = bindS (parse_line E l) (\<lambda>_. parse_lines E ls)"

text \<open>\<open>getline\<close> until the end of the file: the pieces between the line feeds, the last one too.\<close>

definition open_config :: "'a boost \<Rightarrow> string \<Rightarrow> string option \<Rightarrow> (WdbConfigFile, unit) call" where
  "open_config E file content = bindS (modifyS (\<lambda>st. st\<lparr>fileName := file\<rparr>)) (\<lambda>_. case content of
     None \<Rightarrow> failS (Invalid_argument (''Could not open file '' @ file))
   | Some text' \<Rightarrow> parse_lines E (split_at (\<lambda>c. c = CHR 0x0A) text'))"

definition get_config :: "WdbConfigFile \<Rightarrow> string \<Rightarrow> string res" where
  "get_config st key = (case configTable st key of
     Some v \<Rightarrow> Inr v
   | None \<Rightarrow> (case configTable st (''! '' @ key) of
       Some _ \<Rightarrow> Inl (Ignore_value (''Key value '' @ key @ '' is ignored.''))
     | None \<Rightarrow> Inl (Out_of_range (''Key value '' @ key @ '' is not defined in configuration file.''))))"

section \<open>Normal lines\<close>

text \<open>Each blank is a single space before a visible character that is not a comma.\<close>

fun spaced :: "string \<Rightarrow> bool" where
  "spaced [] = True"
| "spaced (c # s) = ((isspace c \<longrightarrow> c = CHR '' '' \<and> s \<noteq> [] \<and> \<not> isspace (hd s) \<and> hd s \<noteq> CHR '','') \<and> spaced s)"

lemma spaced_append: "spaced a \<Longrightarrow> spaced b \<Longrightarrow> spaced (a @ b)"
  by (induction a) auto

lemma spaced_last: "spaced s \<Longrightarrow> s \<noteq> [] \<Longrightarrow> \<not> isspace (last s)"
  by (induction s) auto

lemma collapse_spaced: "spaced s \<Longrightarrow> collapse_space s = s"
proof (induction s)
  case (Cons c s)
  then show ?case by (cases s) auto
qed simp

lemma comma_no_match:
  assumes "spaced (c # s)"
  shows "rx_run False config_comma_rx [] (c # s) = []"
proof (cases "isspace c")
  case True
  with assms obtain d t where s: "s = d # t" "\<not> isspace d" "d \<noteq> CHR '',''" by (cases s) auto
  with True show ?thesis by (simp add: config_comma_rx_def Let_def)
next
  case False
  then show ?thesis by (simp add: config_comma_rx_def)
qed

lemma comma_spaced: "spaced s \<Longrightarrow> rx_replace n config_comma_rx '','' s = s"
proof (induction n arbitrary: s)
  case (Suc n)
  show ?case
  proof (cases s)
    case (Cons c t)
    with Suc.prems comma_no_match [of c t] Suc.IH [of t] show ?thesis by simp
  qed simp
qed simp

lemma dropWhile_hd: "s \<noteq> [] \<Longrightarrow> \<not> P (hd s) \<Longrightarrow> dropWhile P s = s"
  by (cases s) auto

lemma trim_tidy: "s \<noteq> [] \<Longrightarrow> \<not> isspace (hd s) \<Longrightarrow> \<not> isspace (last s) \<Longrightarrow> trim_space s = s"
  using dropWhile_hd [of s isspace] dropWhile_hd [of "rev s" isspace] by (simp add: trim_space_def hd_rev)

lemma normalise_spaced:
  assumes "documented E" and "spaced s" and "s \<noteq> []" and "\<not> isspace (hd s)"
  shows "normalise E s = s"
proof -
  have "rx_replace_all config_space_rx '' '' s = s"
    unfolding config_space_rx_def replace_all_space by (rule collapse_spaced [OF assms(2)])
  moreover have "rx_replace_all config_comma_rx '','' s = s"
    unfolding rx_replace_all_def by (rule comma_spaced [OF assms(2)])
  ultimately show ?thesis
    using assms(1) trim_tidy [OF assms(3,4) spaced_last [OF assms(2,3)]] by (simp add: normalise_def)
qed

section \<open>A file that is written and read\<close>

text \<open>The lines of a file: a setting with an optional comment, a key that is to be ignored, a comment or nothing.\<close>

datatype config_line = Setting string string string | Ignored string string | Blank string

definition comment :: "string \<Rightarrow> bool" where
  "comment c \<longleftrightarrow> (c = [] \<or> hd c = CHR ''#'') \<and> CHR 0x0A \<notin> set c"

definition tidy :: "string \<Rightarrow> bool" where
  "tidy s \<longleftrightarrow> spaced s \<and> s \<noteq> [] \<and> \<not> isspace (hd s) \<and> hd s \<noteq> CHR '','' \<and> CHR ''#'' \<notin> set s"

definition tidy_key :: "string \<Rightarrow> bool" where
  "tidy_key k \<longleftrightarrow> tidy k \<and> hd k \<noteq> CHR ''!'' \<and> CHR ''='' \<notin> set k"

fun line_ok :: "config_line \<Rightarrow> bool" where
  "line_ok (Setting k v c) \<longleftrightarrow> tidy_key k \<and> tidy v \<and> comment c"
| "line_ok (Ignored k c) \<longleftrightarrow> tidy_key k \<and> comment c"
| "line_ok (Blank c) \<longleftrightarrow> comment c"

fun line_text :: "config_line \<Rightarrow> string" where
  "line_text (Setting k v c) = k @ '' = '' @ v @ c"
| "line_text (Ignored k c) = ''! '' @ k @ c"
| "line_text (Blank c) = c"

definition config_text :: "config_line list \<Rightarrow> string" where
  "config_text ls = concat (map (\<lambda>l. line_text l @ [CHR 0x0A]) ls)"

fun line_effect :: "config_line \<Rightarrow> (string \<Rightarrow> string option) \<Rightarrow> string \<Rightarrow> string option" where
  "line_effect (Setting k v c) m = m(k \<mapsto> v)"
| "line_effect (Ignored k c) m = m(''! '' @ k \<mapsto> ''NULL'')"
| "line_effect (Blank c) m = m"

lemma strip_comment_append: "CHR ''#'' \<notin> set s \<Longrightarrow> comment c \<Longrightarrow> strip_comment (s @ c) = s"
proof -
  assume s: "CHR ''#'' \<notin> set s" and c: "comment c"
  have "find_first (\<lambda>x. x = CHR ''#'') (s @ c) = (if c = [] then None else Some (length s))"
    using s c by (induction s) (auto simp: comment_def neq_Nil_conv)
  then show ?thesis by (simp add: strip_comment_def)
qed

lemma find_equals: "CHR ''='' \<notin> set s \<Longrightarrow> find_first (\<lambda>c. c = CHR ''='') (s @ CHR ''='' # t) = Some (length s)"
  by (induction s) auto

lemma find_no_equals: "CHR ''='' \<notin> set s \<Longrightarrow> find_first (\<lambda>c. c = CHR ''='') s = None"
  by (auto simp: find_first_None)

lemma trim_ends:
  assumes "s \<noteq> []" and "\<not> isspace (hd s)" and "\<not> isspace (last s)"
  shows "trim_space (s @ '' '') = s" "trim_space (CHR '' '' # s) = s"
proof -
  have sp: "isspace CHR '' ''" by (simp add: isspace_def code_def)
  have "dropWhile isspace s = s" "dropWhile isspace (rev s) = rev s"
    using assms by (simp_all add: dropWhile_hd hd_rev)
  then show "trim_space (CHR '' '' # s) = s" using sp by (simp add: trim_space_def)
  have "dropWhile isspace (s @ '' '') = s @ '' ''" using assms by (intro dropWhile_hd) simp_all
  then show "trim_space (s @ '' '') = s" using sp \<open>dropWhile isspace (rev s) = rev s\<close> by (simp add: trim_space_def)
qed

lemma tidy_ends: "tidy s \<Longrightarrow> s \<noteq> [] \<and> \<not> isspace (hd s) \<and> \<not> isspace (last s)"
  by (simp add: tidy_def spaced_last)

lemma space_char: "isspace CHR '' ''" "\<not> isspace CHR ''=''" "\<not> isspace CHR ''!''"
  by (simp_all add: isspace_def code_def)

lemma parse_setting:
  assumes E: "documented E" and ok: "line_ok (Setting k v c)"
  shows "parse_line E (line_text (Setting k v c)) st = (Inr (), st\<lparr>configTable := (configTable st)(k \<mapsto> v)\<rparr>)"
proof -
  let ?l = "k @ '' = '' @ v"
  have k: "tidy k" "hd k \<noteq> CHR ''!''" "CHR ''='' \<notin> set k" and v: "tidy v" and c: "comment c"
    using ok by (simp_all add: tidy_key_def)
  note ends = tidy_ends [OF k(1)] tidy_ends [OF v]
  have "strip_comment (?l @ c) = ?l" using k(1) v c by (intro strip_comment_append) (simp_all add: tidy_def)
  moreover have "spaced ('' = '' @ v)" using v space_char by (simp add: tidy_def)
  from spaced_append [OF _ this, of k] have "spaced ?l" using k(1) by (simp only: tidy_def)
  then have "normalise E ?l = ?l" using ends by (intro normalise_spaced [OF E]) simp_all
  moreover have "find_first (\<lambda>c. c = CHR ''='') ?l = Some (length k + 1)"
    using find_equals [of "k @ '' ''" "'' '' @ v"] k(3) by simp
  then have "extractKey E (fileName st) ?l = Inr k" "extractValue E (fileName st) ?l = Inr v"
    using E ends trim_ends [of k] trim_ends [of v] by (simp_all add: extractKey_def extractValue_def)
  ultimately show ?thesis
    using k(2) ends by (simp add: parse_line_def Let_def bindE_def mapE_def)
qed

lemma parse_ignored:
  assumes E: "documented E" and ok: "line_ok (Ignored k c)"
  shows "parse_line E (line_text (Ignored k c)) st = (Inr (), st\<lparr>configTable := (configTable st)(''! '' @ k \<mapsto> ''NULL'')\<rparr>)"
proof -
  let ?l = "''! '' @ k"
  have k: "tidy k" "CHR ''='' \<notin> set k" and c: "comment c" using ok by (simp_all add: tidy_key_def)
  note ends = tidy_ends [OF k(1)]
  have "strip_comment (?l @ c) = ?l" using k(1) c by (intro strip_comment_append) (simp_all add: tidy_def)
  moreover have "spaced ?l" using k(1) space_char by (simp add: tidy_def)
  then have "normalise E ?l = ?l" using space_char by (intro normalise_spaced [OF E]) simp_all
  moreover have "find_first (\<lambda>c. c = CHR ''='') ?l = None" using k(2) by (intro find_no_equals) simp
  then have "extractKey E (fileName st) ?l = Inr ?l"
    using E ends space_char trim_tidy [of ?l] by (simp add: extractKey_def)
  ultimately show ?thesis by (simp add: parse_line_def Let_def bindE_def mapE_def)
qed

lemma parse_config_line:
  assumes "documented E" and "line_ok l"
  shows "parse_line E (line_text l) st = (Inr (), st\<lparr>configTable := line_effect l (configTable st)\<rparr>)"
proof (cases l)
  case (Blank c)
  with assms(2) strip_comment_append [of "[]" c] show ?thesis by (simp add: parse_line_def)
next
  case (Setting k v c)
  show ?thesis
    using parse_setting [OF assms(1) assms(2) [unfolded Setting]] unfolding Setting line_effect.simps .
next
  case (Ignored k c)
  show ?thesis
    using parse_ignored [OF assms(1) assms(2) [unfolded Ignored]] unfolding Ignored line_effect.simps .
qed

lemma parse_config_lines:
  "documented E \<Longrightarrow> list_all line_ok ls \<Longrightarrow>
   parse_lines E (map line_text ls @ [[]]) st = (Inr (), st\<lparr>configTable := fold line_effect ls (configTable st)\<rparr>)"
proof (induction ls arbitrary: st)
  case Nil
  then show ?case by (simp add: bindS_def parse_line_def strip_comment_def)
next
  case (Cons l ls)
  then show ?case by (simp add: bindS_def parse_config_line)
qed

lemma spaced_no_newline: "spaced s \<Longrightarrow> CHR 0x0A \<notin> set s"
  by (induction s) (auto simp: isspace_def code_def)

lemma line_no_newline: "line_ok l \<Longrightarrow> CHR 0x0A \<notin> set (line_text l)"
  by (cases l) (auto simp: tidy_key_def tidy_def comment_def dest: spaced_no_newline)

lemma split_line: "CHR 0x0A \<notin> set a \<Longrightarrow>
    split_at (\<lambda>c. c = CHR 0x0A) (a @ CHR 0x0A # s) = a # split_at (\<lambda>c. c = CHR 0x0A) s"
  by (induction a) auto

lemma split_config: "list_all line_ok ls \<Longrightarrow> split_at (\<lambda>c. c = CHR 0x0A) (config_text ls) = map line_text ls @ [[]]"
  by (induction ls) (simp_all add: config_text_def split_line line_no_newline)

section \<open>Properties\<close>

text \<open>The settings and the ignored keys of a file.\<close>

definition settings :: "config_line list \<Rightarrow> (string \<times> string) list" where
  "settings ls = concat (map (\<lambda>l. case l of Setting k v c \<Rightarrow> [(k, v)] | _ \<Rightarrow> []) ls)"

definition ignored :: "config_line list \<Rightarrow> string set" where
  "ignored ls = {k. \<exists>c. Ignored k c \<in> set ls}"

lemma table_of_settings:
  assumes "list_all line_ok ls" and "tidy_key k"
  shows "fold line_effect ls m k = (case map_of (rev (settings ls)) k of Some v \<Rightarrow> Some v | None \<Rightarrow> m k)"
  using assms(1)
proof (induction ls arbitrary: m)
  case (Cons l ls)
  have "k \<noteq> ''! '' @ q" for q using assms(2) by (auto simp: tidy_key_def)
  with Cons show ?case
    by (cases l) (auto simp: settings_def map_add_def split: option.splits)
qed (simp add: settings_def)

lemma table_of_ignored:
  assumes "list_all line_ok ls"
  shows "fold line_effect ls m (''! '' @ k) = (if k \<in> ignored ls then Some ''NULL'' else m (''! '' @ k))"
  using assms
proof (induction ls arbitrary: m)
  case (Cons l ls)
  then show ?case
    by (cases l) (auto simp: ignored_def tidy_key_def)
qed (simp add: ignored_def)

text \<open>C37: a configuration file is read as it was written. From a file of settings, of keys that are to be ignored,
  of comments and of empty lines, whose keys and values have single blanks inside, every key that was set gives the
  value of its last setting, a key that is only marked as ignored the exception for that, and every other key the
  exception that it is not defined.\<close>

theorem config_file_read_back:
  assumes "documented E" and "list_all line_ok ls" and "tidy_key k"
  shows "\<exists>st. open_config E file (Some (config_text ls)) WdbConfigFile_new = (Inr (), st)
    \<and> get_config st k = (case map_of (rev (settings ls)) k of
         Some v \<Rightarrow> Inr v
       | None \<Rightarrow> (if k \<in> ignored ls then Inl (Ignore_value (''Key value '' @ k @ '' is ignored.''))
           else Inl (Out_of_range (''Key value '' @ k @ '' is not defined in configuration file.''))))"
proof -
  define st where "st = WdbConfigFile_new\<lparr>fileName := file, configTable := fold line_effect ls (\<lambda>_. None)\<rparr>"
  have "open_config E file (Some (config_text ls)) WdbConfigFile_new = (Inr (), st)"
    using parse_config_lines [OF assms(1,2)] split_config [OF assms(2)]
    by (simp add: open_config_def bindS_def st_def WdbConfigFile_new_def)
  moreover have "get_config st k = (case map_of (rev (settings ls)) k of
         Some v \<Rightarrow> Inr v
       | None \<Rightarrow> (if k \<in> ignored ls then Inl (Ignore_value (''Key value '' @ k @ '' is ignored.''))
           else Inl (Out_of_range (''Key value '' @ k @ '' is not defined in configuration file.''))))"
    using table_of_settings [OF assms(2,3), of "\<lambda>_. None"] table_of_ignored [OF assms(2), of "\<lambda>_. None" k]
    by (simp add: get_config_def st_def WdbConfigFile_new_def split: option.split)
  ultimately show ?thesis by blast
qed

definition sample_config :: "config_line list" where
  "sample_config = [Blank ''# units'', Setting ''air temperature'' ''K'' '''', Setting ''air temperature'' ''C'' ''# changed'',
     Ignored ''snow'' '''', Blank '''']"

theorem config_file_read_back_witness:
  "\<exists>st. open_config boost_ref ''units.conf''
       (Some (config_text sample_config)) WdbConfigFile_new = (Inr (), st)
     \<and> get_config st ''air temperature'' = Inr ''C''"
proof -
  have "list_all line_ok sample_config" "tidy_key ''air temperature''"
    by (simp_all add: sample_config_def tidy_key_def tidy_def comment_def isspace_def code_def)
  moreover have "map_of (rev (settings sample_config)) ''air temperature'' = Some ''C''"
    by (simp add: sample_config_def settings_def)
  ultimately show ?thesis using config_file_read_back [OF documented_ref, of sample_config "''air temperature''" "''units.conf''"] by simp
qed

text \<open>A line of blanks has no key.\<close>

lemma blank_line_refused:
  "fst (parse_line boost_ref ''  '' WdbConfigFile_new) = Inl (Invalid_argument ''Specification in file  does not contain a key: '')"
  by code_simp

text \<open>An exclamation mark without a blank behind it is not found by the lookup.\<close>

lemma mark_needs_blank:
  "(case parse_line boost_ref ''!snow'' WdbConfigFile_new of (r, st) \<Rightarrow> get_config st ''snow'')
     = Inl (Out_of_range ''Key value snow is not defined in configuration file.'')"
  by code_simp

end
