(* ===== verification/Configuration.thy ===== *)
theory Configuration
  imports Prelude
begin

text \<open>
  The configuration of the WDB programs (\<open>wdbConfiguration.cpp\<close>): where an option can come from, in which order
  the sources are read, and the connection texts that are made from the result. \<open>boost::program_options\<close>, the
  environment, the expansion of the home directory and the file system are a parameter; the options are those of
  the program with their long names, and \<open>documented_options\<close> is the documented behaviour of \<open>store\<close>.
\<close>

section \<open>Options and their sources\<close>

text \<open>A stored value, and whether it is only a default.\<close>

type_synonym variables_map = "string \<Rightarrow> (string \<times> bool) option"

text \<open>An option with its default text.\<close>

type_synonym option_description = "(string \<times> string option) list"

record config_env =
  getenv :: "string \<Rightarrow> string option"
  wordexp :: "string \<Rightarrow> string list option"
  sysconfdir :: string
  read_file :: "string \<Rightarrow> string option"
  parse_command_line :: "option_description \<Rightarrow> string list \<Rightarrow> (string \<times> string) list res"
  parse_config_file :: "option_description \<Rightarrow> string \<Rightarrow> (string \<times> string) list res"
  store :: "option_description \<Rightarrow> (string \<times> string) list \<Rightarrow> variables_map \<Rightarrow> variables_map res"
  lexical_int :: "string \<Rightarrow> int option"

definition store_ref :: "option_description \<Rightarrow> (string \<times> string) list \<Rightarrow> variables_map \<Rightarrow> variables_map" where
  "store_ref opts given m = (\<lambda>k. case m k of
     Some (v, False) \<Rightarrow> Some (v, False)
   | old \<Rightarrow> (case map_of given k of
       Some v \<Rightarrow> Some (v, False)
     | None \<Rightarrow> (case old of
         Some d \<Rightarrow> Some d
       | None \<Rightarrow> (case map_of opts k of Some (Some d) \<Rightarrow> Some (d, True) | _ \<Rightarrow> None))))"

text \<open>\<open>store\<close> refuses a value of a wrong type or one that is given twice with an exception of its own, which is a
  logic error; otherwise an option that was given in an earlier source keeps its value.\<close>

definition documented_options :: "config_env \<Rightarrow> bool" where
  "documented_options C \<longleftrightarrow> (\<forall>opts given m. case store C opts given m of
     Inr m1 \<Rightarrow> m1 = store_ref opts given m
   | Inl e \<Rightarrow> \<exists>t. e = Logic_error t)"

section \<open>Defaults\<close>

text \<open>The first word that the name of the default file expands to.\<close>

definition getDefaultConfigFile :: "config_env \<Rightarrow> string res" where
  "getDefaultConfigFile C = (case wordexp C ''$HOME/.wdb/wdb.conf'' of
     None \<Rightarrow> Inl (Logic_error ''Unable to parse file name: <$HOME/.wdb/wdb.conf>'')
   | Some [] \<Rightarrow> Inl (Logic_error ''Error when parsing file name <$HOME/.wdb/wdb.conf>'')
   | Some (w # _) \<Rightarrow> Inr w)"

definition getDefaultTarget :: "config_env \<Rightarrow> string" where
  "getDefaultTarget C = (case getenv C ''PGDATABASE'' of Some d \<Rightarrow> d | None \<Rightarrow> ''wdb'')"

definition getDefaultHost :: string where
  "getDefaultHost = ''''"

definition getDefaultUser :: "config_env \<Rightarrow> string" where
  "getDefaultUser C = (case getenv C ''PGUSER'' of Some u \<Rightarrow> u
   | None \<Rightarrow> (case getenv C ''USER'' of Some u \<Rightarrow> u | None \<Rightarrow> ''''))"

definition DEFAULT_POSTGRES_PORT :: int where
  "DEFAULT_POSTGRES_PORT = 5432"

definition getDefaultPort :: "config_env \<Rightarrow> int res" where
  "getDefaultPort C = (case getenv C ''PGPORT'' of
     None \<Rightarrow> Inr DEFAULT_POSTGRES_PORT
   | Some port \<Rightarrow> (case lexical_int C port of
       Some n \<Rightarrow> Inr n
     | None \<Rightarrow> Inl (Runtime_error (port @ '' is not a valid port number''))))"

section \<open>The descriptions\<close>

definition getGeneral :: option_description where
  "getGeneral = [(''help'', Some ''0''), (''version'', Some ''0''), (''config'', None)]"

definition getDatabase :: "config_env \<Rightarrow> option_description res" where
  "getDatabase C = mapE (\<lambda>port. [(''database'', Some (getDefaultTarget C)), (''host'', Some getDefaultHost),
     (''user'', Some (getDefaultUser C)), (''port'', Some (show_int port))]) (getDefaultPort C)"

definition getLogging :: option_description where
  "getLogging = [(''loglevel'', Some ''3''), (''logfile'', None)]"

definition configOptions :: "config_env \<Rightarrow> option_description res" where
  "configOptions C = mapE (\<lambda>d. d @ getLogging) (getDatabase C)"

section \<open>Parsing\<close>

definition store_options :: "config_env \<Rightarrow> option_description \<Rightarrow> (string \<times> string) list \<Rightarrow> (variables_map, unit) call" where
  "store_options C opts given m = (case store C opts given m of Inr m1 \<Rightarrow> (Inr (), m1) | Inl e \<Rightarrow> (Inl e, m))"

definition parse_arguments :: "config_env \<Rightarrow> option_description \<Rightarrow> string list \<Rightarrow> (variables_map, unit) call" where
  "parse_arguments C opts argv = bindS (liftS (parse_command_line C (getGeneral @ opts) argv))
     (store_options C (getGeneral @ opts))"

definition parse_stream :: "config_env \<Rightarrow> option_description \<Rightarrow> string \<Rightarrow> (variables_map, unit) call" where
  "parse_stream C opts content = bindS (liftS (parse_config_file C opts content)) (store_options C opts)"

definition parse_path :: "config_env \<Rightarrow> option_description \<Rightarrow> string \<Rightarrow> (variables_map, unit) call" where
  "parse_path C opts path = (case read_file C path of
     Some content \<Rightarrow> parse_stream C opts content
   | None \<Rightarrow> failS (Runtime_error (''Unable to open configuration file '' @ path)))"

text \<open>\<open>catch (std::runtime_error \&)\<close> with an empty body; a file that opens but does not parse is another exception.\<close>

definition ignore_runtime_error :: "(variables_map, unit) call \<Rightarrow> (variables_map, unit) call" where
  "ignore_runtime_error m st = (case m st of
     (Inl (Runtime_error t), st1) \<Rightarrow> (Inr (), st1)
   | r \<Rightarrow> r)"

definition configFile :: "variables_map \<Rightarrow> string" where
  "configFile m = (case m ''config'' of Some (v, _) \<Rightarrow> v | None \<Rightarrow> '''')"

definition parseAllConfigFiles :: "config_env \<Rightarrow> option_description \<Rightarrow> (variables_map, unit) call" where
  "parseAllConfigFiles C opts =
     bindS (getS configFile) (\<lambda>own.
     bindS (if own \<noteq> '''' then parse_path C opts own else retS ()) (\<lambda>_.
     bindS (ignore_runtime_error (bindS (liftS (getDefaultConfigFile C)) (parse_path C opts))) (\<lambda>_.
     ignore_runtime_error (parse_path C opts (sysconfdir C @ ''/wdb.conf'')))))"

text \<open>The constructor makes the descriptions; \<open>parse\<close> reads the arguments and then the files.\<close>

definition parse_configuration :: "config_env \<Rightarrow> string list \<Rightarrow> variables_map res" where
  "parse_configuration C argv = bindE (configOptions C) (\<lambda>opts.
     case bindS (parse_arguments C opts argv) (\<lambda>_. parseAllConfigFiles C opts) (\<lambda>_. None) of
       (Inl e, _) \<Rightarrow> Inl e
     | (Inr _, m) \<Rightarrow> Inr m)"

section \<open>Connections\<close>

record DatabaseOptions =
  opt_database :: string
  opt_host :: string
  opt_port :: int
  opt_user :: string

definition pqDatabaseConnection :: "DatabaseOptions \<Rightarrow> string" where
  "pqDatabaseConnection db = ''dbname='' @ opt_database db @ '' ''
     @ (if opt_host db \<noteq> '''' then ''host='' @ opt_host db @ '' '' else [])
     @ ''port='' @ show_int (opt_port db) @ '' ''
     @ (if opt_user db \<noteq> '''' then ''user='' @ opt_user db @ '' '' else [])"

definition psqlDatabaseConnection :: "DatabaseOptions \<Rightarrow> string" where
  "psqlDatabaseConnection db = ''-d'' @ opt_database db
     @ (if opt_host db \<noteq> '''' then '' -h'' @ opt_host db else [])
     @ '' -p'' @ show_int (opt_port db) @ '' -U'' @ opt_user db"

section \<open>Which source wins\<close>

text \<open>What a file gives, nothing when it cannot be read.\<close>

definition given_file :: "config_env \<Rightarrow> option_description \<Rightarrow> string \<Rightarrow> (string \<times> string) list" where
  "given_file C opts path = (case read_file C path of
     None \<Rightarrow> []
   | Some content \<Rightarrow> (case parse_config_file C opts content of Inl e \<Rightarrow> [] | Inr given \<Rightarrow> given))"

fun first_given :: "'a option list \<Rightarrow> 'a option" where
  "first_given [] = None"
| "first_given (Some v # rest) = Some v"
| "first_given (None # rest) = first_given rest"

lemma first_given_None [simp]: "first_given (x # rest) = (case x of Some v \<Rightarrow> Some v | None \<Rightarrow> first_given rest)"
  by (cases x) simp_all

text \<open>A value that was given, and the map after a source: \<open>set_by gs\<close> says what every option has.\<close>

definition default_of :: "option_description \<Rightarrow> string \<Rightarrow> string option" where
  "default_of opts k = (case map_of opts k of Some d \<Rightarrow> d | None \<Rightarrow> None)"

definition set_by :: "option_description \<Rightarrow> (string \<times> string) list list \<Rightarrow> variables_map \<Rightarrow> bool" where
  "set_by opts gs m \<longleftrightarrow> (\<forall>k. m k = (case first_given (map (\<lambda>g. map_of g k) gs) of
     Some v \<Rightarrow> Some (v, False)
   | None \<Rightarrow> map_option (\<lambda>d. (d, True)) (default_of opts k)))"

lemma first_given_append: "first_given (xs @ ys) = (case first_given xs of Some v \<Rightarrow> Some v | None \<Rightarrow> first_given ys)"
  by (induction xs) (auto split: option.split)

lemma store_first: "set_by opts [g] (store_ref opts g (\<lambda>_. None))"
  by (auto simp: set_by_def store_ref_def default_of_def split: option.split)

lemma store_later:
  assumes "set_by opts gs m" and "\<And>k d. map_of opts' k = Some (Some d) \<Longrightarrow> default_of opts k = Some d"
  shows "set_by opts (gs @ [g]) (store_ref opts' g m)"
  unfolding set_by_def
proof
  fix k
  have m: "m k = (case first_given (map (\<lambda>g. map_of g k) gs) of Some v \<Rightarrow> Some (v, False)
      | None \<Rightarrow> map_option (\<lambda>d. (d, True)) (default_of opts k))"
    using assms(1) by (simp add: set_by_def)
  show "store_ref opts' g m k = (case first_given (map (\<lambda>g. map_of g k) (gs @ [g])) of
     Some v \<Rightarrow> Some (v, False) | None \<Rightarrow> map_option (\<lambda>d. (d, True)) (default_of opts k))"
    using assms(2) [of k] m by (auto simp: store_ref_def first_given_append split: option.splits)
qed

lemma set_by_nothing: "set_by opts gs m \<Longrightarrow> set_by opts (gs @ [[]]) m"
  by (auto simp: set_by_def first_given_append split: option.split)

lemma store_optionsD:
  assumes "documented_options C" and "store_options C opts given m = (r, m1)"
  shows "(r = Inr () \<and> m1 = store_ref opts given m) \<or> (\<exists>t. r = Inl (Logic_error t))"
proof -
  have doc: "case store C opts given m of Inr m1 \<Rightarrow> m1 = store_ref opts given m | Inl e \<Rightarrow> \<exists>t. e = Logic_error t"
    using assms(1) by (simp add: documented_options_def)
  show ?thesis
    using doc assms(2) unfolding store_options_def by (cases "store C opts given m") auto
qed

text \<open>The options of a file cannot clash with the general ones.\<close>

lemma config_defaults:
  assumes "configOptions C = Inr opts" and "map_of opts k = Some (Some d)"
  shows "default_of (getGeneral @ opts) k = Some d"
proof -
  from assms(1) obtain p where "opts = [(''database'', Some (getDefaultTarget C)), (''host'', Some getDefaultHost),
     (''user'', Some (getDefaultUser C)), (''port'', Some (show_int p))] @ getLogging"
    by (auto simp: configOptions_def getDatabase_def mapE_eq_Inr)
  then have "map_of getGeneral k = None"
    using assms(2) by (auto simp: getGeneral_def getLogging_def split: if_splits)
  then show ?thesis using assms(2) by (simp add: default_of_def map_add_def)
qed

lemma path_step:
  assumes C: "documented_options C" and opts: "configOptions C = Inr opts"
    and m: "set_by (getGeneral @ opts) gs m" and run: "parse_path C opts path m = (r, m1)"
    and ok: "r = Inr () \<or> (\<exists>t. r = Inl (Runtime_error t))"
  shows "set_by (getGeneral @ opts) (gs @ [given_file C opts path]) m1"
proof (cases "read_file C path")
  case None
  with run m show ?thesis by (simp add: parse_path_def given_file_def set_by_nothing)
next
  case (Some content)
  show ?thesis
  proof (cases "parse_config_file C opts content")
    case (Inl e)
    with run m Some show ?thesis by (simp add: parse_path_def parse_stream_def given_file_def bindS_def set_by_nothing)
  next
    case (Inr given)
    with run Some have "store_options C opts given m = (r, m1)" by (simp add: parse_path_def parse_stream_def bindS_def)
    from store_optionsD [OF C this] ok have "m1 = store_ref opts given m" by auto
    with store_later [OF m config_defaults [OF opts]] Some Inr show ?thesis by (simp add: given_file_def)
  qed
qed

lemma ignore_step:
  "ignore_runtime_error f st = (Inr (), st1) \<Longrightarrow> \<exists>r. f st = (r, st1) \<and> (r = Inr () \<or> (\<exists>t. r = Inl (Runtime_error t)))"
  by (auto simp: ignore_runtime_error_def split: prod.splits sum.splits err.splits)

text \<open>The sources of a run, in the order they are read: the arguments, the file they name, the file of the user and
  that of the system.\<close>

definition user_file :: "config_env \<Rightarrow> option_description \<Rightarrow> (string \<times> string) list" where
  "user_file C opts = (case getDefaultConfigFile C of Inl e \<Rightarrow> [] | Inr path \<Rightarrow> given_file C opts path)"

definition own_file :: "config_env \<Rightarrow> option_description \<Rightarrow> (string \<times> string) list \<Rightarrow> (string \<times> string) list" where
  "own_file C opts given = (case map_of given ''config'' of
     None \<Rightarrow> []
   | Some path \<Rightarrow> (if path = '''' then [] else given_file C opts path))"

lemma files_step:
  assumes C: "documented_options C" and opts: "configOptions C = Inr opts" and m: "set_by (getGeneral @ opts) [given] m"
    and run: "parseAllConfigFiles C opts m = (Inr (), m1)"
  shows "set_by (getGeneral @ opts) [given, own_file C opts given, user_file C opts, given_file C opts (sysconfdir C @ ''/wdb.conf'')] m1"
proof -
  note step = path_step [OF C opts]
  have "default_of (getGeneral @ opts) ''config'' = None" by (simp add: default_of_def getGeneral_def map_add_def)
  then have own: "configFile m = (case map_of given ''config'' of Some p \<Rightarrow> p | None \<Rightarrow> '''')"
    using m by (auto simp: configFile_def set_by_def split: option.split)
  from run obtain m2 m3
    where first: "(if configFile m \<noteq> '''' then parse_path C opts (configFile m) else retS ()) m = (Inr (), m2)"
      and second: "ignore_runtime_error (bindS (liftS (getDefaultConfigFile C)) (parse_path C opts)) m2 = (Inr (), m3)"
      and third: "ignore_runtime_error (parse_path C opts (sysconfdir C @ ''/wdb.conf'')) m3 = (Inr (), m1)"
    by (auto simp: parseAllConfigFiles_def bindS_eq_Inr)
  have m2: "set_by (getGeneral @ opts) [given, own_file C opts given] m2"
  proof (cases "configFile m = ''''")
    case True
    then have "own_file C opts given = []" using own by (auto simp: own_file_def split: option.splits)
    with True first set_by_nothing [OF m] show ?thesis by simp
  next
    case False
    then have "own_file C opts given = given_file C opts (configFile m)" using own by (auto simp: own_file_def split: option.splits)
    with False first step [OF m, of "configFile m" "Inr ()" m2] show ?thesis by simp
  qed
  have m3: "set_by (getGeneral @ opts) [given, own_file C opts given, user_file C opts] m3"
  proof (cases "getDefaultConfigFile C")
    case (Inl e)
    with ignore_step [OF second] have "m3 = m2" by (auto simp: bindS_def)
    with set_by_nothing [OF m2] Inl show ?thesis by (simp add: user_file_def)
  next
    case (Inr path)
    from ignore_step [OF second] obtain r where "parse_path C opts path m2 = (r, m3)" "r = Inr () \<or> (\<exists>t. r = Inl (Runtime_error t))"
      using Inr by (auto simp: bindS_def)
    from step [OF m2 this] Inr show ?thesis by (simp add: user_file_def)
  qed
  from ignore_step [OF third] obtain r
    where "parse_path C opts (sysconfdir C @ ''/wdb.conf'') m3 = (r, m1)" "r = Inr () \<or> (\<exists>t. r = Inl (Runtime_error t))" by blast
  from step [OF m3 this] show ?thesis by simp
qed

text \<open>C36: the first source that gives an option wins. When a program's configuration is parsed, each option has the value
  from the arguments if they give it, otherwise that of the file named by \<open>config\<close>, of the user's file, of the
  system's file, in this order, otherwise its default; files that cannot be read count as empty, but the one that
  was named must be readable, or nothing is parsed.\<close>

theorem first_source_wins:
  assumes "documented_options C" and "parse_configuration C argv = Inr m"
  shows "\<exists>opts given. configOptions C = Inr opts \<and> parse_command_line C (getGeneral @ opts) argv = Inr given
    \<and> (\<forall>k. map_option fst (m k) = first_given [map_of given k, map_of (own_file C opts given) k, map_of (user_file C opts) k,
         map_of (given_file C opts (sysconfdir C @ ''/wdb.conf'')) k, default_of (getGeneral @ opts) k])
    \<and> (\<forall>path. map_of given ''config'' = Some path \<longrightarrow> path = '''' \<or> read_file C path \<noteq> None)"
proof -
  from assms(2) obtain opts m0 where opts: "configOptions C = Inr opts"
    and args: "parse_arguments C opts argv (\<lambda>_. None) = (Inr (), m0)" and files: "parseAllConfigFiles C opts m0 = (Inr (), m)"
  proof -
    from assms(2) obtain opts where opts: "configOptions C = Inr opts"
      and run: "(case bindS (parse_arguments C opts argv) (\<lambda>_. parseAllConfigFiles C opts) (\<lambda>_. None) of
         (Inl e, _) \<Rightarrow> Inl e | (Inr _, m) \<Rightarrow> Inr m) = Inr m"
      unfolding parse_configuration_def bindE_eq_Inr by blast
    obtain r m1 where eq: "bindS (parse_arguments C opts argv) (\<lambda>_. parseAllConfigFiles C opts) (\<lambda>_. None) = (r, m1)" by fastforce
    with run have "r = Inr ()" "m1 = m" by (auto split: sum.splits)
    with eq opts that show thesis by (auto simp: bindS_eq_Inr)
  qed
  from args obtain given where given: "parse_command_line C (getGeneral @ opts) argv = Inr given"
    and "store_options C (getGeneral @ opts) given (\<lambda>_. None) = (Inr (), m0)"
    by (auto simp: parse_arguments_def bindS_eq_Inr)
  with store_optionsD [OF assms(1) this(2)] have m0: "set_by (getGeneral @ opts) [given] m0" by (auto intro: store_first)
  have "map_option fst (m k) = first_given [map_of given k, map_of (own_file C opts given) k, map_of (user_file C opts) k,
         map_of (given_file C opts (sysconfdir C @ ''/wdb.conf'')) k, default_of (getGeneral @ opts) k]" for k
    using files_step [OF assms(1) opts m0 files] by (auto simp: set_by_def split: option.split)
  moreover have "path = '''' \<or> read_file C path \<noteq> None" if "map_of given ''config'' = Some path" for path
  proof (rule ccontr)
    assume "\<not> ?thesis"
    then have path: "path \<noteq> ''''" "read_file C path = None" by simp_all
    have "configFile m0 = path" using m0 that by (simp add: configFile_def set_by_def)
    with files path show False by (simp add: parseAllConfigFiles_def bindS_def parse_path_def failS_def getS_def)
  qed
  ultimately show ?thesis using opts given by blast
qed

definition sample_config_env :: config_env where
  "sample_config_env = \<lparr>getenv = (\<lambda>_. None), wordexp = (\<lambda>_. Some [''/home/me/.wdb/wdb.conf'']), sysconfdir = ''/etc'',
     read_file = (\<lambda>p. if p = ''/home/me/.wdb/wdb.conf'' then Some ''me'' else if p = ''/etc/wdb.conf'' then Some ''all'' else None),
     parse_command_line = (\<lambda>_ _. Inr [(''port'', ''1'')]),
     parse_config_file = (\<lambda>_ c. Inr (if c = ''me'' then [(''host'', ''mine'')] else [(''host'', ''ours''), (''port'', ''2''), (''user'', ''all'')])),
     store = (\<lambda>opts given m. Inr (store_ref opts given m)), lexical_int = (\<lambda>_. None)\<rparr>"

theorem first_source_wins_witness:
  "\<exists>m. parse_configuration sample_config_env [] = Inr m \<and> map_option fst (m ''port'') = Some ''1''
     \<and> map_option fst (m ''host'') = Some ''mine'' \<and> map_option fst (m ''user'') = Some ''all''
     \<and> map_option fst (m ''loglevel'') = Some ''3''"
proof -
  have doc: "documented_options sample_config_env" by (simp add: documented_options_def sample_config_env_def)
  obtain m where m: "parse_configuration sample_config_env [] = Inr m"
    by (simp add: parse_configuration_def configOptions_def getDatabase_def getDefaultPort_def parse_arguments_def
        parseAllConfigFiles_def parse_path_def parse_stream_def store_options_def ignore_runtime_error_def getDefaultConfigFile_def
        sample_config_env_def bindE_def mapE_def bindS_def configFile_def store_ref_def getGeneral_def getLogging_def)
  from first_source_wins [OF doc m] obtain opts given where opts: "configOptions sample_config_env = Inr opts"
    and given: "parse_command_line sample_config_env (getGeneral @ opts) [] = Inr given"
    and val: "\<And>k. map_option fst (m k) = first_given [map_of given k, map_of (own_file sample_config_env opts given) k,
      map_of (user_file sample_config_env opts) k, map_of (given_file sample_config_env opts (sysconfdir sample_config_env @ ''/wdb.conf'')) k,
      default_of (getGeneral @ opts) k]" by blast
  have "default_of (getGeneral @ opts) ''loglevel'' = Some ''3''"
    using opts by (rule config_defaults)
      (use opts in \<open>auto simp: configOptions_def getDatabase_def getLogging_def mapE_eq_Inr\<close>)
  moreover have "given = [(''port'', ''1'')]" using given by (simp add: sample_config_env_def)
  ultimately have "map_option fst (m ''port'') = Some ''1''" "map_option fst (m ''host'') = Some ''mine''"
    "map_option fst (m ''user'') = Some ''all''" "map_option fst (m ''loglevel'') = Some ''3''"
    unfolding val by (simp_all add: sample_config_env_def own_file_def user_file_def given_file_def getDefaultConfigFile_def)
  with m show ?thesis by blast
qed

end
