(* ===== verification/Cleaning.thy ===== *)
theory Cleaning
  imports Prelude
begin

text \<open>
  The clean-up of the data base (\<open>cleanDb.c\<close>), an SQL function that runs with the rights of its owner: it calls the
  strategies of a table in their order and then the final clean-up. The server interface is a parameter: a
  statement is run read-only or not, and gives rows (the first column of each, null or not) or another
  status, or raises an error. Warnings and debug messages are left out.
\<close>

datatype spi_status = Spi_rows "string option list" | Spi_failed

type_synonym 's spi_execute = "bool \<Rightarrow> string \<Rightarrow> ('s, spi_status) call"

text \<open>Only letters and underscores.\<close>

fun is_valid_function_name :: "string \<Rightarrow> bool" where
  "is_valid_function_name [] = True"
| "is_valid_function_name (letter # rest) =
     (if (code letter < 97 \<or> 122 < code letter) \<and> (code letter < 65 \<or> 90 < code letter) \<and> letter \<noteq> CHR ''_''
      then False else is_valid_function_name rest)"

definition strategies_query :: string where
  "strategies_query = ''SELECT function FROM clean.strategies ORDER BY call_order''"

definition final_cleanup :: "string \<Rightarrow> string" where
  "final_cleanup wdb_schema = ''SELECT '' @ wdb_schema @ ''.vacuum_file_blob(); SELECT '' @ wdb_schema @ ''.remove_unreferenced_files()''"

text \<open>The loop over the names; a null name is read through a null pointer.\<close>

fun call_strategies :: "'s spi_execute \<Rightarrow> string option list \<Rightarrow> ('s, unit) call" where
  "call_strategies SPI_execute [] = retS ()"
| "call_strategies SPI_execute (None # rest) = failS (Undefined ''a null function name is read'')"
| "call_strategies SPI_execute (Some f # rest) =
     (if is_valid_function_name f
      then bindS (SPI_execute False (''SELECT clean.'' @ f @ ''()'')) (\<lambda>_. call_strategies SPI_execute rest)
      else call_strategies SPI_execute rest)"

definition cleanupdb :: "bool \<Rightarrow> string \<Rightarrow> 's spi_execute \<Rightarrow> ('s, unit) call" where
  "cleanupdb spi_connects wdb_schema SPI_execute =
     (if \<not> spi_connects then failS (Ereport ERRCODE_INTERNAL_ERROR ''Cleaner: Unable to initialize SPI'')
      else bindS (SPI_execute True strategies_query) (\<lambda>result. case result of
        Spi_failed \<Rightarrow> failS (Ereport ERRCODE_INTERNAL_ERROR ''Cleaner: Unable to locate cleaning table'')
      | Spi_rows functions \<Rightarrow> bindS (call_strategies SPI_execute functions) (\<lambda>_.
          bindS (SPI_execute False (final_cleanup wdb_schema)) (\<lambda>_. retS ()))))"

section \<open>The statements that are run\<close>

lemma valid_function_name_iff:
  "is_valid_function_name f \<longleftrightarrow> list_all (\<lambda>c. islower c \<or> isupper c \<or> c = CHR ''_'') f"
  by (induction f) (auto simp: islower_def isupper_def)

lemma call_strategies_eq:
  "list_all (\<lambda>f. f \<noteq> None) fs \<Longrightarrow> call_strategies SPI_execute fs
     = mapS (\<lambda>_. ()) (forS (filter is_valid_function_name (map the fs)) (\<lambda>f. SPI_execute False (''SELECT clean.'' @ f @ ''()'')))"
proof (induction fs)
  case Nil
  then show ?case by (simp add: mapS_def mapE_def fun_eq_iff)
next
  case (Cons f fs)
  then obtain g where "f = Some g" by auto
  with Cons show ?case
    by (auto simp: fun_eq_iff bindS_def mapS_def mapE_def split: prod.splits sum.splits)
qed

text \<open>A server that records its statements.\<close>

definition recorder :: "string option list \<Rightarrow> string list spi_execute" where
  "recorder fs read_only q log = (Inr (if read_only then Spi_rows fs else Spi_rows []), log @ [q])"

lemma recorded_calls:
  "forS gs (\<lambda>f. recorder fs False (h f)) log = (Inr (map (\<lambda>_. Spi_rows []) gs), log @ map h gs)"
  by (induction gs arbitrary: log) (simp_all add: bindS_def recorder_def)

text \<open>C38: the clean-up, which runs with the rights of its owner, runs nothing but its own statements. Whatever names
  the table of strategies holds, the server sees the query of the table, one call of a function of the schema
  \<open>clean\<close> for each name of letters and underscores, in the order of the table, and the final clean-up; a name with
  any other character is passed over.\<close>

theorem cleanup_statements:
  assumes "list_all (\<lambda>f. f \<noteq> None) fs"
  shows "cleanupdb True wdb_schema (recorder fs) [] = (Inr (), [strategies_query]
     @ map (\<lambda>f. ''SELECT clean.'' @ f @ ''()'') (filter (list_all (\<lambda>c. islower c \<or> isupper c \<or> c = CHR ''_'')) (map the fs))
     @ [final_cleanup wdb_schema])"
proof -
  have query: "recorder fs True strategies_query [] = (Inr (Spi_rows fs), [strategies_query])" by (simp add: recorder_def)
  have names: "is_valid_function_name = list_all (\<lambda>c. islower c \<or> isupper c \<or> c = CHR ''_'')"
    by (simp add: fun_eq_iff valid_function_name_iff)
  have "call_strategies (recorder fs) fs [strategies_query] = (Inr (), [strategies_query]
      @ map (\<lambda>f. ''SELECT clean.'' @ f @ ''()'') (filter (list_all (\<lambda>c. islower c \<or> isupper c \<or> c = CHR ''_'')) (map the fs)))"
    unfolding call_strategies_eq [OF assms] by (simp add: mapS_def mapE_def recorded_calls names)
  with query show ?thesis by (simp add: cleanupdb_def bindS_def) (simp add: recorder_def)
qed

theorem cleanup_statements_witness:
  "snd (cleanupdb True ''wdb_int'' (recorder [Some ''old_times'', Some ''x(); DROP TABLE y'', Some ''low'']) []) =
    [''SELECT function FROM clean.strategies ORDER BY call_order'', ''SELECT clean.old_times()'', ''SELECT clean.low()'',
     ''SELECT wdb_int.vacuum_file_blob(); SELECT wdb_int.remove_unreferenced_files()'']"
  using cleanup_statements [of "[Some ''old_times'', Some ''x(); DROP TABLE y'', Some ''low'']" "''wdb_int''"]
  by (simp add: islower_def isupper_def code_def strategies_query_def final_cleanup_def)

end
