(* ===== verification/Tuples.thy ===== *)
theory Tuples
  imports Captures NamedInteger Specifications Location GridGeometry
begin

text \<open>
  Texts and rows as they pass between SQL and C: the two forms of a text (\<open>conversion.c\<close>), the rows that the C
  functions return (\<open>tuple.c\<close>, \<open>psqlTypesTupleInterface.c\<close>, \<open>getLatLonCoordinates\<close>), the columns they read
  (\<open>psqlTupleInterface.c\<close>), the query for a place (\<open>getPlaceQuery.c\<close>), and the SQL functions as the server calls
  them, from a text argument to a row (\<open>timeSpec.cpp\<close>, \<open>levelSpec.cpp\<close>, \<open>wciLocation.cpp\<close>,
  \<open>databaseProjection.cpp\<close>). What the server does with a column of a given type is a parameter.
\<close>

section \<open>Texts\<close>

text \<open>A \<open>text\<close> value: the size in its header, which counts the header, and its bytes. A C string is a memory
  block that is read up to its first zero byte.\<close>

record varlena =
  varsize :: int
  vardata :: string

definition VARHDRSZ :: int where
  "VARHDRSZ = 4"

abbreviation NUL :: char where
  "NUL \<equiv> CHR 0x00"

definition strlen :: "string \<Rightarrow> nat res" where
  "strlen block = (if NUL \<in> set block then Inr (length (takeWhile (\<lambda>c. c \<noteq> NUL) block))
     else Inl (Undefined ''a block without a zero byte is read''))"

text \<open>\<open>palloc\<close> takes a \<open>size_t\<close>; what is over one gigabyte is an error of the server.\<close>

definition MaxAllocSize :: int where
  "MaxAllocSize = 0x3FFFFFFF"

definition palloc :: "int \<Rightarrow> unit res" where
  "palloc n = (let size = n mod 2 ^ 64 in
     if size \<le> MaxAllocSize then Inr ()
     else Inl (Ereport ERRCODE_INTERNAL_ERROR (''invalid memory alloc request size '' @ show_int size)))"

definition to_int32 :: "int \<Rightarrow> int" where
  "to_int32 n = sint (word_of_int n :: 32 word)"

definition memcpy :: "int \<Rightarrow> string \<Rightarrow> string res" where
  "memcpy n bytes = (if n < 0 \<or> int (length bytes) < n then Inl (Undefined ''memcpy reads past the block'')
     else Inr (take (nat n) bytes))"

definition textFromCString :: "string \<Rightarrow> varlena res" where
  "textFromCString block =
     bindE (strlen block) (\<lambda>n. let size = to_int32 (int n) in
     bindE (palloc (size + VARHDRSZ)) (\<lambda>_.
     mapE (\<lambda>bytes. \<lparr>varsize = VARHDRSZ + size, vardata = bytes\<rparr>) (memcpy size block)))"

definition cStringFromText :: "varlena \<Rightarrow> string res" where
  "cStringFromText t = (let size = to_int32 (varsize t - VARHDRSZ) in
     bindE (palloc (size + 1)) (\<lambda>_. mapE (\<lambda>bytes. bytes @ [NUL]) (memcpy size (vardata t))))"

text \<open>A C string as a \<open>std::string\<close>, and the other way.\<close>

definition std_string :: "string \<Rightarrow> string res" where
  "std_string block = mapE (\<lambda>n. take n block) (strlen block)"

definition c_str :: "string \<Rightarrow> string" where
  "c_str s = s @ [NUL]"

text \<open>A text of the server: its header agrees with its bytes, there is no zero byte among them, and it is smaller
  than the largest block.\<close>

definition server_text :: "string \<Rightarrow> bool" where
  "server_text s \<longleftrightarrow> NUL \<notin> set s \<and> int (length s) + VARHDRSZ \<le> MaxAllocSize"

definition text_of :: "string \<Rightarrow> varlena" where
  "text_of s = \<lparr>varsize = VARHDRSZ + int (length s), vardata = s\<rparr>"

lemma to_int32_range: "- (2 ^ 31) \<le> n \<Longrightarrow> n < 2 ^ 31 \<Longrightarrow> to_int32 n = n"
  by (simp add: to_int32_def signed_of_int signed_take_bit_int_eq_self)

lemma to_int32_small: "0 \<le> n \<Longrightarrow> n \<le> MaxAllocSize \<Longrightarrow> to_int32 n = n"
  by (simp add: to_int32_range MaxAllocSize_def)

lemma palloc_small: "0 \<le> n \<Longrightarrow> n \<le> MaxAllocSize \<Longrightarrow> palloc n = Inr ()"
  by (simp add: palloc_def MaxAllocSize_def)

lemma strlen_c_str [simp]: "NUL \<notin> set s \<Longrightarrow> strlen (c_str s) = Inr (length s)"
proof -
  assume "NUL \<notin> set s"
  then have "takeWhile (\<lambda>c. c \<noteq> NUL) (s @ [NUL]) = s" by (subst takeWhile_append2) auto
  then show ?thesis by (simp add: strlen_def c_str_def)
qed

lemma std_string_c_str [simp]: "NUL \<notin> set s \<Longrightarrow> std_string (c_str s) = Inr s"
  by (simp add: std_string_def) (simp add: c_str_def)

lemma textFromCString_text:
  assumes "server_text s"
  shows "textFromCString (c_str s) = Inr (text_of s)"
proof -
  have n: "int (length s) + VARHDRSZ \<le> MaxAllocSize" "NUL \<notin> set s" using assms by (simp_all add: server_text_def)
  have v: "0 \<le> VARHDRSZ" by (simp add: VARHDRSZ_def)
  have "to_int32 (int (length s)) = int (length s)" using n v by (intro to_int32_small) simp_all
  moreover have "palloc (int (length s) + VARHDRSZ) = Inr ()" using n v by (intro palloc_small) simp_all
  ultimately show ?thesis
    using n(2) by (simp add: textFromCString_def memcpy_def text_of_def) (simp add: c_str_def)
qed

lemma cStringFromText_text:
  assumes "server_text s"
  shows "cStringFromText (text_of s) = Inr (c_str s)"
proof -
  have n: "int (length s) + 4 \<le> MaxAllocSize" using assms by (simp add: server_text_def VARHDRSZ_def)
  have "to_int32 (int (length s)) = int (length s)" using n by (intro to_int32_small) simp_all
  moreover have "palloc (int (length s) + 1) = Inr ()" using n by (intro palloc_small) simp_all
  ultimately show ?thesis by (simp add: cStringFromText_def memcpy_def text_of_def VARHDRSZ_def c_str_def)
qed

text \<open>Texts over a gigabyte are refused when they are made.\<close>

lemma textFromCString_large:
  assumes "NUL \<notin> set s" and "MaxAllocSize < int (length s) + VARHDRSZ" and "int (length s) < 2 ^ 31"
  shows "\<exists>t. textFromCString (c_str s) = Inl (Ereport ERRCODE_INTERNAL_ERROR t)"
proof -
  have "to_int32 (int (length s)) = int (length s)"
    using assms(3) by (simp add: to_int32_range)
  moreover have "(int (length s) + VARHDRSZ) mod 2 ^ 64 = int (length s) + VARHDRSZ"
    using assms(3) by (intro mod_pos_pos_trivial) (simp_all add: VARHDRSZ_def)
  ultimately show ?thesis
    using assms(1,2) by (simp add: textFromCString_def palloc_def Let_def)
qed

section \<open>Rows that a function returns\<close>

text \<open>A column with its SQL type, NULL as \<open>None\<close>; \<open>real\<close> and \<open>integer\<close> have four bytes, \<open>float8\<close> and \<open>bigint\<close> eight.\<close>

datatype column =
    RealC fp | Float8C fp | IntegerC "32 word" | BigintC "64 word" | TextC varlena | BoolC bool
  | TimestampC string | GeometryC string

type_synonym row = "column option list"

text \<open>What a call is made with: whether a row is expected, and the input functions of the expected columns.\<close>

record call_info =
  expects_row :: bool
  column_input :: "nat \<Rightarrow> string \<Rightarrow> column res"

definition get_call_result_type :: "call_info \<Rightarrow> string \<Rightarrow> unit res" where
  "get_call_result_type fcinfo message =
     (if expects_row fcinfo then Inr () else Inl (Ereport ERRCODE_DATA_EXCEPTION message))"

definition no_record :: string where
  "no_record = ''Function returning record called in context that cannot accept type record''"

text \<open>The message of a packing function, with the name it gives.\<close>

definition no_record_in :: "string \<Rightarrow> string" where
  "no_record_in name = CHR 0x27 # name @ CHR 0x27 # '': '' @ no_record"

definition heap_form_tuple :: "column list \<Rightarrow> bool list \<Rightarrow> row" where
  "heap_form_tuple values isNull = map2 (\<lambda>v n. if n then None else Some v) values isNull"

text \<open>A null pointer among the C strings is a null column.\<close>

fun BuildTupleFromCStrings :: "(nat \<Rightarrow> string \<Rightarrow> column res) \<Rightarrow> nat \<Rightarrow> string option list \<Rightarrow> row res" where
  "BuildTupleFromCStrings input n [] = Inr []"
| "BuildTupleFromCStrings input n (None # vs) = mapE (\<lambda>r. None # r) (BuildTupleFromCStrings input (Suc n) vs)"
| "BuildTupleFromCStrings input n (Some v # vs) = bindE (std_string v) (\<lambda>w. bindE (input n w) (\<lambda>c.
     mapE (\<lambda>r. Some c # r) (BuildTupleFromCStrings input (Suc n) vs)))"

definition createTupleFromCStringArray :: "call_info \<Rightarrow> string option list \<Rightarrow> row res" where
  "createTupleFromCStringArray fcinfo specList = bindE (get_call_result_type fcinfo no_record) (\<lambda>_.
     BuildTupleFromCStrings (column_input fcinfo) 0 specList)"

definition createTupleFromDatumArray :: "call_info \<Rightarrow> column list \<Rightarrow> bool list \<Rightarrow> row res" where
  "createTupleFromDatumArray fcinfo specList isNull = mapE (\<lambda>_. heap_form_tuple specList isNull)
     (get_call_result_type fcinfo no_record)"

text \<open>Two of the packing functions report under the name of a third one.\<close>

definition packWciParameter :: "string \<Rightarrow> string \<Rightarrow> string \<Rightarrow> call_info \<Rightarrow> row res" where
  "packWciParameter statisticsType physicalPhenomena usageArea fcinfo =
     bindE (get_call_result_type fcinfo (no_record_in ''packSessionData'')) (\<lambda>_.
     bindE (textFromCString statisticsType) (\<lambda>st.
     bindE (textFromCString physicalPhenomena) (\<lambda>pp.
     mapE (\<lambda>ua. heap_form_tuple [TextC st, TextC pp, TextC ua] [False, False, False]) (textFromCString usageArea))))"

definition packWciLevelParameter :: "string \<Rightarrow> string \<Rightarrow> call_info \<Rightarrow> row res" where
  "packWciLevelParameter physicalPhenomena usageArea fcinfo =
     bindE (get_call_result_type fcinfo (no_record_in ''packSessionData'')) (\<lambda>_.
     bindE (textFromCString physicalPhenomena) (\<lambda>pp.
     mapE (\<lambda>ua. heap_form_tuple [TextC pp, TextC ua] [False, False]) (textFromCString usageArea)))"

definition packWciLocation :: "string \<Rightarrow> string \<Rightarrow> bool \<Rightarrow> call_info \<Rightarrow> row res" where
  "packWciLocation interp place isPlainGeometry fcinfo =
     bindE (get_call_result_type fcinfo (no_record_in ''packWciLocation'')) (\<lambda>_.
     bindE (textFromCString interp) (\<lambda>i.
     mapE (\<lambda>l. heap_form_tuple [TextC i, TextC l, BoolC isPlainGeometry] [False, False, False]) (textFromCString place)))"

definition getLatLonCoordinates :: "fp \<Rightarrow> fp \<Rightarrow> call_info \<Rightarrow> row res" where
  "getLatLonCoordinates x y fcinfo = mapE (\<lambda>_. heap_form_tuple [Float8C x, Float8C y] [False, False])
     (get_call_result_type fcinfo (no_record_in ''getLatLonCoordinates''))"

section \<open>Columns that a function reads\<close>

text \<open>\<open>GetAttributeByName\<close> of a row: an error of the server when it has no such column.\<close>

type_synonym heap_header = "string \<Rightarrow> column option res"

text \<open>\<open>snprintf\<close> into 64 bytes.\<close>

definition null_message :: "string \<Rightarrow> string" where
  "null_message name = take 63 (''NULL value in '' @ name)"

definition extractDatum_of :: "heap_header \<Rightarrow> string \<Rightarrow> column res" where
  "extractDatum_of t name = bindE (t name) (\<lambda>extracted. case extracted of
     None \<Rightarrow> Inl (Ereport ERRCODE_NULL_VALUE_NOT_ALLOWED (null_message name))
   | Some v \<Rightarrow> Inr v)"

definition other_type :: "'a res" where
  "other_type = Inl (Undefined ''a datum of another type'')"

fun DatumGetFloat4 :: "column \<Rightarrow> fp res" where
  "DatumGetFloat4 (RealC x) = Inr x"
| "DatumGetFloat4 _ = other_type"

text \<open>The integer macros take the low bytes of the datum.\<close>

fun DatumGetUInt32 :: "column \<Rightarrow> (32 word) res" where
  "DatumGetUInt32 (IntegerC w) = Inr w"
| "DatumGetUInt32 (BigintC w) = Inr (ucast w)"
| "DatumGetUInt32 _ = other_type"

definition DatumGetInt32 :: "column \<Rightarrow> int res" where
  "DatumGetInt32 c = mapE sint (DatumGetUInt32 c)"

fun DatumGetText :: "column \<Rightarrow> varlena res" where
  "DatumGetText (TextC t) = Inr t"
| "DatumGetText _ = other_type"

definition extractFloat_of :: "heap_header \<Rightarrow> string \<Rightarrow> fp res" where
  "extractFloat_of t name = bindE (extractDatum_of t name) DatumGetFloat4"

definition extractUInt_of :: "heap_header \<Rightarrow> string \<Rightarrow> (32 word) res" where
  "extractUInt_of t name = bindE (extractDatum_of t name) DatumGetUInt32"

definition extractInt_of :: "heap_header \<Rightarrow> string \<Rightarrow> int res" where
  "extractInt_of t name = bindE (extractDatum_of t name) DatumGetInt32"

text \<open>Here the size is a \<open>size_t\<close>.\<close>

definition extractString_of :: "heap_header \<Rightarrow> string \<Rightarrow> string res" where
  "extractString_of t name = bindE (extractDatum_of t name) (\<lambda>extracted. bindE (DatumGetText extracted) (\<lambda>data.
     let size = varsize data - VARHDRSZ in
     bindE (palloc (size + 1)) (\<lambda>_. mapE (\<lambda>bytes. bytes @ [NUL]) (memcpy size (vardata data)))))"

text \<open>The SRID is not among the columns, so it keeps what the memory has.\<close>

text \<open>The members of the place are written one by one, so an error leaves those before it written.\<close>

definition store_member :: "'v res \<Rightarrow> ('v \<Rightarrow> 's \<Rightarrow> 's) \<Rightarrow> ('s, unit) call" where
  "store_member r put = bindS (liftS r) (\<lambda>v. modifyS (put v))"

definition extractPlaceSpecification :: "heap_header \<Rightarrow> (PlaceSpecification, unit) call" where
  "extractPlaceSpecification t =
     bindS (store_member (extractFloat_of t ''startx'') (\<lambda>v out. out\<lparr>startX := v\<rparr>)) (\<lambda>_.
     bindS (store_member (extractFloat_of t ''starty'') (\<lambda>v out. out\<lparr>startY := v\<rparr>)) (\<lambda>_.
     bindS (store_member (extractUInt_of t ''numberx'') (\<lambda>v out. out\<lparr>xNumber := v\<rparr>)) (\<lambda>_.
     bindS (store_member (extractUInt_of t ''numbery'') (\<lambda>v out. out\<lparr>yNumber := v\<rparr>)) (\<lambda>_.
     bindS (store_member (extractFloat_of t ''incrementx'') (\<lambda>v out. out\<lparr>xIncrement := v\<rparr>)) (\<lambda>_.
     bindS (store_member (extractFloat_of t ''incrementy'') (\<lambda>v out. out\<lparr>yIncrement := v\<rparr>)) (\<lambda>_.
     store_member (bindE (extractString_of t ''projdefinition'') std_string) (\<lambda>v out. out\<lparr>projDefinition := v\<rparr>)))))))"

record ExtractGridDataReturnType =
  eg_location :: string
  eg_value :: fp
  eg_i :: int
  eg_j :: int

definition extractExtractGridDataReturnType :: "heap_header \<Rightarrow> ExtractGridDataReturnType res" where
  "extractExtractGridDataReturnType t =
     bindE (extractString_of t ''location'') (\<lambda>l. bindE (extractFloat_of t ''value'') (\<lambda>v.
     bindE (extractInt_of t ''i'') (\<lambda>i. mapE (\<lambda>j. \<lparr>eg_location = l, eg_value = v, eg_i = i, eg_j = j\<rparr>)
       (extractInt_of t ''j''))))"

text \<open>The functions for reading, where NULL is a value of its own: a null pointer or zero.\<close>

definition textout :: "column \<Rightarrow> string res" where
  "textout c = mapE (\<lambda>t. c_str (vardata t)) (DatumGetText c)"

definition extractTextDatum :: "column \<Rightarrow> string res" where
  "extractTextDatum c = textout c"

definition nullable :: "heap_header \<Rightarrow> string \<Rightarrow> 'a \<Rightarrow> (column \<Rightarrow> 'a res) \<Rightarrow> 'a res" where
  "nullable row name null read = bindE (row name) (\<lambda>v. case v of None \<Rightarrow> Inr null | Some c \<Rightarrow> read c)"

definition extractText :: "heap_header \<Rightarrow> string \<Rightarrow> string option res" where
  "extractText row name = nullable row name None (\<lambda>c. mapE Some (textout c))"

definition extractFloat :: "heap_header \<Rightarrow> string \<Rightarrow> fp res" where
  "extractFloat row name = nullable row name (Fin 0) DatumGetFloat4"

text \<open>The \<open>int64\<close> is narrowed to an \<open>int\<close>.\<close>

definition extractInt :: "heap_header \<Rightarrow> string \<Rightarrow> int res" where
  "extractInt row name = nullable row name 0 DatumGetInt32"

definition extractTimestamp :: "(string \<Rightarrow> string) \<Rightarrow> heap_header \<Rightarrow> string \<Rightarrow> string option res" where
  "extractTimestamp timestamptz_out row name = nullable row name None (\<lambda>c. case c of
     TimestampC t \<Rightarrow> Inr (Some (c_str (timestamptz_out t)))
   | _ \<Rightarrow> other_type)"

definition extractTimeIndeterminateCode :: "heap_header \<Rightarrow> string \<Rightarrow> string option res" where
  "extractTimeIndeterminateCode row name = nullable row name None (\<lambda>c.
     bindE (DatumGetInt32 c) (\<lambda>i. mapE (\<lambda>s. Some (c_str s)) (timeIndeterminateType_out i)))"

definition extractLevelIndeterminateCode :: "heap_header \<Rightarrow> string \<Rightarrow> string option res" where
  "extractLevelIndeterminateCode row name = nullable row name None (\<lambda>c.
     bindE (DatumGetInt32 c) (\<lambda>i. mapE (\<lambda>s. Some (c_str s)) (levelIndeterminateType_out i)))"

section \<open>The query for a place\<close>

text \<open>What an execution leaves: the return code, the number of rows, and the first column of the rows when there is
  a table. \<close>

record place_result =
  spi_code :: int
  spi_processed :: nat
  spi_tuptable :: "string option list option"

definition first_value :: "string option list \<Rightarrow> string option res" where
  "first_value vals = (case vals of
     [] \<Rightarrow> Inl (Undefined ''a row that is not there'')
   | None # _ \<Rightarrow> Inl (Undefined ''strlen(NULL)'')
   | Some t # _ \<Rightarrow> Inr (Some (c_str t)))"

definition getPlaceQuery :: "bool \<Rightarrow> (string \<Rightarrow> place_result res) \<Rightarrow> string \<Rightarrow> string option res" where
  "getPlaceQuery spi_connects SPI_execute pquery =
     (if \<not> spi_connects then Inl (Ereport ERRCODE_CONNECTION_EXCEPTION ''Unable to create SPI connection to database.'')
      else bindE (SPI_execute pquery) (\<lambda>r. let proc = to_int32 (int (spi_processed r)) in
        if 0 < spi_code r \<and> proc = 1 \<and> spi_tuptable r \<noteq> None then first_value (the (spi_tuptable r))
        else if proc = 0 then Inr (Some (c_str ''NULL''))
        else if 1 < proc then Inl (Ereport ERRCODE_SQL_ROUTINE_EXCEPTION
          ''Routine getPlaceQuery_ returned more than one result row'')
        else if spi_code r < 0 then Inl (Ereport ERRCODE_SQL_ROUTINE_EXCEPTION
          ''Routine getPlaceQuery_ was unable to query database'')
        else Inr None))"

text \<open>The server leaves no rows behind a statement that failed, so the last error is never the answer: a failed
  query reads as a place that does not exist.\<close>

lemma failed_place_query:
  assumes "SPI_execute q = Inr r" and "spi_code r < 0" and "spi_processed r = 0"
  shows "getPlaceQuery True SPI_execute q = Inr (Some (c_str ''NULL''))"
  using assms by (simp add: getPlaceQuery_def to_int32_range)

section \<open>The SQL functions\<close>

definition text_argument :: "varlena \<Rightarrow> string res" where
  "text_argument t = bindE (cStringFromText t) std_string"

definition timeSpec_call :: "'a boost \<Rightarrow> varlena \<Rightarrow> call_info \<Rightarrow> row res" where
  "timeSpec_call E spec fcinfo = bindE (text_argument spec) (\<lambda>s. bindE (timeSpec E s) (\<lambda>values.
     createTupleFromCStringArray fcinfo (map (map_option c_str) values)))"

definition levelSpec_call :: "'a boost \<Rightarrow> varlena \<Rightarrow> call_info \<Rightarrow> row res" where
  "levelSpec_call E spec fcinfo = bindE (text_argument spec) (\<lambda>s. bindE (levelSpec E s) (\<lambda>(f, t, parameter, i).
     bindE (textFromCString (c_str parameter)) (\<lambda>p.
     createTupleFromDatumArray fcinfo [RealC f, RealC t, TextC p, IntegerC (word_of_int i)] [False, False, False, False])))"

text \<open>Here the bytes are copied by hand.\<close>

definition getWciLocation_call :: "loc_action boost \<Rightarrow> varlena \<Rightarrow> call_info \<Rightarrow> row res" where
  "getWciLocation_call E place fcinfo =
     bindE (memcpy (varsize place - VARHDRSZ) (vardata place)) (\<lambda>p. bindE (std_string (p @ [NUL])) (\<lambda>s.
     bindE (getWciLocation E s) (\<lambda>(i, l, plain). packWciLocation (c_str i) (c_str l) plain fcinfo)))"

text \<open>The grid of a row of \<open>placeregulargrid\<close> as a polygon.\<close>

definition text_result :: "string \<Rightarrow> varlena res" where
  "text_result s = (let size = to_int32 (VARHDRSZ + int (length s)) in
     mapE (\<lambda>_. \<lparr>varsize = size, vardata = s\<rparr>) (palloc size))"

definition createGeometryText :: "proj \<Rightarrow> int \<Rightarrow> 32 word \<Rightarrow> 32 word \<Rightarrow> fp \<Rightarrow> fp \<Rightarrow> fp \<Rightarrow> fp \<Rightarrow> varlena \<Rightarrow> varlena res" where
  "createGeometryText P memory numX numY incrementX incrementY startx starty projDef =
     bindE (memcpy (varsize projDef - VARHDRSZ) (vardata projDef)) (\<lambda>definition_text.
     bindE (report_std ERRCODE_NULL_VALUE_NOT_ALLOWED (fst (wktRepresentation P (GridGeometry_new memory definition_text
       LeftLowerHorizontal (ucast numX) (ucast numY) incrementX incrementY startx starty)))) text_result)"

lemma memcpy_text [simp]: "memcpy (varsize (text_of s) - VARHDRSZ) (vardata (text_of s)) = Inr s"
  by (simp add: memcpy_def text_of_def)

lemma text_argument_text [simp]: "server_text s \<Longrightarrow> text_argument (text_of s) = Inr s"
  by (simp add: text_argument_def cStringFromText_text) (simp add: server_text_def)

section \<open>Level specifications from SQL to a row\<close>

lemma server_text_piece: "server_text s \<Longrightarrow> sublist t s \<Longrightarrow> server_text t"
  using sublist_length_le [of t s] set_mono_sublist [of t s] by (auto simp: server_text_def)

lemma lowercase_NUL: "NUL \<in> set (lowercase s) \<longleftrightarrow> NUL \<in> set s"
proof -
  have "tolower c = NUL \<longleftrightarrow> c = NUL" for c
  proof
    assume "tolower c = NUL"
    then have "code (tolower c) = code NUL" by simp
    moreover have zero: "code NUL = 0" by (simp add: code_def)
    ultimately have "code c = code NUL" using code_tolower [of c] code_bound(1) [of c] by (simp split: if_splits)
    then show "c = NUL" by (simp only: code_def of_char_eq_iff)
  qed (simp add: tolower_def code_def)
  then show ?thesis by (simp add: image_iff) (metis (no_types))
qed

lemma server_text_lowercase: "server_text (lowercase s) \<longleftrightarrow> server_text s"
  using lowercase_NUL [of s] by (simp add: server_text_def)

definition level_row :: "fp \<Rightarrow> fp \<Rightarrow> string \<Rightarrow> nat \<Rightarrow> row" where
  "level_row f t p i = [Some (RealC f), Some (RealC t), Some (TextC (text_of p)), Some (IntegerC (word_of_nat i))]"

lemma level_call:
  assumes "server_text s"
  shows "levelSpec E s = Inr (f, t, p, int i) \<Longrightarrow> server_text p \<Longrightarrow> levelSpec_call E (text_of s) fcinfo =
      (if expects_row fcinfo then Inr (level_row f t p i) else Inl (Ereport ERRCODE_DATA_EXCEPTION no_record))"
    and "levelSpec E s = Inl e \<Longrightarrow> levelSpec_call E (text_of s) fcinfo = Inl e"
  using assms by (simp_all add: levelSpec_call_def textFromCString_text createTupleFromDatumArray_def
      get_call_result_type_def heap_form_tuple_def level_row_def)

text \<open>C5: what SQL gets for any text that it hands to \<open>levelSpec\<close>. A text outside the pattern is the error that calls it
  invalid; a text of the pattern with a number that no \<open>float\<close> can hold is the error that it cannot be interpreted; any
  other text of the pattern gives, where a row is expected, four columns without NULL: the two numbers of the text as
  \<open>real\<close>s (the second is the first when there is no end), the parameter in lower case, which is itself a text of the
  server, and the position in the level table of the word of the text ("exact" when it has none). Where no row is
  expected the error says so. No text, copy or allocation on the way fails.\<close>

theorem level_spec_rows:
  assumes "documented E" and "server_text s"
  shows "case rx_match True level_rx s of
      None \<Rightarrow> s \<notin> rx_lang True level_rx \<and> levelSpec_call E (text_of s) fcinfo =
        Inl (Ereport ERRCODE_INVALID_TEXT_REPRESENTATION (''Invalid level specification: '' @ s))
    | Some m \<Rightarrow> s \<in> rx_lang True level_rx \<and> (if level_fits m
        then (\<exists>i < 5. levelIndetTypes ! i = level_word m \<and> server_text (lowercase (m 6))
          \<and> levelSpec_call E (text_of s) fcinfo = (if expects_row fcinfo
              then Inr (level_row (level_value (m 3)) (level_value (level_end m)) (lowercase (m 6)) i)
              else Inl (Ereport ERRCODE_DATA_EXCEPTION no_record)))
        else levelSpec_call E (text_of s) fcinfo =
          Inl (Ereport ERRCODE_INVALID_TEXT_REPRESENTATION (''Unable to interpret level specification: '' @ s)))"
proof (cases "rx_match True level_rx s")
  case None
  with rx_match_iff [of True level_rx s] level_specification_total(1) [OF assms(1) None] level_call(2) [OF assms(2)]
  show ?thesis by simp
next
  case (Some m)
  then have lang: "s \<in> rx_lang True level_rx" using rx_match_iff [of True level_rx s] by simp
  show ?thesis
  proof (cases "level_fits m")
    case True
    have p: "server_text (lowercase (m 6))"
      using server_text_piece [OF assms(2) rx_match_piece [OF Some]] by (simp add: server_text_lowercase)
    from level_specification_total(3) [OF assms(1) Some True] obtain i where i: "i < 5"
      "levelIndetTypes ! i = level_word m" and
      "levelSpec E s = Inr (level_value (m 3), level_value (level_end m), lowercase (m 6), int i)" by blast
    from level_call(1) [OF assms(2) this(3) p] i p lang Some True show ?thesis
      by (auto simp del: split_paired_Ex intro!: exI [of _ i])
  next
    case False
    with level_specification_total(2) [OF assms(1) Some False] level_call(2) [OF assms(2)] lang Some
    show ?thesis by simp
  qed
qed

abbreviation row_call :: call_info where
  "row_call \<equiv> \<lparr>expects_row = True, column_input = \<lambda>_ _. other_type\<rparr>"

lemma level_match_example:
  "map_option (\<lambda>m. (level_fits m, level_value (m 3), level_value (level_end m), lowercase (m 6), level_word m))
     (rx_match True level_rx ''above 2 TO 10 m'') = Some (True, Fin 2, Fin 10, ''m'', ''above'')"
  "map_option level_fits (rx_match True level_rx (replicate 40 (CHR ''9'') @ '' m'')) = Some False"
  by code_simp+

theorem level_spec_rows_witness:
  "levelSpec_call (boost_ref :: unit boost) (text_of ''above 2 TO 10 m'') row_call
     = Inr (level_row (Fin 2) (Fin 10) ''m'' 2)
   \<and> levelSpec_call (boost_ref :: unit boost) (text_of (replicate 40 (CHR ''9'') @ '' m'')) row_call
     = Inl (Ereport ERRCODE_INVALID_TEXT_REPRESENTATION
         (''Unable to interpret level specification: '' @ replicate 40 (CHR ''9'') @ '' m''))"
proof
  have s: "server_text ''above 2 TO 10 m''" by (simp add: server_text_def VARHDRSZ_def MaxAllocSize_def)
  obtain m where m: "rx_match True level_rx ''above 2 TO 10 m'' = Some m" "level_fits m" "level_value (m 3) = Fin 2"
    "level_value (level_end m) = Fin 10" "lowercase (m 6) = ''m''" "level_word m = ''above''"
    using level_match_example(1) by auto
  with level_spec_rows [where E = "boost_ref :: unit boost" and fcinfo = row_call, OF documented_ref s]
  obtain i where i: "i < 5" "levelIndetTypes ! i = ''above''"
    and row: "levelSpec_call (boost_ref :: unit boost) (text_of ''above 2 TO 10 m'') row_call
      = Inr (level_row (Fin 2) (Fin 10) ''m'' i)" by auto
  have "\<forall>i < 5. levelIndetTypes ! i = ''above'' \<longrightarrow> i = 2" by (simp add: levelIndetTypes_def All_less_Suc2 numeral_eq_Suc)
  with i have "i = 2" by blast
  with row show "levelSpec_call (boost_ref :: unit boost) (text_of ''above 2 TO 10 m'') row_call
     = Inr (level_row (Fin 2) (Fin 10) ''m'' 2)" by simp
next
  let ?s = "replicate 40 (CHR ''9'') @ '' m''"
  have s: "server_text ?s" by (simp add: server_text_def VARHDRSZ_def MaxAllocSize_def)
  obtain m where "rx_match True level_rx ?s = Some m" "\<not> level_fits m" using level_match_example(2) by auto
  with level_spec_rows [where E = "boost_ref :: unit boost" and fcinfo = row_call, OF documented_ref s]
  show "levelSpec_call (boost_ref :: unit boost) (text_of ?s) row_call
     = Inl (Ereport ERRCODE_INVALID_TEXT_REPRESENTATION (''Unable to interpret level specification: '' @ ?s))" by simp
qed

section \<open>Reading the row of a grid\<close>

definition grid_row :: "heap_header \<Rightarrow> fp option \<Rightarrow> fp option \<Rightarrow> 32 word option \<Rightarrow> 32 word option \<Rightarrow> fp option \<Rightarrow>
    fp option \<Rightarrow> string option \<Rightarrow> bool" where
  "grid_row t sx sy nx ny ix iy pd \<longleftrightarrow>
     t ''startx'' = Inr (map_option RealC sx) \<and> t ''starty'' = Inr (map_option RealC sy)
   \<and> t ''numberx'' = Inr (map_option IntegerC nx) \<and> t ''numbery'' = Inr (map_option IntegerC ny)
   \<and> t ''incrementx'' = Inr (map_option RealC ix) \<and> t ''incrementy'' = Inr (map_option RealC iy)
   \<and> t ''projdefinition'' = Inr (map_option (\<lambda>s. TextC (text_of s)) pd) \<and> pred_option server_text pd"

fun first_null :: "(string \<times> bool) list \<Rightarrow> string option" where
  "first_null [] = None"
| "first_null ((name, null) # cols) = (if null then Some name else first_null cols)"

abbreviation not_null :: "string \<Rightarrow> 'a option \<Rightarrow> 'a res" where
  "not_null name v \<equiv> (case v of
     None \<Rightarrow> Inl (Ereport ERRCODE_NULL_VALUE_NOT_ALLOWED (null_message name)) | Some x \<Rightarrow> Inr x)"

lemma extract_column:
  "t name = Inr v \<Longrightarrow> extractDatum_of t name = not_null name v"
  by (simp add: extractDatum_of_def)

lemma extract_real:
  "t name = Inr (map_option RealC v) \<Longrightarrow> extractFloat_of t name = not_null name v"
  by (cases v) (simp_all add: extractFloat_of_def extract_column)

lemma extract_unsigned:
  "t name = Inr (map_option IntegerC v) \<Longrightarrow> extractUInt_of t name = not_null name v"
  by (cases v) (simp_all add: extractUInt_of_def extract_column)

lemma extract_string:
  assumes "t name = Inr (map_option (\<lambda>s. TextC (text_of s)) v)" and "pred_option server_text v"
  shows "extractString_of t name = not_null name (map_option c_str v)"
proof (cases v)
  case (Some s)
  with assms(2) have "palloc (int (length s) + 1) = Inr ()"
    by (intro palloc_small) (simp_all add: server_text_def VARHDRSZ_def)
  with Some show ?thesis
    using assms(1) by (simp add: extractString_of_def extract_column text_of_def memcpy_def c_str_def)
qed (simp add: extractString_of_def extract_column assms(1))

lemmas extract_grid = extract_real extract_unsigned extract_string

text \<open>What each column does to the place; None is NULL.\<close>

definition grid_columns :: "fp option \<Rightarrow> fp option \<Rightarrow> 32 word option \<Rightarrow> 32 word option \<Rightarrow> fp option \<Rightarrow> fp option \<Rightarrow>
    string option \<Rightarrow> (string \<times> (PlaceSpecification \<Rightarrow> PlaceSpecification) option) list" where
  "grid_columns sx sy nx ny ix iy pd =
     [(''startx'', map_option (\<lambda>v out. out\<lparr>startX := v\<rparr>) sx), (''starty'', map_option (\<lambda>v out. out\<lparr>startY := v\<rparr>) sy),
      (''numberx'', map_option (\<lambda>v out. out\<lparr>xNumber := v\<rparr>) nx), (''numbery'', map_option (\<lambda>v out. out\<lparr>yNumber := v\<rparr>) ny),
      (''incrementx'', map_option (\<lambda>v out. out\<lparr>xIncrement := v\<rparr>) ix),
      (''incrementy'', map_option (\<lambda>v out. out\<lparr>yIncrement := v\<rparr>) iy),
      (''projdefinition'', map_option (\<lambda>v out. out\<lparr>projDefinition := v\<rparr>) pd)]"

lemma store_column:
  "bindS (store_member (not_null name v) put) f out = (case v of
     None \<Rightarrow> (Inl (Ereport ERRCODE_NULL_VALUE_NOT_ALLOWED (null_message name)), out) | Some x \<Rightarrow> f () (put x out))"
  "store_member (not_null name v) put out = (case v of
     None \<Rightarrow> (Inl (Ereport ERRCODE_NULL_VALUE_NOT_ALLOWED (null_message name)), out) | Some x \<Rightarrow> (Inr (), put x out))"
  by (simp_all add: store_member_def bindS_def liftS_def modifyS_def split: option.split)

text \<open>C39: a grid is read from its row. When each of the seven columns has its type, the place gets
  exactly their values, with the counts as unsigned numbers and the projection cut at the end of its text; if some are
  NULL, the error names the first of them in the order in which the code asks, whatever the order of the columns, and the
  place has got the values of the columns before it and no other.\<close>

theorem grid_row_read:
  assumes "grid_row t sx sy nx ny ix iy pd"
  shows "extractPlaceSpecification t out =
    (case first_null [(''startx'', sx = None), (''starty'', sy = None), (''numberx'', nx = None), (''numbery'', ny = None),
        (''incrementx'', ix = None), (''incrementy'', iy = None), (''projdefinition'', pd = None)] of
       Some name \<Rightarrow> (Inl (Ereport ERRCODE_NULL_VALUE_NOT_ALLOWED (''NULL value in '' @ name)),
         fold (\<lambda>c. the (snd c)) (takeWhile (\<lambda>c. fst c \<noteq> name) (grid_columns sx sy nx ny ix iy pd)) out)
     | None \<Rightarrow> (Inr (), out\<lparr>startX := the sx, startY := the sy, xNumber := the nx, yNumber := the ny,
         xIncrement := the ix, yIncrement := the iy, projDefinition := the pd\<rparr>))"
proof -
  have pd: "pred_option server_text pd" using assms by (simp add: grid_row_def)
  have "extractString_of t ''projdefinition'' = not_null ''projdefinition'' (map_option c_str pd)"
    using assms by (simp add: grid_row_def extract_grid)
  then have cols: "extractFloat_of t ''startx'' = not_null ''startx'' sx"
    "extractFloat_of t ''starty'' = not_null ''starty'' sy"
    "extractUInt_of t ''numberx'' = not_null ''numberx'' nx"
    "extractUInt_of t ''numbery'' = not_null ''numbery'' ny"
    "extractFloat_of t ''incrementx'' = not_null ''incrementx'' ix"
    "extractFloat_of t ''incrementy'' = not_null ''incrementy'' iy"
    "bindE (extractString_of t ''projdefinition'') std_string = not_null ''projdefinition'' pd"
    using assms pd by (auto simp: grid_row_def extract_grid server_text_def split: option.split)
  show ?thesis
    unfolding extractPlaceSpecification_def cols store_column
    by (simp add: null_message_def grid_columns_def split: option.split)
qed

definition sample_row :: "fp option \<Rightarrow> heap_header" where
  "sample_row iy name = (case map_of [(''projdefinition'', Some (TextC (text_of ''+proj=longlat''))), (''numbery'', Some (IntegerC 2)),
     (''numberx'', Some (IntegerC 3)), (''startx'', Some (RealC (Fin 5))), (''starty'', Some (RealC (Fin 60))),
     (''incrementx'', Some (RealC (Fin 1))), (''incrementy'', map_option RealC iy)] name of
     None \<Rightarrow> Inl (Ereport ERRCODE_INTERNAL_ERROR (''attribute '' @ name @ '' does not exist''))
   | Some c \<Rightarrow> Inr c)"

definition raw_place :: PlaceSpecification where
  "raw_place = \<lparr>startX = Fin 0, startY = Fin 0, xNumber = 0, yNumber = 0, xIncrement = Fin 0, yIncrement = Fin 0, srid = 7,
     projDefinition = []\<rparr>"

theorem grid_row_read_witness:
  "extractPlaceSpecification (sample_row (Some (Fin 10))) raw_place = (Inr (), \<lparr>startX = Fin 5, startY = Fin 60, xNumber = 3,
     yNumber = 2, xIncrement = Fin 1, yIncrement = Fin 10, srid = 7, projDefinition = ''+proj=longlat''\<rparr>)
   \<and> extractPlaceSpecification (sample_row None) raw_place =
     (Inl (Ereport ERRCODE_NULL_VALUE_NOT_ALLOWED ''NULL value in incrementy''),
      \<lparr>startX = Fin 5, startY = Fin 60, xNumber = 3, yNumber = 2, xIncrement = Fin 1, yIncrement = Fin 0, srid = 7,
        projDefinition = []\<rparr>)"
proof -
  have row: "grid_row (sample_row iy) (Some (Fin 5)) (Some (Fin 60)) (Some 3) (Some 2) (Some (Fin 1)) iy (Some ''+proj=longlat'')" for iy
    by (simp add: grid_row_def sample_row_def server_text_def VARHDRSZ_def MaxAllocSize_def)
  show ?thesis unfolding grid_row_read [OF row] raw_place_def by (simp add: grid_columns_def)
qed

end
