(* ===== verification/GridPoint.thy ===== *)
theory GridPoint
  imports Captures
begin

text \<open>
  The points of a field specification (\<open>GridPoint.cpp\<close>, \<open>GridPoint.h\<close>): their text form \<open>x,y\<close> or \<open>x,y=value\<close>, how it
  is read from a string and from a stream, and how it is printed. Boost.Regex is the parameter of Externals, the
  two uses of \<open>boost::lexical_cast\<close> are a parameter of their own.
\<close>

section \<open>Whole numbers as text\<close>

lemma show_base_lower: "0 < n \<Longrightarrow> 10 ^ (length (show_base 10 n) - 1) \<le> n"
proof (induction "10 :: int" n rule: show_base.induct)
  case (1 n)
  show ?case
  proof (cases "n < 10")
    case True
    with "1.prems" show ?thesis by (subst show_base.simps) simp
  next
    case False
    then have "10 ^ (length (show_base 10 (n div 10)) - 1) \<le> n div 10"
      using 1 by (simp add: pos_imp_zdiv_pos_iff)
    then have "10 * 10 ^ (length (show_base 10 (n div 10)) - 1) \<le> 10 * (n div 10)" by simp
    moreover have "length (show_base 10 n) - 1 = Suc (length (show_base 10 (n div 10)) - 1)"
      using False by (subst show_base.simps) (simp add: Suc_leI)
    ultimately have "10 ^ (length (show_base 10 n) - 1) \<le> 10 * (n div 10)" by (simp only: power_Suc)
    also have "\<dots> \<le> n" by simp
    finally show ?thesis .
  qed
qed

lemma show_base_upper: "0 \<le> n \<Longrightarrow> n < 10 ^ length (show_base 10 n)"
proof (induction "10 :: int" n rule: show_base.induct)
  case (1 n)
  show ?case
  proof (cases "n < 10")
    case True
    then show ?thesis by (subst show_base.simps) simp
  next
    case False
    then have "n div 10 < 10 ^ length (show_base 10 (n div 10))"
      using 1 by (simp add: pos_imp_zdiv_nonneg_iff)
    then have "n < 10 ^ Suc (length (show_base 10 (n div 10)))" by simp
    then show ?thesis using False by (subst show_base.simps) simp
  qed
qed

lemma digit_char_0: "digit_char 0 = CHR ''0''"
  by code_simp

lemma show_base_zeros: "0 < n \<Longrightarrow> show_base 10 (n * 10 ^ k) = show_base 10 n @ replicate k (CHR ''0'')"
proof (induction k)
  case (Suc k)
  have big: "\<not> n * 10 ^ Suc k < 10"
  proof -
    have "(1 :: int) \<le> 10 ^ k" by simp
    with Suc.prems have "1 * 1 \<le> n * 10 ^ k" by (intro mult_mono) simp_all
    then show ?thesis by simp
  qed
  have "show_base 10 (n * 10 ^ Suc k) = show_base 10 (n * 10 ^ Suc k div 10) @ [digit_char (n * 10 ^ Suc k mod 10)]"
    using big by (subst show_base.simps) simp
  also have "n * 10 ^ Suc k div 10 = n * 10 ^ k" by simp
  also have "n * 10 ^ Suc k mod 10 = 0" by simp
  finally show ?case using Suc by (simp add: digit_char_0 replicate_append_same)
qed simp

lemma strip0_zeros: "strip0 (replicate k (CHR ''0'')) = []"
  by (simp add: strip0_def)

text \<open>A whole number below a million is printed with all its digits.\<close>

lemma ilog10_whole: "0 < k \<Longrightarrow> ilog10 (of_int k) = int (length (show_base 10 k)) - 1"
proof -
  assume k: "0 < k"
  have one: "length (show_base 10 1) = 1" by (subst show_base.simps) simp
  have "pow10 (int (length (show_base 10 k)) - 1) = (of_int (10 ^ (length (show_base 10 k) - 1)) :: rat)"
    by (simp add: pow10_def nat_diff_distrib')
  also have "\<dots> \<le> of_int k" using show_base_lower [OF k] by (simp only: of_int_le_iff)
  finally show ?thesis by (simp add: ilog10_def one)
qed

lemma show_pos_whole:
  assumes "0 < k" and "k < 1000000"
  shows "show_pos (of_int k) = show_base 10 k"
proof -
  let ?L = "length (show_base 10 k)"
  have "10 ^ (?L - 1) < (10 :: int) ^ 6" using show_base_lower [OF assms(1)] assms(2) by simp
  then have "?L - 1 < 6" by (simp only: power_strict_increasing_iff)
  then have L: "1 \<le> ?L" "?L \<le> 6" by (simp_all add: Suc_leI)
  have scale: "of_int k / pow10 (int ?L - 1 - 5) = (of_int (k * 10 ^ (6 - ?L)) :: rat)"
  proof (cases "?L = 6")
    case False
    with L have "\<not> 0 \<le> int ?L - 1 - 5" "nat (- (int ?L - 1 - 5)) = 6 - ?L" by simp_all
    then show ?thesis by (simp add: pow10_def)
  qed (simp add: pow10_def)
  have m: "round_half_even (of_int k / pow10 (int ?L - 1 - 5)) = k * 10 ^ (6 - ?L)"
    unfolding scale by (rule round_half_even_int)
  have "k * 10 ^ (6 - ?L) < 10 ^ ?L * 10 ^ (6 - ?L)"
    using show_base_upper [of k] assms(1) by (intro mult_strict_right_mono) simp_all
  also have "\<dots> = (10 :: int) ^ 6" using L(2) by (simp flip: power_add)
  finally have ne: "k * 10 ^ (6 - ?L) \<noteq> 1000000" by simp
  have digits: "show_base 10 (k * 10 ^ (6 - ?L)) = show_base 10 k @ replicate (6 - ?L) (CHR ''0'')"
    by (rule show_base_zeros [OF assms(1)])
  have "nat (int ?L - 1) + 1 = ?L" using L by simp
  with L digits show ?thesis
    unfolding show_pos_def ilog10_whole [OF assms(1)] Let_def m by (simp add: ne with_fraction_def strip0_zeros)
qed

section \<open>The class\<close>

record GridPoint =
  gp_x :: int
  gp_y :: int
  gp_val :: fp

definition GridPoint_default :: GridPoint where
  "GridPoint_default = \<lparr>gp_x = 0, gp_y = 0, gp_val = Fin 0\<rparr>"

record casts =
  cast_int :: "string \<Rightarrow> int option"
  cast_double :: "string \<Rightarrow> fp option"

text \<open>A sequence of digits is cast to its value, or refused when an \<open>int\<close> cannot hold it; a decimal text to the nearest
  \<open>double\<close>, or refused when that is infinite.\<close>

definition documented_casts :: "casts \<Rightarrow> bool" where
  "documented_casts K \<longleftrightarrow> (\<forall>d. d \<noteq> [] \<and> list_all isdigit d \<longrightarrow>
     cast_int K d = (if read_base 10 d \<le> INT_MAX then Some (read_base 10 d) else None))
   \<and> cast_double K = lexical_fp binary64"

definition lexical_cast :: "'a option \<Rightarrow> 'a res" where
  "lexical_cast v = (case v of
     None \<Rightarrow> Inl (Bad_cast ''bad lexical cast: source type value could not be interpreted as target'')
   | Some x \<Rightarrow> Inr x)"

definition point_number_rx :: rx where
  "point_number_rx = rx_alts [rx_seq [Plus (C CDigit), Opt (C (CChar (CHR ''.''))), Star (C CDigit)], rx_word ''NaN'']"

definition grid_point_rx :: rx where
  "grid_point_rx = rx_seq [Grp 1 (Plus (C CDigit)), C (CChar (CHR '','')), Grp 2 (Plus (C CDigit)),
     Opt (Grp 3 (rx_seq [C (CChar (CHR ''='')), Grp 4 point_number_rx]))]"

lemma grid_point_rx_text:
  "rx_text grid_point_rx = ''('' @ [CHR 0x5C] @ ''d+),('' @ [CHR 0x5C] @ ''d+)(=('' @ [CHR 0x5C] @ ''d+'' @ [CHR 0x5C]
     @ ''.?'' @ [CHR 0x5C] @ ''d*|NaN))?''"
  by (simp add: grid_point_rx_def point_number_rx_def)

text \<open>A missing value is 1.\<close>

definition GridPoint_new :: "'a boost \<Rightarrow> casts \<Rightarrow> string \<Rightarrow> GridPoint res" where
  "GridPoint_new E K point = (case regex_match E False grid_point_rx point of
     None \<Rightarrow> Inl (Logic_error (''Invalid GridPoint: '' @ point))
   | Some m \<Rightarrow>
       bindE (lexical_cast (cast_int K (m 1))) (\<lambda>x.
       bindE (lexical_cast (cast_int K (m 2))) (\<lambda>y.
       mapE (\<lambda>v. \<lparr>gp_x = x, gp_y = y, gp_val = v\<rparr>)
         (if m 4 \<noteq> [] then (if m 4 = ''NaN'' then Inr NaN else lexical_cast (cast_double K (m 4))) else Inr (Fin 1)))))"

definition GridPoint_str :: "GridPoint \<Rightarrow> string" where
  "GridPoint_str p = show_int (gp_x p) @ '','' @ show_int (gp_y p)
     @ (if \<not> feq (gp_val p) (Fin 1) then ''='' @ show_g (gp_val p) else [])"

section \<open>Streams\<close>

text \<open>What an input stream has left, and whether an extraction has failed.\<close>

type_synonym istream = "string \<times> bool"

definition read_word :: "istream \<Rightarrow> string option \<times> istream" where
  "read_word st = (case st of (s, failed) \<Rightarrow>
     (if failed then (None, (s, True))
      else let s1 = dropWhile isspace s; w = takeWhile (\<lambda>c. \<not> isspace c) s1
        in if w = [] then (None, ([], True)) else (Some w, (dropWhile (\<lambda>c. \<not> isspace c) s1, False))))"

text \<open>Only a \<open>std::logic_error\<close> is caught; the exception of \<open>lexical_cast\<close> is another one.\<close>

definition GridPoint_extract :: "'a boost \<Rightarrow> casts \<Rightarrow> GridPoint \<Rightarrow> istream \<Rightarrow> (GridPoint \<times> istream) res" where
  "GridPoint_extract E K p st = (case read_word st of
     (None, st1) \<Rightarrow> Inr (p, st1)
   | (Some data, st1) \<Rightarrow> (case GridPoint_new E K data of
       Inr q \<Rightarrow> Inr (q, st1)
     | Inl (Logic_error _) \<Rightarrow> Inr (p, (fst st1, True))
     | Inl e \<Rightarrow> Inl e))"

section \<open>Which texts are points\<close>

definition digits :: "string \<Rightarrow> bool" where
  "digits d \<longleftrightarrow> d \<noteq> [] \<and> list_all isdigit d"

fun value_text :: "string option \<Rightarrow> string" where
  "value_text None = []"
| "value_text (Some t) = CHR ''='' # t"

definition point_text :: "string \<Rightarrow> string \<Rightarrow> string option \<Rightarrow> string" where
  "point_text a b v = a @ CHR '','' # b @ value_text v"

lemma digits_lang: "d \<in> rx_lang False (Plus (C CDigit)) \<longleftrightarrow> digits d"
proof -
  have "cc_match False CDigit = isdigit" by (simp add: fun_eq_iff)
  then show ?thesis by (simp only: rx_lang_plus_C digits_def mem_Collect_eq)
qed

lemma rx_run_Cat: "(c', s') \<in> set (rx_run ic (Cat p q) c s) \<Longrightarrow>
    \<exists>c1 s1. (c1, s1) \<in> set (rx_run ic p c s) \<and> (c', s') \<in> set (rx_run ic q c1 s1)"
  by auto

lemma rx_run_Grp: "(c', s') \<in> set (rx_run ic (Grp i p) c s) \<Longrightarrow>
    \<exists>c1. (c1, s') \<in> set (rx_run ic p c s) \<and> c' = (i, take (length s - length s') s) # c1"
  by auto

lemma rx_run_Opt: "(c', s') \<in> set (rx_run ic (Opt p) c s) \<Longrightarrow> (c', s') \<in> set (rx_run ic p c s) \<or> (c = c' \<and> s = s')"
  by auto

lemma rx_run_char: "(c', s') \<in> set (rx_run False (Cat (C (CChar x)) q) c s) \<Longrightarrow>
    \<exists>s1. s = x # s1 \<and> (c', s') \<in> set (rx_run False q c s1)"
  by (auto split: list.splits if_splits)

lemma digits_run: "(c', s') \<in> set (rx_run False (Grp i (Plus (C CDigit))) c s) \<Longrightarrow>
    \<exists>d. digits d \<and> s = d @ s' \<and> c' = (i, d) # c"
  using rx_run_group [of "Plus (C CDigit)" c' s' False i c s] digits_lang by auto

lemma grid_point_runs:
  assumes "(c, []) \<in> set (rx_run False grid_point_rx [] s)"
  shows "\<exists>a b v. digits a \<and> digits b \<and> s = point_text a b v \<and> pred_option (\<lambda>t. t \<in> rx_lang False point_number_rx) v
    \<and> map_of c 1 = Some a \<and> map_of c 2 = Some b \<and> map_of c 4 = v"
proof -
  let ?val = "Grp 3 (Cat (C (CChar (CHR ''=''))) (Grp 4 point_number_rx))"
  from assms obtain c1 s1 where 1: "(c1, s1) \<in> set (rx_run False (Grp 1 (Plus (C CDigit))) [] s)"
    and "(c, []) \<in> set (rx_run False (Cat (C (CChar (CHR '',''))) (Cat (Grp 2 (Plus (C CDigit))) (Opt ?val))) c1 s1)"
    unfolding grid_point_rx_def rx_seq.simps by (blast dest: rx_run_Cat)
  then obtain s2 c2 s3 where comma: "s1 = CHR '','' # s2"
    and 2: "(c2, s3) \<in> set (rx_run False (Grp 2 (Plus (C CDigit))) c1 s2)"
    and rest: "(c, []) \<in> set (rx_run False (Opt ?val) c2 s3)"
    by (blast dest: rx_run_Cat rx_run_char)
  from digits_run [OF 1] obtain a where a: "digits a" "s = a @ s1" "c1 = [(1, a)]" by blast
  from digits_run [OF 2] obtain b where b: "digits b" "s2 = b @ s3" "c2 = (2, b) # c1" by blast
  from rest consider "c2 = c" "s3 = []" | "(c, []) \<in> set (rx_run False ?val c2 s3)" by (blast dest: rx_run_Opt)
  then show ?thesis
  proof cases
    case 1
    with a b comma show ?thesis by (intro exI [of _ a] exI [of _ b] exI [of _ None]) (simp add: point_text_def)
  next
    case 2
    from rx_run_Grp [OF 2] obtain c4 where c3: "c = (3, take (length s3 - length ([] :: string)) s3) # c4"
      and run: "(c4, []) \<in> set (rx_run False (Cat (C (CChar (CHR ''=''))) (Grp 4 point_number_rx)) c2 s3)" by blast
    from c3 have c: "c = (3, s3) # c4" by simp
    from rx_run_char [OF run] obtain t where s4: "s3 = CHR ''='' # t"
      and grp: "(c4, []) \<in> set (rx_run False (Grp 4 point_number_rx) c2 t)" by blast
    have "rx_numbers point_number_rx = []" by (simp add: point_number_rx_def)
    from rx_run_group [OF this grp] have t: "t \<in> rx_lang False point_number_rx" "c4 = (4, t) # c2"
      by (simp_all del: rx_run.simps)
    with a b comma c s4 t show ?thesis by (intro exI [of _ a] exI [of _ b] exI [of _ "Some t"]) (simp add: point_text_def)
  qed
qed

text \<open>A point text has one reading.\<close>

lemma takeWhile_point_digits: "digits a \<Longrightarrow> \<not> isdigit x \<Longrightarrow> takeWhile isdigit (a @ x # r) = a"
  by (simp add: digits_def list_all_iff takeWhile_append2)

lemma point_text_inj:
  assumes "digits a" "digits b" "digits a'" "digits b'" and eq: "point_text a b v = point_text a' b' v'"
  shows "a = a'" "b = b'" "v = v'"
proof -
  have no: "\<not> isdigit (CHR '','')" "\<not> isdigit (CHR ''='')" by (simp_all add: isdigit_def code_def)
  from eq show a: "a = a'"
    using takeWhile_point_digits [OF assms(1) no(1)] takeWhile_point_digits [OF assms(3) no(1)] by (simp add: point_text_def) metis
  have tail: "takeWhile isdigit (b @ value_text v) = b" if "digits b" for b and v :: "string option"
    using that takeWhile_point_digits [OF that no(2)] by (cases v) (simp_all add: digits_def list_all_iff)
  from eq a have rest: "b @ value_text v = b' @ value_text v'"
    by (simp add: point_text_def)
  then show b: "b = b'" using tail [OF assms(2)] tail [OF assms(4)] by metis
  from rest b show "v = v'" by (cases v; cases v') simp_all
qed

lemma grid_point_lang:
  assumes "digits a" "digits b" and "pred_option (\<lambda>t. t \<in> rx_lang False point_number_rx) v"
  shows "point_text a b v \<in> rx_lang False grid_point_rx"
proof -
  have d: "a \<in> rx_lang False (Grp 1 (Plus (C CDigit)))" "b \<in> rx_lang False (Grp 2 (Plus (C CDigit)))"
    using assms digits_lang by simp_all
  have "value_text v \<in> rx_lang False (Opt (Grp 3 (Cat (C (CChar (CHR ''=''))) (Grp 4 point_number_rx))))"
    using assms(3) by (cases v) auto
  with d show ?thesis
    unfolding grid_point_rx_def rx_seq.simps point_text_def rx_lang.simps(3) by (simp add: digits_lang) blast
qed

lemma grid_point_match:
  assumes "digits a" "digits b" and "pred_option (\<lambda>t. t \<in> rx_lang False point_number_rx) v"
  shows "\<exists>m. rx_match False grid_point_rx (point_text a b v) = Some m \<and> m 1 = a \<and> m 2 = b
    \<and> m 4 = (case v of None \<Rightarrow> [] | Some t \<Rightarrow> t)"
proof -
  from grid_point_lang [OF assms] obtain m where m: "rx_match False grid_point_rx (point_text a b v) = Some m"
    using rx_match_iff by blast
  then obtain c where 1: "(c, []) \<in> set (rx_run False grid_point_rx [] (point_text a b v))"
    and mc: "m = (\<lambda>i. case map_of c i of Some t \<Rightarrow> t | None \<Rightarrow> [])" by (rule rx_match_SomeD)
  from grid_point_runs [OF 1] obtain a' b' v' where *: "digits a'" "digits b'" "point_text a b v = point_text a' b' v'"
    "map_of c 1 = Some a'" "map_of c 2 = Some b'" "map_of c 4 = v'" by blast
  from point_text_inj [OF assms(1,2) *(1-3)] * m mc show ?thesis by auto
qed

lemma point_number_not_empty: "t \<in> rx_lang False point_number_rx \<Longrightarrow> t \<noteq> []"
  by (auto simp: point_number_rx_def)

lemma digits_number: "digits d \<Longrightarrow> d \<in> rx_lang False point_number_rx"
proof -
  assume "digits d"
  then have "d \<in> rx_lang False (Plus (C CDigit))" by (simp only: digits_lang)
  moreover have "[] \<in> rx_lang False (Cat (Opt (C (CChar (CHR ''.'')))) (Star (C CDigit)))"
    by (auto intro!: exI [of _ "[]"])
  ultimately have "d @ [] \<in> rx_lang False (Cat (Plus (C CDigit)) (Cat (Opt (C (CChar (CHR ''.'')))) (Star (C CDigit))))"
    unfolding rx_lang.simps(3) [of False "Plus (C CDigit)"] by blast
  then show ?thesis by (simp add: point_number_rx_def del: rx_lang.simps(3,5,6,7))
qed

definition bad_cast :: err where
  "bad_cast = Bad_cast ''bad lexical cast: source type value could not be interpreted as target''"

definition point_value :: "string option \<Rightarrow> fp res" where
  "point_value v = (case v of
     None \<Rightarrow> Inr (Fin 1)
   | Some t \<Rightarrow> (if t = ''NaN'' then Inr NaN else lexical_cast (lexical_fp binary64 t)))"

lemma cast_digits:
  "documented_casts K \<Longrightarrow> digits d \<Longrightarrow>
     lexical_cast (cast_int K d) = (if read_base 10 d \<le> INT_MAX then Inr (read_base 10 d) else Inl bad_cast)"
  by (simp add: documented_casts_def digits_def lexical_cast_def bad_cast_def)

lemma new_point:
  assumes "documented E" "documented_casts K" "digits a" "digits b" "pred_option (\<lambda>t. t \<in> rx_lang False point_number_rx) v"
  shows "GridPoint_new E K (point_text a b v) =
    (if read_base 10 a \<le> INT_MAX \<and> read_base 10 b \<le> INT_MAX
     then mapE (\<lambda>x. \<lparr>gp_x = read_base 10 a, gp_y = read_base 10 b, gp_val = x\<rparr>) (point_value v) else Inl bad_cast)"
proof -
  from grid_point_match [OF assms(3-5)] obtain m where m: "rx_match False grid_point_rx (point_text a b v) = Some m"
    "m 1 = a" "m 2 = b" "m 4 = (case v of None \<Rightarrow> [] | Some t \<Rightarrow> t)" by blast
  have "K \<in> {K. cast_double K = lexical_fp binary64}" using assms(2) by (simp add: documented_casts_def)
  with m assms point_number_not_empty show ?thesis
    by (cases v) (simp_all add: GridPoint_new_def cast_digits point_value_def del: One_nat_def)
qed

lemma no_point:
  assumes "documented E" and "s \<notin> rx_lang False grid_point_rx"
  shows "GridPoint_new E K s = Inl (Logic_error (''Invalid GridPoint: '' @ s))"
  using assms rx_match_iff [of False grid_point_rx s] by (simp add: GridPoint_new_def)

section \<open>Printing and reading\<close>

lemma read_digits:
  assumes "digits d"
  shows "read_decimal d = Some (of_int (read_base 10 d))"
proof -
  from assms obtain c r where d: "d = c # r" "isdigit c" by (cases d) (auto simp: digits_def)
  have "c \<noteq> CHR ''-''" "c \<noteq> CHR ''+''" using d(2) by (auto simp: isdigit_def code_def)
  with d have "read_sign d = (False, d)" by (simp add: read_sign_def)
  moreover have "takeWhile isdigit d = d" "dropWhile isdigit d = []"
    using assms by (simp_all add: digits_def list_all_iff)
  moreover have "d \<noteq> []" using d(1) by simp
  ultimately show ?thesis
    by (simp add: read_decimal_def read_expo_def pow10_def Let_def del: takeWhile_eq_all_conv dropWhile_eq_Nil_conv)
qed

lemma lexical_digits:
  assumes "digits d"
  shows "lexical_fp F d = (case read_fp F d of None \<Rightarrow> None | Some x \<Rightarrow> (if in_range x then Some x else None))"
  by (rule lexical_fp_number) (use assms in \<open>cases d; simp add: digits_def\<close>)+

lemma show_digits: "0 \<le> k \<Longrightarrow> digits (show_base 10 k)"
  using show_base10_digits [of k] by (simp add: digits_def list_all_iff)

definition printable :: "GridPoint \<Rightarrow> bool" where
  "printable p \<longleftrightarrow> 0 \<le> gp_x p \<and> gp_x p \<le> INT_MAX \<and> 0 \<le> gp_y p \<and> gp_y p \<le> INT_MAX
     \<and> (gp_val p \<in> Fin ` of_int ` {0..<1000000})"

lemma printable_text:
  assumes "printable p"
  shows "\<exists>v. GridPoint_str p = point_text (show_base 10 (gp_x p)) (show_base 10 (gp_y p)) v
    \<and> pred_option (\<lambda>t. t \<in> rx_lang False point_number_rx) v \<and> point_value v = Inr (gp_val p)
    \<and> (v = None \<or> (\<exists>k. 0 \<le> k \<and> v = Some (show_base 10 k)))"
proof -
  from assms obtain k where k: "gp_val p = Fin (of_int k)" "0 \<le> k" "k < 1000000" by (auto simp: printable_def)
  have xy: "show_int (gp_x p) = show_base 10 (gp_x p)" "show_int (gp_y p) = show_base 10 (gp_y p)"
    using assms by (simp_all add: printable_def show_int_def)
  show ?thesis
  proof (cases "k = 1")
    case True
    with k xy show ?thesis by (intro exI [of _ None]) (simp add: GridPoint_str_def point_text_def point_value_def feq_def)
  next
    case False
    have text_k: "show_g (gp_val p) = show_base 10 k"
    proof (cases "k = 0")
      case True
      then show ?thesis using k by (subst show_base.simps) (simp add: digit_char_0)
    qed (use k show_pos_whole in simp)
    have d: "digits (show_base 10 k)" using k by (simp add: show_digits)
    have "show_base 10 k \<noteq> ''NaN''" using d by (auto simp: digits_def isdigit_def code_def)
    moreover have "rnd binary64 (of_int k) = Fin (of_int k)" using k by (intro rnd_int) simp
    ultimately have "point_value (Some (show_base 10 k)) = Inr (gp_val p)"
      using k read_digits [OF d] lexical_digits [OF d]
      by (simp add: point_value_def lexical_cast_def read_fp_def read_show_base)
    moreover have "GridPoint_str p = point_text (show_base 10 (gp_x p)) (show_base 10 (gp_y p)) (Some (show_base 10 k))"
      using False k xy text_k by (simp add: GridPoint_str_def point_text_def feq_def)
    ultimately show ?thesis
      using k digits_number [OF d] by (intro exI [of _ "Some (show_base 10 k)"]) auto
  qed
qed

lemma printed_point_read:
  assumes "documented E" "documented_casts K" and "printable p"
  shows "GridPoint_new E K (GridPoint_str p) = Inr p"
proof -
  from printable_text [OF assms(3)] obtain v where v: "GridPoint_str p = point_text (show_base 10 (gp_x p)) (show_base 10 (gp_y p)) v"
    "pred_option (\<lambda>t. t \<in> rx_lang False point_number_rx) v" "point_value v = Inr (gp_val p)" by blast
  have xy: "0 \<le> gp_x p" "gp_x p \<le> INT_MAX" "0 \<le> gp_y p" "gp_y p \<le> INT_MAX" using assms(3) by (simp_all add: printable_def)
  show ?thesis
    unfolding v(1) new_point [OF assms(1,2) show_digits [OF xy(1)] show_digits [OF xy(3)] v(2)]
    using xy v(3) by (simp add: read_show_base)
qed

lemma read_word_first:
  assumes "w \<noteq> []" and "\<forall>c \<in> set w. \<not> isspace c" and "rest = [] \<or> isspace (hd rest)"
  shows "read_word (w @ rest, False) = (Some w, (rest, False))"
proof -
  have "dropWhile isspace (w @ rest) = w @ rest" using assms(1,2) by (cases w) simp_all
  moreover have "takeWhile (\<lambda>c. \<not> isspace c) rest = []" "dropWhile (\<lambda>c. \<not> isspace c) rest = rest"
    using assms(3) by (cases rest; auto)+
  ultimately show ?thesis using assms(1,2) by (simp add: read_word_def)
qed

lemma printed_point_chars:
  assumes "printable p"
  shows "GridPoint_str p \<noteq> []" "\<forall>c \<in> set (GridPoint_str p). \<not> isspace c"
proof -
  have no: "\<not> isspace c" if "isdigit c" for c using that by (simp add: isspace_def isdigit_def)
  from printable_text [OF assms] obtain v where v: "GridPoint_str p = point_text (show_base 10 (gp_x p)) (show_base 10 (gp_y p)) v"
    "point_value v = Inr (gp_val p)" "v = None \<or> (\<exists>k. 0 \<le> k \<and> v = Some (show_base 10 k))" by blast
  have xy: "0 \<le> gp_x p" "0 \<le> gp_y p" using assms by (simp_all add: printable_def)
  from v(3) have "\<forall>c \<in> set (value_text v). \<not> isspace c"
    using no show_base10_digits by (auto simp: isspace_def code_def)
  then show "\<forall>c \<in> set (GridPoint_str p). \<not> isspace c"
    unfolding v(1) point_text_def using no show_base10_digits [OF xy(1)] show_base10_digits [OF xy(2)]
    by (auto simp: isspace_def code_def)
  show "GridPoint_str p \<noteq> []" unfolding v(1) point_text_def by simp
qed

text \<open>C40: a point that is printed is read back. For coordinates that an \<open>int\<close> holds and a whole value below a million,
  the printed text gives the same point (the value 1 is not printed and is what a missing value means), and the
  extraction from a stream takes exactly this text, whatever follows after a blank, and does not fail.\<close>

theorem printed_point_is_read:
  assumes "documented E" "documented_casts K" "printable p" and "rest = [] \<or> isspace (hd rest)"
  shows "GridPoint_new E K (GridPoint_str p) = Inr p
    \<and> GridPoint_extract E K q (GridPoint_str p @ rest, False) = Inr (p, (rest, False))"
proof -
  note read = printed_point_read [OF assms(1-3)]
  note chars = printed_point_chars [OF assms(3)]
  have "read_word (GridPoint_str p @ rest, False) = (Some (GridPoint_str p), (rest, False))"
    by (rule read_word_first [OF chars assms(4)])
  with read show ?thesis by (simp add: GridPoint_extract_def)
qed

definition casts_ref :: casts where
  "casts_ref = \<lparr>cast_int = \<lambda>d. if read_base 10 d \<le> INT_MAX then Some (read_base 10 d) else None, cast_double = lexical_fp binary64\<rparr>"

theorem printed_point_is_read_witness:
  "GridPoint_extract (boost_ref :: unit boost) casts_ref
     GridPoint_default (''12,4=70 3,5'', False) = Inr (\<lparr>gp_x = 12, gp_y = 4, gp_val = Fin 70\<rparr>, ('' 3,5'', False))"
proof -
  have K: "documented_casts casts_ref"
    by (simp add: documented_casts_def casts_ref_def)
  have p: "printable \<lparr>gp_x = 12, gp_y = 4, gp_val = Fin 70\<rparr>"
    by (auto simp: printable_def INT_MAX_def intro!: image_eqI [of _ _ 70])
  have t: "GridPoint_str \<lparr>gp_x = 12, gp_y = 4, gp_val = Fin 70\<rparr> = ''12,4=70''" by code_simp
  from printed_point_is_read [where E = "boost_ref :: unit boost", OF documented_ref K p, of "'' 3,5''" GridPoint_default]
  show ?thesis unfolding t by (simp add: isspace_def code_def)
qed

text \<open>What is not read back: a value that is not a number is printed as \<open>nan\<close>. A coordinate that no \<open>int\<close> can hold is
  the exception of \<open>lexical_cast\<close>, which the extraction does not catch.\<close>

lemma printed_nan_is_refused:
  assumes "documented E"
  shows "\<exists>t. GridPoint_new E K (GridPoint_str \<lparr>gp_x = 1, gp_y = 2, gp_val = NaN\<rparr>) = Inl (Logic_error t)"
proof -
  have t: "GridPoint_str \<lparr>gp_x = 1, gp_y = 2, gp_val = NaN\<rparr> = ''1,2=nan''" by code_simp
  have "rx_match False grid_point_rx ''1,2=nan'' = None" by code_simp
  then have "''1,2=nan'' \<notin> rx_lang False grid_point_rx" by (simp flip: rx_match_iff)
  from no_point [OF assms this] show ?thesis unfolding t by blast
qed

lemma large_coordinate_escapes:
  assumes "documented E" "documented_casts K"
  shows "GridPoint_extract E K q (''2147483648,0'', False) = Inl bad_cast"
proof -
  have d: "digits ''2147483648''" "digits ''0''" by (simp_all add: digits_def isdigit_def code_def)
  have "read_base 10 ''2147483648'' = 2147483648" by code_simp
  then have "GridPoint_new E K (point_text ''2147483648'' ''0'' None) = Inl bad_cast"
    using new_point [OF assms d, of None] by (simp add: INT_MAX_def)
  then have new: "GridPoint_new E K ''2147483648,0'' = Inl bad_cast" by (simp add: point_text_def)
  have word: "read_word (''2147483648,0'', False) = (Some ''2147483648,0'', ([], False))" by code_simp
  show ?thesis unfolding GridPoint_extract_def word by (simp add: new) (simp add: bad_cast_def)
qed

end
