(* ===== verification/Programs.thy ===== *)
theory Programs
  imports Configuration
begin

text \<open>
  The programs over the configuration: the program that prints it (\<open>wdbConfigurationMain.cpp\<close>), and the two classes
  that extend the configuration with options of their own (\<open>adminConfiguration.cpp\<close>,
  \<open>WdbDataConfiguration.cpp\<close>). What \<open>program_options\<close> prints as the list of the options and the name and version of
  the package, which the build generates, are parameters.
\<close>

section \<open>The program that prints the configuration\<close>

record package =
  package_name :: string
  package_version :: string
  options_listing :: string

abbreviation newline_text :: string where
  "newline_text \<equiv> [CHR 0x0A]"

abbreviation tab_text :: string where
  "tab_text \<equiv> [CHR 0x09]"

definition version_text :: "package \<Rightarrow> string" where
  "version_text P = ''wdbConfiguration ('' @ package_name P @ '') '' @ package_version P @ newline_text"

definition usage_text :: "package \<Rightarrow> string" where
  "usage_text P = version_text P @ newline_text @ ''Print wdb configuration, based on configuration files.''
     @ newline_text @ newline_text @ options_listing P @ newline_text"

definition main_options :: option_description where
  "main_options = [(''help'', None), (''version'', None), (''conf'', None), (''database'', None), (''host'', None),
     (''user'', None), (''port'', None), (''psqlArgs'', None), (''pqxxArgs'', None)]"

definition given_option :: "variables_map \<Rightarrow> string \<Rightarrow> bool" where
  "given_option m k \<longleftrightarrow> m k \<noteq> None"

definition option_text :: "variables_map \<Rightarrow> string \<Rightarrow> string" where
  "option_text m k = (case m k of None \<Rightarrow> '''' | Some (v, _) \<Rightarrow> v)"

text \<open>The map holds the options of the description that were given; none of them is called \<open>configuration\<close>.\<close>

definition tooManyOptions :: "variables_map \<Rightarrow> bool" where
  "tooManyOptions m \<longleftrightarrow>
     1 < length (filter (\<lambda>(k, _). given_option m k) main_options) - (if given_option m ''configuration'' then 1 else 0)"

text \<open>\<open>notify\<close> copies the stored values; the port has been checked when it was stored.\<close>

definition database_options :: "config_env \<Rightarrow> variables_map \<Rightarrow> DatabaseOptions res" where
  "database_options C m = (case lexical_int C (option_text m ''port'') of
     None \<Rightarrow> Inl (Logic_error ''the argument for option is invalid'')
   | Some n \<Rightarrow> Inr \<lparr>opt_database = option_text m ''database'', opt_host = option_text m ''host'', opt_port = n,
       opt_user = option_text m ''user''\<rparr>)"

definition psqlArgs :: "DatabaseOptions \<Rightarrow> string" where
  "psqlArgs db = psqlDatabaseConnection db @ newline_text"

definition pqxxArgs :: "DatabaseOptions \<Rightarrow> string" where
  "pqxxArgs db = pqDatabaseConnection db @ newline_text"

definition print_configuration :: "variables_map \<Rightarrow> DatabaseOptions \<Rightarrow> string" where
  "print_configuration m db =
     (if given_option m ''database'' then opt_database db @ newline_text
      else if given_option m ''host'' then opt_host db @ newline_text
      else if given_option m ''port'' then show_int (opt_port db) @ newline_text
      else if given_option m ''user'' then opt_user db @ newline_text
      else if given_option m ''psqlArgs'' then psqlArgs db
      else if given_option m ''pqxxArgs'' then pqxxArgs db
      else ''database ='' @ tab_text @ opt_database db @ newline_text
        @ ''host ='' @ tab_text @ tab_text @ opt_host db @ newline_text
        @ ''port ='' @ tab_text @ tab_text @ show_int (opt_port db) @ newline_text
        @ ''user ='' @ tab_text @ tab_text @ opt_user db @ newline_text)"

text \<open>The arguments that the library class is given: the name of the program and the file, if there is one.\<close>

definition inner_arguments :: "variables_map \<Rightarrow> string list \<Rightarrow> string list" where
  "inner_arguments m argv = take 1 argv
     @ (let path = option_text m ''conf'' in if path = '''' then [] else [''--conf='' @ path])"

text \<open>The status, what goes to \<open>cout\<close> and what goes to \<open>clog\<close>.\<close>

definition wdbConfiguration_run :: "config_env \<Rightarrow> package \<Rightarrow> string list \<Rightarrow> (int \<times> string \<times> string) res" where
  "wdbConfiguration_run C P argv =
     bindE (parse_command_line C main_options argv) (\<lambda>given. bindE (store C main_options given (\<lambda>_. None)) (\<lambda>m.
       if tooManyOptions m then Inr (1, '''', ''Only one option is allowed'' @ newline_text)
       else if given_option m ''version'' then Inr (0, version_text P, '''')
       else if given_option m ''help'' then Inr (0, usage_text P, '''')
       else bindE (parse_configuration C (inner_arguments m argv)) (\<lambda>conf.
         mapE (\<lambda>db. (0, print_configuration m db, '''')) (database_options C conf))))"

definition wdbConfiguration_main :: "config_env \<Rightarrow> package \<Rightarrow> string list \<Rightarrow> (int \<times> string \<times> string) res" where
  "wdbConfiguration_main C P argv = (case wdbConfiguration_run C P argv of
     Inl e \<Rightarrow> (if is_std_exception e then Inr (1, '''', what e @ newline_text @ newline_text @ usage_text P) else Inl e)
   | r \<Rightarrow> r)"

section \<open>Configurations with more options\<close>

text \<open>The administration program takes its command as positional arguments.\<close>

definition getInput :: option_description where
  "getInput = [(''command'', None)]"

definition parse_admin_arguments :: "config_env \<Rightarrow> (option_description \<Rightarrow> string list \<Rightarrow> (string \<times> string) list res) \<Rightarrow>
    option_description \<Rightarrow> string list \<Rightarrow> (variables_map, unit) call" where
  "parse_admin_arguments C positional_parser opts argv =
     (let all = getGeneral @ getInput @ opts in
      bindS (liftS (positional_parser all argv)) (store_options C all))"

text \<open>The options of the loaders. The class overrides the parsing of the arguments with an empty body.\<close>

definition getDataDefinitions :: "string \<Rightarrow> string \<Rightarrow> string \<Rightarrow> string \<Rightarrow> string \<Rightarrow> string \<Rightarrow> string \<Rightarrow> option_description" where
  "getDataDefinitions dataProvider place refTime valTime valParam levParam level =
     [(''dataprovider'', Some dataProvider), (''placename'', Some place), (''reftime'', Some refTime),
      (''validtimefrom'', Some valTime), (''validtimeto'', Some valTime), (''valueparameter'', Some valParam),
      (''levelparameter'', Some levParam), (''levelfrom'', Some level), (''levelto'', Some level)]"

definition data_options :: "config_env \<Rightarrow> option_description \<Rightarrow> option_description res" where
  "data_options C definitions = mapE (\<lambda>opts. opts @ definitions) (configOptions C)"

definition parse_data_arguments :: "string list \<Rightarrow> (variables_map, unit) call" where
  "parse_data_arguments argv = retS ()"

definition parse_data_configuration :: "config_env \<Rightarrow> option_description \<Rightarrow> string list \<Rightarrow> variables_map res" where
  "parse_data_configuration C definitions argv = bindE (data_options C definitions) (\<lambda>opts.
     case bindS (parse_data_arguments argv) (\<lambda>_. parseAllConfigFiles C opts) (\<lambda>_. None) of
       (Inl e, _) \<Rightarrow> Inl e
     | (Inr _, m) \<Rightarrow> Inr m)"

section \<open>Lemmas\<close>

text \<open>The file of the user is not combined with a question: \<open>--conf\<close> counts as an option.\<close>

lemma stored_value:
  assumes "documented_options C" and "store C opts given (\<lambda>_. None) = Inr m"
  shows "m k = (case map_of given k of Some v \<Rightarrow> Some (v, False) | None \<Rightarrow> map_option (\<lambda>d. (d, True)) (default_of opts k))"
proof -
  have "case store C opts given (\<lambda>_. None) of Inr m1 \<Rightarrow> m1 = store_ref opts given (\<lambda>_. None) | Inl e \<Rightarrow> \<exists>t. e = Logic_error t"
    using assms(1) unfolding documented_options_def by blast
  with assms(2) have "m = store_ref opts given (\<lambda>_. None)" by simp
  then show ?thesis by (simp add: store_ref_def default_of_def split: option.split)
qed

lemma conf_with_question_refused:
  assumes C: "documented_options C" and "parse_command_line C main_options argv = Inr given"
    and m: "store C main_options given (\<lambda>_. None) = Inr m"
    and conf: "map_of given ''conf'' = Some path" and k: "map_of given k = Some v" "(k, None) \<in> set main_options" "k \<noteq> ''conf''"
    and none: "map_of given ''configuration'' = None"
  shows "wdbConfiguration_main C P argv = Inr (1, '''', ''Only one option is allowed'' @ newline_text)"
proof -
  let ?given = "filter (\<lambda>(k, _). given_option m k) main_options"
  note val = stored_value [OF C m]
  have "(''conf'', None) \<in> set main_options" by (simp add: main_options_def)
  moreover have "given_option m ''conf''" unfolding given_option_def val conf by simp
  ultimately have "(''conf'', None) \<in> set ?given" by simp
  moreover have "given_option m k" unfolding given_option_def val k(1) by simp
  then have "(k, None) \<in> set ?given" using k(2) by simp
  ultimately have "{(''conf'', None), (k, None)} \<subseteq> set ?given" by simp
  then have "card {(''conf'', None :: string option), (k, None)} \<le> card (set ?given)" by (rule card_mono [rotated]) (rule finite_set)
  also have "\<dots> \<le> length ?given" by (rule card_length)
  finally have two: "2 \<le> length ?given" using k(3) by simp
  have "default_of main_options ''configuration'' = None" by (simp add: default_of_def main_options_def)
  with val [of "''configuration''"] none have "\<not> given_option m ''configuration''" by (simp add: given_option_def)
  with two have "tooManyOptions m" unfolding tooManyOptions_def by simp
  with assms(2) m show ?thesis by (simp add: wdbConfiguration_main_def wdbConfiguration_run_def)
qed

text \<open>The programs with data options read no arguments at all.\<close>

lemma data_arguments_ignored: "parse_data_configuration C d argv = parse_data_configuration C d argv'"
  by (simp add: parse_data_configuration_def parse_data_arguments_def)

end
