(* ===== verification/Logging.thy ===== *)
theory Logging
  imports Prelude
begin

text \<open>
  The set-up of the log (\<open>wdbLogHandler.cpp\<close>): where it goes, from which level on, and the layout of a line, which
  carries the name and number of the object that is worked on. log4cpp, which writes the lines, is not modelled; the
  handler's calls on it are the fields below.
\<close>

datatype priority = DEBUG_level | INFO_level | WARN_level | ERROR_level | FATAL_level

datatype appender = Clog | Rolling string nat nat

record WdbLogHandler =
  objectName :: string
  objectNumber :: int
  log_appender :: appender
  log_priority :: priority
  conversionPattern :: string

definition level_priority :: "int \<Rightarrow> priority" where
  "level_priority logLevel =
     (if logLevel = 1 then DEBUG_level else if logLevel = 2 then INFO_level else if logLevel = 3 then WARN_level
      else if logLevel = 4 then ERROR_level else if logLevel = 5 then FATAL_level else DEBUG_level)"

definition setLogLevel :: "int \<Rightarrow> WdbLogHandler \<Rightarrow> WdbLogHandler" where
  "setLogLevel logLevel h = h\<lparr>log_priority := level_priority logLevel\<rparr>"

definition layout_text :: "string \<Rightarrow> int \<Rightarrow> string" where
  "layout_text name number = ''%d %p %c '' @ name @ '' '' @ show_int number @ '': %m%n''"

definition updateLayout :: "WdbLogHandler \<Rightarrow> WdbLogHandler" where
  "updateLayout h = h\<lparr>conversionPattern := layout_text (objectName h) (objectNumber h)\<rparr>"

definition setObjectName :: "string \<Rightarrow> WdbLogHandler \<Rightarrow> WdbLogHandler" where
  "setObjectName on h = updateLayout (h\<lparr>objectName := on\<rparr>)"

definition setObjectNumber :: "int \<Rightarrow> WdbLogHandler \<Rightarrow> WdbLogHandler" where
  "setObjectNumber on h = updateLayout (h\<lparr>objectNumber := on\<rparr>)"

text \<open>A log file is rolled over at a megabyte, with ten old files.\<close>

definition WdbLogHandler_new :: "int \<Rightarrow> string \<Rightarrow> WdbLogHandler" where
  "WdbLogHandler_new loglevel fileName = setLogLevel loglevel (updateLayout
     \<lparr>objectName = [], objectNumber = 0,
      log_appender = (if fileName = [] then Clog else Rolling fileName (1024 * 1024) 10),
      log_priority = DEBUG_level, conversionPattern = []\<rparr>)"

text \<open>The layout always shows the present object: each call that changes the object renews it.\<close>

datatype log_call = Set_level int | Set_name string | Set_number int

primrec log_step :: "log_call \<Rightarrow> WdbLogHandler \<Rightarrow> WdbLogHandler" where
  "log_step (Set_level n) = setLogLevel n"
| "log_step (Set_name s) = setObjectName s"
| "log_step (Set_number n) = setObjectNumber n"

definition layout_current :: "WdbLogHandler \<Rightarrow> bool" where
  "layout_current h \<longleftrightarrow> conversionPattern h = layout_text (objectName h) (objectNumber h)"

lemma log_step_current: "layout_current h \<Longrightarrow> layout_current (log_step c h)"
  by (cases c) (simp_all add: layout_current_def setLogLevel_def setObjectName_def setObjectNumber_def updateLayout_def)

lemma log_calls_current: "layout_current (fold log_step cs (WdbLogHandler_new level fileName))"
proof -
  have "layout_current h \<Longrightarrow> layout_current (fold log_step cs h)" for h
    by (induction cs arbitrary: h) (simp_all add: log_step_current)
  then show ?thesis
    by (simp add: layout_current_def WdbLogHandler_new_def setLogLevel_def updateLayout_def)
qed

end
