(* ===== verification/Spec2Isabelle.thy ===== *)
theory Spec2Isabelle
  imports TimeText QuerySkeleton GridGeometry Caches FileBlob ReadResults ReadRows GeomWrapper Browse WciSession
    AdminShell ConfigFile Configuration Cleaning Tuples GridPoint Programs Logging
begin

text \<open>
  A verification development for WDB, the weather and water database of the Norwegian Meteorological
  Institute: a PostgreSQL extension in C and C++ (\<open>src/callInterface\<close>) that builds the query of a read call,
  reads the values of grids from files and hands them back row by row, the repository of these files
  (\<open>src/blob\<close>), libraries for projections, numbers and configuration (\<open>src/common\<close>), the clean-up function
  (\<open>src/cleaningProgram\<close>) and an administration program (\<open>src/admin\<close>).

  The parts and how they interact. A call \<open>wci.read\<close> arrives as seven SQL arguments, which are parsed, made
  into one SQL statement and run over the server. Each row of the grid table leads, through the place and
  the data id, to a grid file, from which the points of the requested location are read and, with their
  coordinates transformed to longitude and latitude, returned one row per call of a set returning function.
  Plans, places, projections and geometries are cached in the session. \<open>wci.browse\<close> builds statements from the
  same arguments; \<open>wci.begin\<close> keeps the session and changes the role. The administration program talks to
  the server over a connection of its own.

  Conventions. A value of the type \<open>'a res\<close> is an error of the code (an exception with its text, or
  \<open>Ereport\<close>, the non-local exit of PostgreSQL) or a result; \<open>Undefined\<close> marks a step that C or C++ leaves
  undefined. A \<open>('s, 'a) call\<close> passes a state, also through errors. Integers that can wrap are words,
  \<open>double\<close> and \<open>float\<close> are IEEE values with a rational or a special value (\<open>Floating\<close>), in which the two zeros are
  one value, so that a negative zero is never printed. Code that is not in
  the repository is a parameter: Boost (\<open>'a boost\<close>, with \<open>documented\<close> as the hypothesis that it behaves as
  documented), GEOS, PROJ.4, the server interface SPI, the operating system, libpqxx and program options.

  Theories and sources.
  \<^item> \<open>Prelude\<close>, \<open>Floating\<close>, \<open>Externals\<close>, \<open>Captures\<close>: errors, calls, characters, numerals; floating point; the text
    libraries; what the groups of a regular expression capture.
  \<^item> \<open>NamedInteger\<close>, \<open>Specifications\<close>, \<open>TimeText\<close>, \<open>Location\<close>: \<open>src/callInterface/types\<close>, the enumerated types and
    the specifications of times, levels, parameters and places; \<open>TimeText\<close> reads a time without regular expressions.
  \<^item> \<open>Builder\<close>, \<open>Quoting\<close>, \<open>ReadParameters\<close>, \<open>BuildQuery\<close>, \<open>QuerySkeleton\<close>, \<open>Browse\<close>: \<open>Builder.cpp\<close>,
    \<open>wciRead/query\<close> and \<open>wciBrowse.c\<close>, from the arguments to the statement and the structure that it can have.
  \<^item> \<open>CacheInterface\<close>, \<open>Spi\<close>, \<open>Caches\<close>: the contract of the memo tables, the prepared plans (\<open>plan.c\<close>) and the
    places (\<open>getPlaceSpecification.c\<close>).
  \<^item> \<open>Projection\<close>, \<open>GridGeometry\<close>: \<open>src/common/math\<close>, \<open>src/common/projection\<close>, \<open>projTransform.cpp\<close>.
  \<^item> \<open>PathGenerator\<close>, \<open>FileBlob\<close>: \<open>src/blob\<close>, the names of the files and the repository as a map of files.
  \<^item> \<open>OrderedMap\<close>, \<open>GeometryCache\<close>, \<open>GeomWrapper\<close>: \<open>GeometryCache.cpp\<close>, \<open>readCache.cpp\<close>, \<open>wdb_geos.c\<close>,
    \<open>GEOSGeomWrapper.cpp\<close>: maps with a comparison function, the cache of geometries, reference counts.
  \<^item> \<open>Readers\<close>, \<open>ReadResults\<close>: \<open>extractGridData\<close>, the readers of single points, polygons and whole grids.
  \<^item> \<open>ReadStore\<close>, \<open>ReadRows\<close>: \<open>ReadStore.cpp\<close>, \<open>getData.c\<close>, \<open>wciReadFloat.c\<close>, \<open>wciReadGid.c\<close>, the set
    returning functions.
  \<^item> \<open>WciSession\<close>: \<open>wciSession.cpp\<close> and \<open>setRole\<close> of \<open>psqlTupleInterface.c\<close>.
  \<^item> \<open>Tuples\<close>: \<open>conversion.c\<close>, \<open>tuple.c\<close>, \<open>psqlTupleInterface.c\<close>, \<open>psqlTypesTupleInterface.c\<close>, \<open>getPlaceQuery.c\<close>,
    \<open>databaseProjection.cpp\<close>: the texts and rows of the server, and the SQL functions over the classes of
    \<open>Specifications\<close>, \<open>Location\<close> and \<open>GridGeometry\<close> from their text argument to the row they return.
  \<^item> \<open>Cleaning\<close>: \<open>cleanDb.c\<close>.
  \<^item> \<open>AdminUsers\<close>, \<open>AdminShell\<close>: \<open>src/admin\<close>, the transactors and operations, the commands and the loop.
  \<^item> \<open>ConfigFile\<close>, \<open>Configuration\<close>, \<open>Programs\<close>, \<open>GridPoint\<close>: \<open>src/common/configuration\<close>, the key-value files, the
    options, the program that prints them and the classes that add to them, and the points of a field.
  \<^item> \<open>Logging\<close>: \<open>src/common/logHandler\<close>.

  What the lemmas show.
  \<^item> Arguments and statements: which arguments are accepted (a level only when its numbers are in the range of a
    \<open>float\<close>), what the fields of a time are for every text, that a statement is built exactly for valid arguments, that
    the names of providers and parameters, which are quoted, cannot change its structure, and that a browse statement
    selects from the rows that the read would select. Times and places are not quoted: for them the structure is kept
    only without apostrophes. The structure is read with \<open>standard_conforming_strings\<close> on.
  \<^item> Texts and rows: the two forms of a text agree, every text that is handed to \<open>levelSpec\<close> has a row of the declared
    types or the error that it is invalid or out of range, the row of a grid is read completely or the first missing
    column is named and the columns before it have been written, and a grid point that is printed is read back.
  \<^item> Grids: an index and its column and row are inverse in 32 bits, rounding keeps whole numbers, turning a grid
    over keeps each value at its coordinates.
  \<^item> Caches: each memo table answers like the computation behind it and stays bounded; no plan leaks or is freed
    twice. The locales \<open>memo_table\<close>, \<open>bounded_memo_table\<close>, \<open>key_order\<close> and \<open>name_table\<close> state the contracts
    once and are interpreted on the tables of the code.
  \<^item> Files: ids and names round trip, where paths are compared by their elements, what is written is read back when
    the write, the rename and the closing flush go well, what a crash or a failure of these can leave behind, and
    that the clean-up removes exactly the files it should.
  \<^item> Reading: which points a location gives and with which values, which errors can leave the readers, and that
    the rows of a call are those of a specification on lists.
  \<^item> Session, shell and configuration: the session object refines an optional tuple, a role name cannot carry SQL,
    user commands leave exactly the groups they ask for, nobody becomes an administrator unasked over a whole
    interactive session, the first source of an option wins, a configuration file is read as written, and the
    clean-up runs nothing but its own statements.
  \<^item> Memory: the reference counted geometries are a state machine whose invariant is that the counter of a cell is
    the number of its wrappers, by rule induction over the reachable heaps.

  Bounds and fuel. The matcher of regular expressions and the parser of grammars use the length of the text as
  fuel, which is enough since every round consumes a character. The loop over the fields of a read
  (\<open>skip_ended\<close>) has a measure, the tuples that are left, and the caller's loop (\<open>fetch\<close>) a number of calls, with a
  lemma that enough of them end it. The interactive shell is a recursion over the lines that are typed, after
  which the terminal is at its end. A heap has fewer than \<open>2 ^ 32\<close> wrappers, since the counter has 32 bits.

  What is not modelled. The SQL layer (tables, views, PL/pgSQL) is another language and appears as the server.
  Memory contexts, the lines of the log and the listings of options are left out, and so is an allocation that fails,
  but for the size limit of the server on texts. \<open>extractGridData.c\<close> is not built, and nothing calls the GRIB files of
  the administration (\<open>gribFile.cpp\<close>, \<open>opdataGribFile.cpp\<close>, \<open>hindcastGribFile.cpp\<close>, \<open>wdbDataKey.cpp\<close>). The tests
  are left out. A transaction of the administration program is \<open>transactional\<close>: atomic, or in doubt; what a server
  does with its roles is the hypothesis \<open>role_server\<close>, for names of at most 63 bytes that need no quotes and stand for
  no other role, with membership queries that see only the roles that can log in, and no other session that changes
  roles. The statement of a clean-up strategy and the sorting of the server are the server's.
\<close>

end
